(* ===== verification/Prelude.thy ===== *)
theory Prelude
  imports Main "HOL-Library.Word" "HOL-Library.Signed_Division" "HOL-Library.AList"
begin

text \<open>
  The vocabulary the component theories share: the exceptions the program throws and the
  result type of a fallible call, C++ integer conversions, decimal printing, the line and
  field reading of \<^verbatim>\<open>std::getline\<close>, and the containers of
  \<^verbatim>\<open>common/utils/containerutils.h\<close>.
\<close>

section \<open>Fact collections\<close>

named_theorems res_simps "evaluation of fallible calls"
named_theorems double_simps "evaluation and order of doubles"
named_theorems trade_simps "effect of the trading operations on the state"

section \<open>Exceptions and fallible results\<close>

text \<open>
  Every way an operation of the program can fail. \<open>Undefined_behaviour\<close> marks an execution
  the C++ standard gives no meaning to (an out-of-range iterator, \<^verbatim>\<open>front()\<close> of an empty
  container, a conversion of an unrepresentable value, a failed \<^verbatim>\<open>assert\<close>) or one that
  \<^verbatim>\<open>std::terminate\<close> ends: the model stops there instead of choosing a value.
\<close>

datatype exn =
    Mb_exception string
  | Validation_exception string
  | Not_implemented_exception string
  | Invalid_argument string
  | Out_of_range string
  | Length_error string
  | Bad_variant_access
  | Json_exception string
  | Logic_error string
  | Runtime_error string
  | Undefined_behaviour string

type_synonym 'a res = "exn + 'a"

type_synonym time_t = int

fun res_bind :: "'a res \<Rightarrow> ('a \<Rightarrow> 'b res) \<Rightarrow> 'b res" where
  "res_bind (Inl e) f = Inl e"
| "res_bind (Inr a) f = f a"

declare res_bind.simps [res_simps]

lemma res_bind_Inr_iff:
  "res_bind r f = Inr b \<longleftrightarrow> (\<exists>a. r = Inr a \<and> f a = Inr b)"
  by (cases r) auto

lemma res_bind_Inl_iff:
  "res_bind r f = Inl e \<longleftrightarrow> r = Inl e \<or> (\<exists>a. r = Inr a \<and> f a = Inl e)"
  by (cases r) auto

fun res_map :: "('a \<Rightarrow> 'b) \<Rightarrow> 'a res \<Rightarrow> 'b res" where
  "res_map f (Inl e) = Inl e"
| "res_map f (Inr a) = Inr (f a)"

lemma res_map_InrD: "res_map f r = Inr b \<Longrightarrow> \<exists>a. r = Inr a \<and> f a = b"
  by (cases r) auto

text \<open>A loop that calls a fallible operation on each element, in order.\<close>

fun res_traverse :: "('a \<Rightarrow> 'b res) \<Rightarrow> 'a list \<Rightarrow> 'b list res" where
  "res_traverse f [] = Inr []"
| "res_traverse f (x # xs) =
     res_bind (f x) (\<lambda>y. res_bind (res_traverse f xs) (\<lambda>ys. Inr (y # ys)))"

lemma res_traverse_Inr:
  "res_traverse f xs = Inr ys \<Longrightarrow> list_all2 (\<lambda>x y. f x = Inr y) xs ys"
  by (induction xs arbitrary: ys) (auto simp: res_bind_Inr_iff)

lemma res_traverse_total:
  "(\<And>x. x \<in> set xs \<Longrightarrow> f x = Inr (g x)) \<Longrightarrow> res_traverse f xs = Inr (map g xs)"
  by (induction xs) auto

lemma res_traverse_nth:
  "length ys = length xs \<Longrightarrow> (\<And>i. i < length xs \<Longrightarrow> f (xs ! i) = Inr (ys ! i)) \<Longrightarrow> res_traverse f xs = Inr ys"
proof (induction xs arbitrary: ys)
  case (Cons x xs)
  then obtain y zs where ys: "ys = y # zs" by (cases ys) auto
  have "f x = Inr y" using Cons.prems(2) [of 0] ys by simp
  moreover have "f (xs ! i) = Inr (zs ! i)" if "i < length xs" for i
    using Cons.prems(2) [of "Suc i"] that ys by simp
  ultimately show ?case using Cons.IH [of zs] Cons.prems(1) ys by simp
qed simp

lemma res_traverse_first_error:
  "(\<And>i. i < k \<Longrightarrow> \<exists>y. f (xs ! i) = Inr y) \<Longrightarrow> k < length xs \<Longrightarrow> f (xs ! k) = Inl e \<Longrightarrow> res_traverse f xs = Inl e"
proof (induction k arbitrary: xs)
  case 0
  then show ?case by (cases xs) simp_all
next
  case (Suc k)
  then obtain x xs' where xs: "xs = x # xs'" by (cases xs) auto
  obtain y where "f x = Inr y" using Suc.prems(1) [of 0] xs by auto
  moreover have "\<exists>y. f (xs' ! i) = Inr y" if "i < k" for i
    using Suc.prems(1) [of "Suc i"] that xs by simp
  ultimately show ?case using Suc.IH [of xs'] Suc.prems(2,3) xs by simp
qed

text \<open>\<^verbatim>\<open>common/utils/generalutils.cpp\<close>.\<close>

definition assert_throw :: "bool \<Rightarrow> string \<Rightarrow> unit res" where
  "assert_throw condition message = (if \<not> condition then Inl (Mb_exception message) else Inr ())"

lemma assert_throw_Inr [res_simps]: "assert_throw c m = Inr u \<longleftrightarrow> c"
  by (simp add: assert_throw_def)

text \<open>The element an iterator or an index reads: undefined behaviour out of range.\<close>

definition read_at :: "string \<Rightarrow> 'a list \<Rightarrow> int \<Rightarrow> 'a res" where
  "read_at what xs i =
     (if 0 \<le> i \<and> i < int (length xs) then Inr (xs ! nat i) else Inl (Undefined_behaviour what))"

lemma read_at_Inr: "0 \<le> i \<Longrightarrow> i < int (length xs) \<Longrightarrow> read_at w xs i = Inr (xs ! nat i)"
  by (simp add: read_at_def)

section \<open>Operations on a state\<close>

text \<open>
  A member function that changes its object and may throw: it takes the state and returns its
  result with the state it leaves behind. An exception does not roll anything back, so the
  state reached is returned with it.
\<close>

type_synonym ('s, 'a) action = "'s \<Rightarrow> 'a res \<times> 's"

definition act_return :: "'a \<Rightarrow> ('s, 'a) action" where
  "act_return a s = (Inr a, s)"

definition act_throw :: "exn \<Rightarrow> ('s, 'a) action" where
  "act_throw e s = (Inl e, s)"

definition act_bind :: "('s, 'a) action \<Rightarrow> ('a \<Rightarrow> ('s, 'b) action) \<Rightarrow> ('s, 'b) action" where
  "act_bind m f s = (case m s of (Inl e, s') \<Rightarrow> (Inl e, s') | (Inr a, s') \<Rightarrow> f a s')"

abbreviation act_seq :: "('s, unit) action \<Rightarrow> ('s, 'b) action \<Rightarrow> ('s, 'b) action" where
  "act_seq m n \<equiv> act_bind m (\<lambda>_. n)"

definition act_modify :: "('s \<Rightarrow> 's) \<Rightarrow> ('s, unit) action" where
  "act_modify f s = (Inr (), f s)"

definition act_read :: "('s \<Rightarrow> 'a) \<Rightarrow> ('s, 'a) action" where
  "act_read f s = (Inr (f s), s)"

definition act_res :: "('s \<Rightarrow> 'a res) \<Rightarrow> ('s, 'a) action" where
  "act_res f s = (f s, s)"

fun act_iter :: "('a \<Rightarrow> ('s, unit) action) \<Rightarrow> 'a list \<Rightarrow> ('s, unit) action" where
  "act_iter f [] s = (Inr (), s)"
| "act_iter f (x # xs) s = act_bind (f x) (\<lambda>_. act_iter f xs) s"

named_theorems act_simps "evaluation of operations on a state"

lemmas act_defs [act_simps] =
  act_return_def act_throw_def act_bind_def act_modify_def act_read_def act_res_def

lemma act_bind_Inr_iff:
  "act_bind m f s = (Inr b, t) \<longleftrightarrow> (\<exists>a u. m s = (Inr a, u) \<and> f a u = (Inr b, t))"
  by (auto simp: act_bind_def split: prod.splits sum.splits)

lemma act_iter_modify [act_simps]:
  "act_iter (\<lambda>x. act_modify (f x)) xs s = (Inr (), fold f xs s)"
  by (induction xs arbitrary: s) (simp_all add: act_simps)

lemma act_res_Inr_seq: "act_bind (act_res (\<lambda>_. Inr a)) f = f a"
  by (simp add: act_simps fun_eq_iff)

text \<open>An invariant that every iteration keeps, whether it throws or not.\<close>

lemma act_iter_invariant:
  assumes "\<And>x s. x \<in> set xs \<Longrightarrow> I s \<Longrightarrow> I (snd (f x s))" and "I s"
  shows "I (snd (act_iter f xs s))"
  using assms
proof (induction xs arbitrary: s)
  case (Cons x xs)
  then have "I (snd (f x s))" by simp
  moreover obtain r t where "f x s = (r, t)" by fastforce
  ultimately show ?case using Cons by (cases r) (simp_all add: act_bind_def)
qed simp

text \<open>A view of the state that an operation leaves as it is, whether it throws or not.\<close>

definition act_keeps :: "('s \<Rightarrow> 'b) \<Rightarrow> ('s, 'a) action \<Rightarrow> bool" where
  "act_keeps f m \<longleftrightarrow> (\<forall>s. f (snd (m s)) = f s)"

named_theorems keeps "operations that keep a view of the state"

lemma act_keepsD: "act_keeps f m \<Longrightarrow> m s = (r, t) \<Longrightarrow> f t = f s"
  by (auto simp: act_keeps_def dest: spec [of _ s])

lemma keeps_basic [keeps]:
  "act_keeps f (act_return a)" "act_keeps f (act_throw e)" "act_keeps f (act_read g)" "act_keeps f (act_res h)"
  by (simp_all add: act_keeps_def act_simps)

lemma keeps_modify: "(\<And>s. f (g s) = f s) \<Longrightarrow> act_keeps f (act_modify g)"
  by (simp add: act_keeps_def act_simps)

lemma keeps_bind [keeps]: "act_keeps f m \<Longrightarrow> (\<And>a. act_keeps f (k a)) \<Longrightarrow> act_keeps f (act_bind m k)"
  by (auto simp: act_keeps_def act_bind_def split: prod.split sum.split) (metis snd_conv)+

lemma keeps_if [keeps]: "act_keeps f m \<Longrightarrow> act_keeps f n \<Longrightarrow> act_keeps f (if b then m else n)"
  by simp

lemma keeps_iter [keeps]: "(\<And>x. act_keeps f (g x)) \<Longrightarrow> act_keeps f (act_iter g xs)"
  using act_iter_invariant [of xs "\<lambda>t. f t = c" g for c] by (fastforce simp: act_keeps_def)

section \<open>Integers\<close>

text \<open>
  \<^verbatim>\<open>std::time_t\<close> is a 64-bit and \<^verbatim>\<open>int\<close> a 32-bit signed integer. Signed
  overflow is undefined behaviour in C++, so the arithmetic of times is the one of \<open>int\<close>;
  the conversion of a \<^verbatim>\<open>time_t\<close> to an \<^verbatim>\<open>int\<close> keeps the low 32 bits and is
  written out. Division truncates towards zero.
\<close>

definition narrow32 :: "int \<Rightarrow> int" where
  "narrow32 i = signed_take_bit 31 i"

lemma narrow32_id: "- 2147483648 \<le> i \<Longrightarrow> i < 2147483648 \<Longrightarrow> narrow32 i = i"
  by (simp add: narrow32_def signed_take_bit_int_eq_self)

lemma narrow32_bounds: "- 2147483648 \<le> narrow32 i \<and> narrow32 i < 2147483648"
  using signed_take_bit_int_greater_eq_minus_exp [of 31 i] signed_take_bit_int_less_exp [of 31 i]
  by (simp add: narrow32_def)

lemma sdiv_nonneg: "0 \<le> a \<Longrightarrow> 0 < b \<Longrightarrow> (a::int) sdiv b = a div b"
  by (cases "a = 0") (simp_all add: signed_divide_int_def)

section \<open>Decimal printing\<close>

definition digit_char :: "nat \<Rightarrow> char" where
  "digit_char d = char_of (48 + d)"

fun digits_of :: "nat \<Rightarrow> string" where
  "digits_of n = (if n < 10 then [digit_char n] else digits_of (n div 10) @ [digit_char (n mod 10)])"

declare digits_of.simps [simp del]

text \<open>\<^verbatim>\<open>std::to_string\<close> of an integer.\<close>

definition show_int :: "int \<Rightarrow> string" where
  "show_int i = (if i < 0 then CHR ''-'' # digits_of (nat (- i)) else digits_of (nat i))"

definition digit_value :: "char \<Rightarrow> nat" where
  "digit_value c = of_char c - 48"

definition is_digit :: "char \<Rightarrow> bool" where
  "is_digit c \<longleftrightarrow> 48 \<le> (of_char c :: nat) \<and> (of_char c :: nat) \<le> 57"

definition read_digits :: "string \<Rightarrow> nat" where
  "read_digits s = foldl (\<lambda>a c. 10 * a + digit_value c) 0 s"

lemma of_digit_char: "d < 10 \<Longrightarrow> (of_char (digit_char d) :: nat) = 48 + d"
  by (simp add: digit_char_def)

lemma digit_value_char [simp]: "d < 10 \<Longrightarrow> digit_value (digit_char d) = d"
  by (simp add: digit_value_def of_digit_char)

lemma is_digit_char [simp]: "d < 10 \<Longrightarrow> is_digit (digit_char d)"
  by (simp add: is_digit_def of_digit_char)

lemma digits_of_is_digit: "c \<in> set (digits_of n) \<Longrightarrow> is_digit c"
proof (induction n rule: digits_of.induct)
  case (1 n)
  then show ?case by (cases "n < 10") (auto simp: digits_of.simps [of n])
qed

lemma digits_of_nonempty [simp]: "digits_of n \<noteq> []"
  by (subst digits_of.simps) simp

lemma read_digits_of [simp]: "read_digits (digits_of n) = n"
proof (induction n rule: digits_of.induct)
  case (1 n)
  then show ?case
    by (cases "n < 10") (auto simp: digits_of.simps [of n] read_digits_def)
qed

lemma digits_of_inject [simp]: "digits_of m = digits_of n \<longleftrightarrow> m = n"
  by (metis read_digits_of)

lemma minus_not_digit [simp]: "\<not> is_digit (CHR ''-'')"
  by (simp add: is_digit_def)

lemma digits_of_no_minus: "digits_of n \<noteq> CHR ''-'' # s"
  by (metis digits_of_is_digit list.set_intros(1) minus_not_digit)

lemma show_int_inject: "show_int i = show_int j \<longleftrightarrow> i = j"
  using digits_of_no_minus [of "nat i"] digits_of_no_minus [of "nat j"]
  by (auto simp: show_int_def split: if_splits) (metis not_le)

section \<open>Reading strings\<close>

text \<open>
  A string handed on through \<^verbatim>\<open>std::string_view::data()\<close> is read up to its first zero
  character.
\<close>

definition c_str :: "string \<Rightarrow> string" where
  "c_str s = takeWhile (\<lambda>c. c \<noteq> CHR 0x00) s"

lemma c_str_id: "CHR 0x00 \<notin> set s \<Longrightarrow> c_str s = s"
  unfolding c_str_def by (rule takeWhile_eq_all_conv [THEN iffD2]) auto

text \<open>
  The segments that repeated \<^verbatim>\<open>std::getline(stream, segment, delimiter)\<close> extracts: the
  delimiter is consumed, and an empty rest at the end of the stream gives no segment.
\<close>

function getline_segs :: "char \<Rightarrow> string \<Rightarrow> string list" where
  "getline_segs d s =
     (if s = [] then []
      else (case dropWhile (\<lambda>c. c \<noteq> d) s of
               [] \<Rightarrow> [s]
             | _ # rest \<Rightarrow> takeWhile (\<lambda>c. c \<noteq> d) s # getline_segs d rest))"
  by pat_completeness auto
termination
proof (relation "measure (\<lambda>(d, s). length s)")
  fix d s x rest
  assume "dropWhile (\<lambda>c. c \<noteq> d) s = x # (rest :: string)"
  then show "((d, rest), (d, s)) \<in> measure (\<lambda>(d, s). length s)"
    using length_dropWhile_le [of "\<lambda>c. c \<noteq> d" s] by simp
qed simp

declare getline_segs.simps [simp del]

lemma getline_segs_Nil [simp]: "getline_segs d [] = []"
  by (simp add: getline_segs.simps)

lemma getline_segs_last: "s \<noteq> [] \<Longrightarrow> d \<notin> set s \<Longrightarrow> getline_segs d s = [s]"
proof -
  assume "s \<noteq> []" and "d \<notin> set s"
  then have eq: "dropWhile (\<lambda>c. c \<noteq> d) s = []"
    by (simp only: dropWhile_eq_Nil_conv) auto
  from \<open>s \<noteq> []\<close> show ?thesis by (subst getline_segs.simps) (simp only: eq if_False list.case)
qed

lemma getline_segs_step:
  "d \<notin> set a \<Longrightarrow> getline_segs d (a @ d # rest) = a # getline_segs d rest"
  by (subst getline_segs.simps) (auto split: list.splits simp: dropWhile_append takeWhile_append)

lemma getline_segs_no_delim: "x \<in> set (getline_segs d s) \<Longrightarrow> d \<notin> set x"
proof (induction d s rule: getline_segs.induct)
  case (1 d s)
  then show ?case
    using getline_segs.simps [of d s]
    by (auto split: list.splits if_splits dest: set_takeWhileD simp: dropWhile_eq_Nil_conv)
qed

section \<open>Containers\<close>

text \<open>
  \<^verbatim>\<open>common/utils/containerutils.h\<close>. An \<^verbatim>\<open>unordered_map\<close> is a partial function
  where the code only looks keys up, and an association list where the code iterates it: the
  order of the list stands for the iteration order, which C++ leaves open, and no statement
  depends on it. \<open>emplace\<close> keeps an entry that is already there, \<open>AList.update\<close> is the
  assignment \<^verbatim>\<open>m[k] = v\<close>, and \<open>AList.delete\<close> is \<^verbatim>\<open>erase\<close>.
\<close>

definition emplace :: "'k \<Rightarrow> 'v \<Rightarrow> ('k \<times> 'v) list \<Rightarrow> ('k \<times> 'v) list" where
  "emplace k v m = (if map_of m k = None then m @ [(k, v)] else m)"

definition contains :: "('k \<times> 'v) list \<Rightarrow> 'k \<Rightarrow> bool" where
  "contains source element = (map_of source element \<noteq> None)"

definition find_or_default :: "'v \<Rightarrow> ('k \<rightharpoonup> 'v) \<Rightarrow> 'k \<Rightarrow> 'v" where
  "find_or_default dflt source key = (case source key of Some v \<Rightarrow> v | None \<Rightarrow> dflt)"

definition to_unordered_map ::
    "'a list \<Rightarrow> ('a \<Rightarrow> 'k) \<Rightarrow> ('a \<Rightarrow> 'v) \<Rightarrow> ('k \<times> 'v) list" where
  "to_unordered_map source keySelector valueSelector =
     foldl (\<lambda>m item. emplace (keySelector item) (valueSelector item) m) [] source"

definition to_unordered_set :: "'a list \<Rightarrow> 'a list" where
  "to_unordered_set source = foldl (\<lambda>s item. List.insert item s) [] source"

definition to_vector :: "'a list \<Rightarrow> ('a \<Rightarrow> 'b) \<Rightarrow> 'b list" where
  "to_vector source selector = map selector source"

definition copy_where :: "'a list \<Rightarrow> ('a \<Rightarrow> bool) \<Rightarrow> 'a list" where
  "copy_where source p = filter p source"

lemma map_of_emplace:
  "map_of (emplace k v m) = (if k \<in> fst ` set m then map_of m else (map_of m)(k \<mapsto> v))"
proof (cases "k \<in> fst ` set m")
  case True
  then have "map_of m k \<noteq> None" by (simp add: map_of_eq_None_iff)
  with True show ?thesis by (auto simp: emplace_def)
next
  case False
  then have "map_of m k = None" by (simp add: map_of_eq_None_iff)
  with False show ?thesis
    by (auto simp: emplace_def map_add_def fun_eq_iff split: option.splits)
qed

lemma distinct_emplace: "distinct (map fst m) \<Longrightarrow> distinct (map fst (emplace k v m))"
  by (auto simp: emplace_def map_of_eq_None_iff)

lemma contains_iff: "contains m k \<longleftrightarrow> k \<in> fst ` set m"
  by (simp add: contains_def map_of_eq_None_iff)

text \<open>The first item with a key wins, as \<^verbatim>\<open>emplace\<close> does not overwrite.\<close>

lemma map_of_to_unordered_map_aux:
  "map_of (foldl (\<lambda>m item. emplace (f item) (g item) m) acc xs) =
     map_of (map (\<lambda>x. (f x, g x)) xs) ++ map_of acc"
proof (induction xs arbitrary: acc)
  case Nil
  then show ?case by simp
next
  case (Cons x xs)
  show ?case
    by (auto simp: Cons.IH map_of_emplace map_add_def fun_eq_iff map_of_eq_None_iff
        split: option.splits)
       (metis domI dom_map_of_conv_image_fst option.simps(3))
qed

lemma map_of_to_unordered_map:
  "map_of (to_unordered_map xs f g) = map_of (map (\<lambda>x. (f x, g x)) xs)"
  by (simp add: to_unordered_map_def map_of_to_unordered_map_aux)

lemma distinct_to_unordered_map: "distinct (map fst (to_unordered_map xs f g))"
proof -
  have "distinct (map fst acc) \<Longrightarrow>
      distinct (map fst (foldl (\<lambda>m item. emplace (f item) (g item) m) acc xs))" for acc
    by (induction xs arbitrary: acc) (auto intro: distinct_emplace)
  then show ?thesis by (simp add: to_unordered_map_def)
qed

lemma find_or_default_Some [simp]: "m k = Some v \<Longrightarrow> find_or_default d m k = v"
  by (simp add: find_or_default_def)

lemma find_or_default_None [simp]: "m k = None \<Longrightarrow> find_or_default d m k = d"
  by (simp add: find_or_default_def)

end
