(* ===== verification/Doubles.thy ===== *)
theory Doubles
  imports Prelude "HOL-Library.Log_Nat"
begin

text \<open>
  The C++ type \<^verbatim>\<open>double\<close> as IEEE 754 binary64 in round-to-nearest-even mode: finite
  values are rationals of the format (53-bit significand, exponents -1022 to 1023, gradual
  underflow), with a negative zero, two infinities and one NaN. Every operation computes the
  exact rational result and rounds it once. On top of it the numeric helpers of
  \<^verbatim>\<open>common/utils/mathutils\<close> and \<^verbatim>\<open>common/utils/financeutils.h\<close>.
\<close>

section \<open>The format\<close>

text \<open>\<open>Fin 0\<close> is positive zero.\<close>

datatype double = NaN | PInf | NInf | NZero | Fin rat

definition pow2 :: "int \<Rightarrow> rat" where
  "pow2 e = (if 0 \<le> e then of_int (2 ^ nat e) else 1 / of_int (2 ^ nat (- e)))"

text \<open>The exponent of a positive rational: \<open>2^e \<le> q < 2^(e+1)\<close>, from the bit lengths.\<close>

definition ilog2 :: "rat \<Rightarrow> int" where
  "ilog2 q = (let (n, d) = quotient_of q; k = int (nat (bitlen n)) - int (nat (bitlen d))
              in if pow2 k \<le> q then k else k - 1)"

text \<open>The exponent of the last place of the format around \<open>q\<close>.\<close>

definition lsb :: "rat \<Rightarrow> int" where
  "lsb q = max (- 1022) (ilog2 \<bar>q\<bar>) - 52"

text \<open>Round to the nearest integer, ties to even.\<close>

definition rne :: "rat \<Rightarrow> int" where
  "rne r = (let f = \<lfloor>r\<rfloor>; d = r - of_int f
            in if d < 1 / 2 then f else if 1 / 2 < d then f + 1 else if even f then f else f + 1)"

definition round_rat :: "rat \<Rightarrow> rat" where
  "round_rat q = (if q = 0 then 0 else of_int (rne (q / pow2 (lsb q))) * pow2 (lsb q))"

text \<open>
  The result of an operation with exact value \<open>q\<close>; a zero that comes from underflow keeps
  the sign.
\<close>

definition to_double :: "rat \<Rightarrow> double" where
  "to_double q = (let r = round_rat q
     in if r = 0 then (if q < 0 then NZero else Fin 0)
        else if ilog2 \<bar>r\<bar> < 1024 then Fin r
        else if q < 0 then NInf else PInf)"

definition representable :: "rat \<Rightarrow> bool" where
  "representable q \<longleftrightarrow> round_rat q = q \<and> \<bar>q\<bar> < pow2 1024"

definition wf_double :: "double \<Rightarrow> bool" where
  "wf_double x \<longleftrightarrow> (case x of Fin q \<Rightarrow> representable q | _ \<Rightarrow> True)"

section \<open>Classification, sign, order\<close>

definition isnan :: "double \<Rightarrow> bool" where
  "isnan x \<longleftrightarrow> x = NaN"

definition is_finite :: "double \<Rightarrow> bool" where
  "is_finite x \<longleftrightarrow> (case x of Fin _ \<Rightarrow> True | NZero \<Rightarrow> True | _ \<Rightarrow> False)"

text \<open>The exact value of a finite double.\<close>

definition dval :: "double \<Rightarrow> rat" where
  "dval x = (case x of Fin q \<Rightarrow> q | _ \<Rightarrow> 0)"

definition signbit :: "double \<Rightarrow> bool" where
  "signbit x = (case x of NInf \<Rightarrow> True | NZero \<Rightarrow> True | Fin q \<Rightarrow> q < 0 | _ \<Rightarrow> False)"

definition is_zero :: "double \<Rightarrow> bool" where
  "is_zero x = (x = NZero \<or> x = Fin 0)"

text \<open>Infinities below and above every finite value.\<close>

definition rank :: "double \<Rightarrow> int" where
  "rank x = (case x of NInf \<Rightarrow> - 1 | PInf \<Rightarrow> 1 | _ \<Rightarrow> 0)"

text \<open>
  The comparisons of C++: false when an operand is NaN, and the two zeros are equal. \<open>deq\<close>
  is \<^verbatim>\<open>==\<close>; the equality of the logic distinguishes the zeros.
\<close>

instantiation double :: ord
begin

definition less_double :: "double \<Rightarrow> double \<Rightarrow> bool" where
  "less_double x y \<longleftrightarrow> \<not> isnan x \<and> \<not> isnan y \<and>
     (rank x < rank y \<or> rank x = rank y \<and> dval x < dval y)"

definition less_eq_double :: "double \<Rightarrow> double \<Rightarrow> bool" where
  "less_eq_double x y \<longleftrightarrow> \<not> isnan x \<and> \<not> isnan y \<and>
     (rank x < rank y \<or> rank x = rank y \<and> dval x \<le> dval y)"

instance ..

end

definition deq :: "double \<Rightarrow> double \<Rightarrow> bool" where
  "deq x y \<longleftrightarrow> \<not> isnan x \<and> \<not> isnan y \<and> rank x = rank y \<and> dval x = dval y"

text \<open>\<^verbatim>\<open>std::max\<close> and \<^verbatim>\<open>std::min\<close>: the first argument unless the comparison says otherwise.\<close>

definition dmax :: "double \<Rightarrow> double \<Rightarrow> double" where
  "dmax a b = (if a < b then b else a)"

definition dmin :: "double \<Rightarrow> double \<Rightarrow> double" where
  "dmin a b = (if b < a then b else a)"

section \<open>Arithmetic\<close>

instantiation double :: "{zero, one, plus, uminus, minus, times, inverse, abs}"
begin

definition zero_double :: double where "zero_double = Fin 0"
definition one_double :: double where "one_double = Fin 1"

definition uminus_double :: "double \<Rightarrow> double" where
  "uminus_double x = (case x of NaN \<Rightarrow> NaN | PInf \<Rightarrow> NInf | NInf \<Rightarrow> PInf | NZero \<Rightarrow> Fin 0
     | Fin q \<Rightarrow> if q = 0 then NZero else Fin (- q))"

definition abs_double :: "double \<Rightarrow> double" where
  "abs_double x = (if signbit x then - x else x)"

definition plus_double :: "double \<Rightarrow> double \<Rightarrow> double" where
  "plus_double x y =
     (if isnan x \<or> isnan y then NaN
      else if rank x \<noteq> 0 then (if rank y = - rank x then NaN else x)
      else if rank y \<noteq> 0 then y
      else if dval x + dval y = 0
        then (if signbit x \<and> signbit y then NZero else Fin 0)
      else to_double (dval x + dval y))"

definition minus_double :: "double \<Rightarrow> double \<Rightarrow> double" where
  "minus_double x y = x + - (y :: double)"

definition times_double :: "double \<Rightarrow> double \<Rightarrow> double" where
  "times_double x y =
     (if isnan x \<or> isnan y then NaN
      else if rank x \<noteq> 0 \<or> rank y \<noteq> 0
        then (if is_zero x \<or> is_zero y then NaN
              else if signbit x = signbit y then PInf else NInf)
      else if dval x * dval y = 0
        then (if signbit x = signbit y then Fin 0 else NZero)
      else to_double (dval x * dval y))"

definition divide_double :: "double \<Rightarrow> double \<Rightarrow> double" where
  "divide_double x y =
     (if isnan x \<or> isnan y \<or> rank x \<noteq> 0 \<and> rank y \<noteq> 0 \<or> is_zero x \<and> is_zero y then NaN
      else if rank x \<noteq> 0 \<or> is_zero y then (if signbit x = signbit y then PInf else NInf)
      else if rank y \<noteq> 0 \<or> is_zero x then (if signbit x = signbit y then Fin 0 else NZero)
      else to_double (dval x / dval y))"

definition inverse_double :: "double \<Rightarrow> double" where
  "inverse_double x = divide 1 (x :: double)"

instance ..

end

text \<open>Literals and the conversion of integers.\<close>

definition lit :: "rat \<Rightarrow> double" where
  "lit q = to_double q"

definition of_int_d :: "int \<Rightarrow> double" where
  "of_int_d i = to_double (of_int i)"

section \<open>Powers of two and the exponent\<close>

lemma pow2_pos [simp]: "0 < pow2 e"
  by (simp add: pow2_def)

lemma pow2_ge0 [simp]: "0 \<le> pow2 e"
  by (simp add: less_imp_le)

lemma pow2_neq0 [simp]: "pow2 e \<noteq> 0"
  using pow2_pos [of e] by linarith

lemma pow2_powi: "pow2 e = 2 powi e"
  by (simp add: pow2_def power_int_def field_simps)

lemma pow2_add: "pow2 (a + b) = pow2 a * pow2 b"
  by (simp add: pow2_powi power_int_add)

lemma pow2_Suc: "pow2 (e + 1) = 2 * pow2 e"
  by (simp add: pow2_add) (simp add: pow2_def)

lemma pow2_mono: "a \<le> b \<Longrightarrow> pow2 a \<le> pow2 b"
  by (simp add: pow2_powi power_int_increasing)

lemma pow2_less: "a < b \<Longrightarrow> pow2 a < pow2 b"
  by (simp add: pow2_powi power_int_strict_increasing)

lemma pow2_less_iff: "pow2 a < pow2 b \<longleftrightarrow> a < b"
  by (metis linorder_not_less pow2_less pow2_mono)

lemma pow2_nat: "0 \<le> e \<Longrightarrow> pow2 e = 2 ^ nat e"
  by (simp add: pow2_def)

lemma bitlen_pow2: "0 < n \<Longrightarrow> pow2 (bitlen n - 1) \<le> of_int n \<and> of_int n < pow2 (bitlen n)"
proof -
  assume "0 < n"
  from bitlen_bounds [OF this] have "2 ^ nat (bitlen n - 1) \<le> n" "n < 2 ^ nat (bitlen n)" by auto
  then have "(of_int (2 ^ nat (bitlen n - 1)) :: rat) \<le> of_int n"
    and "(of_int n :: rat) < of_int (2 ^ nat (bitlen n))"
    by (simp_all only: of_int_le_iff of_int_less_iff)
  moreover have "1 \<le> bitlen n"
    using \<open>0 < n\<close> by (metis bitlen_eq_zero_iff bitlen_nonneg int_one_le_iff_zero_less
        linorder_not_less order_le_less)
  ultimately show ?thesis by (simp add: pow2_def)
qed

lemma ilog2_bounds:
  assumes "0 < q"
  shows "pow2 (ilog2 q) \<le> q \<and> q < pow2 (ilog2 q + 1)"
proof -
  obtain n d where nd: "quotient_of q = (n, d)" by fastforce
  have d: "0 < d" and q: "q = of_int n / of_int d"
    using nd by (auto dest: quotient_of_denom_pos quotient_of_div)
  have n: "0 < n" using assms d q by (simp add: zero_less_divide_iff)
  define k where "k = bitlen n - bitlen d"
  have k: "k = int (nat (bitlen n)) - int (nat (bitlen d))"
    by (simp add: k_def bitlen_nonneg)
  note bn = bitlen_pow2 [OF n] and bd = bitlen_pow2 [OF d]
  have lower: "pow2 (k - 1) \<le> q"
  proof -
    have "pow2 (k - 1) * of_int d \<le> pow2 (k - 1) * pow2 (bitlen d)"
      using bd by (intro mult_left_mono) auto
    also have "\<dots> = pow2 (bitlen n - 1)" by (simp add: k_def flip: pow2_add)
    also have "\<dots> \<le> of_int n" using bn by simp
    finally show ?thesis using d by (simp add: q field_simps)
  qed
  have upper: "q < pow2 (k + 1)"
  proof -
    have "of_int n < pow2 (bitlen n)" using bn by simp
    also have "\<dots> = pow2 (k + 1) * pow2 (bitlen d - 1)" by (simp add: k_def flip: pow2_add)
    also have "\<dots> \<le> pow2 (k + 1) * of_int d" using bd by (intro mult_left_mono) auto
    finally show ?thesis using d by (simp add: q field_simps)
  qed
  have "ilog2 q = (if pow2 k \<le> q then k else k - 1)"
    unfolding ilog2_def nd Let_def prod.case k [symmetric] ..
  then show ?thesis using lower upper by simp
qed

lemma ilog2_eqI: "pow2 e \<le> q \<Longrightarrow> q < pow2 (e + 1) \<Longrightarrow> ilog2 q = e"
proof -
  assume e: "pow2 e \<le> q" "q < pow2 (e + 1)"
  then have "0 < q" using pow2_pos [of e] by linarith
  note i = ilog2_bounds [OF this]
  from e i have "pow2 e < pow2 (ilog2 q + 1)" "pow2 (ilog2 q) < pow2 (e + 1)" by linarith+
  then show ?thesis by (simp add: pow2_less_iff)
qed

lemma ilog2_mono: "0 < q \<Longrightarrow> q \<le> r \<Longrightarrow> ilog2 q \<le> ilog2 r"
proof -
  assume "0 < q" "q \<le> r"
  then have "pow2 (ilog2 q) < pow2 (ilog2 r + 1)"
    using ilog2_bounds [of q] ilog2_bounds [of r] by linarith
  then show ?thesis by (simp add: pow2_less_iff)
qed

lemma ilog2_less_iff: "0 < q \<Longrightarrow> ilog2 q < e \<longleftrightarrow> q < pow2 e"
  using ilog2_bounds [of q] pow2_mono [of "ilog2 q + 1" e] pow2_mono [of e "ilog2 q"]
  by fastforce

lemma ilog2_less_abs: "q \<noteq> 0 \<Longrightarrow> ilog2 \<bar>q\<bar> < e \<longleftrightarrow> \<bar>q\<bar> < pow2 e"
  by (simp add: ilog2_less_iff)

section \<open>Rounding\<close>

lemma rne_of_int [simp]: "rne (of_int i) = i"
  by (simp add: rne_def)

lemma rne_cases:
  "r - of_int \<lfloor>r\<rfloor> < 1 / 2 \<Longrightarrow> rne r = \<lfloor>r\<rfloor>"
  "1 / 2 < r - of_int \<lfloor>r\<rfloor> \<Longrightarrow> rne r = \<lfloor>r\<rfloor> + 1"
  "r - of_int \<lfloor>r\<rfloor> = 1 / 2 \<Longrightarrow> rne r = (if even \<lfloor>r\<rfloor> then \<lfloor>r\<rfloor> else \<lfloor>r\<rfloor> + 1)"
  by (simp_all add: rne_def Let_def)

lemma rne_mono: "q \<le> r \<Longrightarrow> rne q \<le> rne r"
proof -
  assume le: "q \<le> r"
  then have fl: "\<lfloor>q\<rfloor> \<le> \<lfloor>r\<rfloor>" by (rule floor_mono)
  show ?thesis
  proof (cases "\<lfloor>q\<rfloor> = \<lfloor>r\<rfloor>")
    case True
    with le show ?thesis by (auto simp: rne_def Let_def)
  next
    case False
    with fl have "\<lfloor>q\<rfloor> + 1 \<le> \<lfloor>r\<rfloor>" by linarith
    then show ?thesis by (auto simp: rne_def Let_def)
  qed
qed

lemma rne_uminus: "rne (- r) = - rne r"
proof (cases "r \<in> \<int>")
  case True
  then obtain i where r: "r = of_int i" by (auto elim: Ints_cases)
  show ?thesis by (metis r of_int_minus rne_of_int)
next
  case False
  then have c: "\<lfloor>- r\<rfloor> = - \<lfloor>r\<rfloor> - 1"
    by (metis Ints_of_int add_uminus_conv_diff ceiling_altdef floor_minus minus_add_distrib)
  have frac: "- r - of_int \<lfloor>- r\<rfloor> = 1 - (r - of_int \<lfloor>r\<rfloor>)" by (simp add: c)
  have par: "even \<lfloor>- r\<rfloor> \<longleftrightarrow> odd \<lfloor>r\<rfloor>" by (simp add: c)
  consider "r - of_int \<lfloor>r\<rfloor> < 1 / 2" | "r - of_int \<lfloor>r\<rfloor> = 1 / 2" | "1 / 2 < r - of_int \<lfloor>r\<rfloor>"
    by linarith
  then show ?thesis
  proof cases
    case 1
    then have "1 / 2 < - r - of_int \<lfloor>- r\<rfloor>" using frac by linarith
    from rne_cases(2) [OF this] rne_cases(1) [OF 1] show ?thesis by (simp only: c, simp?)
  next
    case 2
    then have "- r - of_int \<lfloor>- r\<rfloor> = 1 / 2" using frac by linarith
    from rne_cases(3) [OF this] rne_cases(3) [OF 2] show ?thesis by (simp only: par, simp add: c)
  next
    case 3
    then have "- r - of_int \<lfloor>- r\<rfloor> < 1 / 2" using frac by linarith
    from rne_cases(1) [OF this] rne_cases(2) [OF 3] show ?thesis by (simp only: c, simp?)
  qed
qed

lemma rne_bounds: "of_int i \<le> q \<Longrightarrow> i \<le> rne q" "q \<le> of_int i \<Longrightarrow> rne q \<le> i"
  using rne_mono [of "of_int i" q] rne_mono [of q "of_int i"] by simp_all

lemma rne_error: "\<bar>of_int (rne r) - r\<bar> \<le> 1 / 2"
proof -
  have f: "0 \<le> r - of_int \<lfloor>r\<rfloor>" "r - of_int \<lfloor>r\<rfloor> < 1"
    using of_int_floor_le [of r] floor_correct [of r] by linarith+
  consider "r - of_int \<lfloor>r\<rfloor> < 1 / 2" | "r - of_int \<lfloor>r\<rfloor> = 1 / 2" | "1 / 2 < r - of_int \<lfloor>r\<rfloor>"
    by linarith
  then show ?thesis
  proof cases
    case 1
    with f show ?thesis by (simp only: rne_cases(1) [OF 1] abs_le_iff) linarith
  next
    case 2
    then show ?thesis
      by (cases "even \<lfloor>r\<rfloor>") (simp_all only: rne_cases(3) [OF 2] abs_le_iff if_True if_False of_int_add of_int_1, linarith+)
  next
    case 3
    with f show ?thesis by (simp only: rne_cases(2) [OF 3] abs_le_iff of_int_add of_int_1) linarith
  qed
qed

lemma lsb_uminus [simp]: "lsb (- q) = lsb q"
  by (simp add: lsb_def)

lemma round_rat_0 [simp]: "round_rat 0 = 0"
  by (simp add: round_rat_def)

lemma round_rat_uminus: "round_rat (- q) = - round_rat q"
  by (simp add: round_rat_def rne_uminus)

lemma round_rat_nonneg: "0 \<le> q \<Longrightarrow> 0 \<le> round_rat q"
  using rne_bounds(1) [of 0 "q / pow2 (lsb q)"] by (simp add: round_rat_def)

text \<open>A value that is a multiple of its last place is exact.\<close>

lemma round_rat_exact:
  assumes "lsb (of_int m * pow2 j) \<le> j"
  shows "round_rat (of_int m * pow2 j) = of_int m * pow2 j"
proof -
  let ?x = "of_int m * pow2 j"
  define l where "l = lsb ?x"
  have "pow2 j = pow2 (j - l) * pow2 l" by (simp flip: pow2_add)
  moreover have "pow2 (j - l) = of_int (2 ^ nat (j - l))"
    using assms by (simp add: pow2_def l_def)
  ultimately have "?x / pow2 l = of_int (m * 2 ^ nat (j - l))" by simp
  then have "rne (?x / pow2 l) = m * 2 ^ nat (j - l)" and "of_int (m * 2 ^ nat (j - l)) * pow2 l = ?x"
    by (simp_all only: rne_of_int) (auto simp: field_simps)
  then show ?thesis by (simp only: round_rat_def l_def [symmetric]) simp
qed

lemma round_rat_mono_pos:
  assumes "0 < q" "q \<le> r"
  shows "round_rat q \<le> round_rat r"
proof (cases "lsb q = lsb r")
  case True
  have "rne (q / pow2 (lsb r)) \<le> rne (r / pow2 (lsb r))"
    using assms by (intro rne_mono divide_right_mono) auto
  then show ?thesis using assms True by (simp add: round_rat_def)
next
  case False
  have "ilog2 q \<le> ilog2 r" using assms by (rule ilog2_mono)
  with False assms have l: "lsb q < lsb r" and r: "lsb r = ilog2 r - 52" and q: "ilog2 q \<le> lsb q + 52"
    by (auto simp: lsb_def)
  note bq = ilog2_bounds [of q] and br = ilog2_bounds [of r]
  have p53: "pow2 53 = of_int 9007199254740992" and p52: "pow2 52 = of_int 4503599627370496"
    by (simp_all add: pow2_def)
  have "q < pow2 (lsb q + 53)" using bq assms pow2_mono [of "ilog2 q + 1" "lsb q + 53"] q by linarith
  then have "q / pow2 (lsb q) \<le> pow2 53" by (simp add: pow2_add field_simps)
  then have "rne (q / pow2 (lsb q)) \<le> 9007199254740992" by (simp only: p53 rne_bounds)
  then have "of_int (rne (q / pow2 (lsb q))) \<le> pow2 53"
    by (simp only: p53 of_int_le_iff)
  then have "round_rat q \<le> pow2 53 * pow2 (lsb q)" using assms by (simp add: round_rat_def)
  also have "\<dots> = pow2 (lsb q + 1 + 52)" by (simp flip: pow2_add add: algebra_simps)
  also have "\<dots> \<le> pow2 (lsb r + 52)" using l by (intro pow2_mono) simp
  also have "\<dots> = pow2 52 * pow2 (lsb r)" by (simp add: pow2_add)
  also have "\<dots> \<le> round_rat r"
  proof -
    have "pow2 (lsb r + 52) \<le> r" using br assms r by simp
    then have "pow2 52 \<le> r / pow2 (lsb r)" by (simp add: pow2_add field_simps)
    then have "4503599627370496 \<le> rne (r / pow2 (lsb r))" by (simp only: p52 rne_bounds)
    then have "pow2 52 \<le> of_int (rne (r / pow2 (lsb r)))" by (simp only: p52 of_int_le_iff)
    then show ?thesis using assms by (simp add: round_rat_def)
  qed
  finally show ?thesis .
qed

lemma round_rat_mono:
  assumes "q \<le> r"
  shows "round_rat q \<le> round_rat r"
proof -
  consider "0 < q" | "q \<le> 0" "0 \<le> r" | "r < 0" by linarith
  then show ?thesis
  proof cases
    case 1
    then show ?thesis using assms by (rule round_rat_mono_pos)
  next
    case 2
    then show ?thesis
      using round_rat_nonneg [of r] round_rat_nonneg [of "- q"] by (simp add: round_rat_uminus)
  next
    case 3
    then show ?thesis
      using round_rat_mono_pos [of "- r" "- q"] assms by (simp add: round_rat_uminus)
  qed
qed

section \<open>Order\<close>

lemma double_le_not_less [double_simps]:
  "\<not> isnan x \<Longrightarrow> \<not> isnan y \<Longrightarrow> \<not> x < y \<longleftrightarrow> y \<le> (x :: double)"
  by (auto simp: less_double_def less_eq_double_def)

lemma double_less_irrefl [simp]: "\<not> x < (x :: double)"
  by (simp add: less_double_def)

lemma double_less_trans: "x < y \<Longrightarrow> y < z \<Longrightarrow> x < (z :: double)"
  by (auto simp: less_double_def)

lemma double_le_refl [simp]: "x \<le> (x :: double) \<longleftrightarrow> \<not> isnan x"
  by (simp add: less_eq_double_def)

lemma double_le_trans: "x \<le> y \<Longrightarrow> y \<le> z \<Longrightarrow> x \<le> (z :: double)"
  by (auto simp: less_eq_double_def)

lemma double_less_le: "x < y \<Longrightarrow> x \<le> (y :: double)"
  by (auto simp: less_eq_double_def less_double_def)

lemma double_le_less_trans: "x \<le> y \<Longrightarrow> y < z \<Longrightarrow> x < (z :: double)"
  by (auto simp: less_eq_double_def less_double_def)

lemma double_less_le_trans: "x < y \<Longrightarrow> y \<le> z \<Longrightarrow> x < (z :: double)"
  by (auto simp: less_eq_double_def less_double_def)

lemma double_linear: "\<not> isnan x \<Longrightarrow> \<not> isnan y \<Longrightarrow> x \<le> y \<or> y \<le> (x :: double)"
  by (auto simp: less_eq_double_def)

lemma double_antisym: "x \<le> y \<Longrightarrow> y \<le> x \<Longrightarrow> deq x y"
  by (auto simp: less_eq_double_def deq_def)

lemma deq_le: "deq x y \<Longrightarrow> x \<le> y" "deq x y \<Longrightarrow> y \<le> x"
  by (auto simp: less_eq_double_def deq_def)

lemma double_le_nan: "x \<le> (y :: double) \<Longrightarrow> \<not> isnan x \<and> \<not> isnan y"
  "x < (y :: double) \<Longrightarrow> \<not> isnan x \<and> \<not> isnan y"
  by (auto simp: less_eq_double_def less_double_def)

lemmas double_order = double_le_trans double_less_trans double_le_less_trans
  double_less_le_trans double_less_le

lemma nan_Fin [simp]: "isnan NaN" "\<not> isnan (Fin q)" "\<not> isnan PInf" "\<not> isnan NInf" "\<not> isnan NZero"
  by (simp_all add: isnan_def)

lemma rank_simps [simp]: "rank NaN = 0" "rank (Fin q) = 0" "rank PInf = 1" "rank NInf = - 1" "rank NZero = 0"
  by (simp_all add: rank_def)

lemma dval_simps [simp]: "dval NaN = 0" "dval (Fin q) = q" "dval PInf = 0" "dval NInf = 0" "dval NZero = 0"
  by (simp_all add: dval_def)

lemma Fin_le [simp]: "Fin a \<le> Fin b \<longleftrightarrow> a \<le> b" "Fin a < Fin b \<longleftrightarrow> a < b" "deq (Fin a) (Fin b) \<longleftrightarrow> a = b"
  by (simp_all add: less_eq_double_def less_double_def deq_def)

lemma dmax_cases: "dmax a b = a \<or> dmax a b = b"
  by (simp add: dmax_def)

lemma dmin_cases: "dmin a b = a \<or> dmin a b = b"
  by (simp add: dmin_def)

lemma dmax_nan [simp]: "\<not> isnan a \<Longrightarrow> \<not> isnan b \<Longrightarrow> \<not> isnan (dmax a b)"
  by (simp add: dmax_def)

lemma dmin_nan [simp]: "\<not> isnan a \<Longrightarrow> \<not> isnan b \<Longrightarrow> \<not> isnan (dmin a b)"
  by (simp add: dmin_def)

lemma dmax_ge:
  assumes "\<not> isnan a" "\<not> isnan b"
  shows "a \<le> dmax a b" "b \<le> dmax a b"
  using assms by (auto simp: dmax_def double_less_le double_le_not_less)

lemma dmin_le:
  assumes "\<not> isnan a" "\<not> isnan b"
  shows "dmin a b \<le> a" "dmin a b \<le> b"
  using assms by (auto simp: dmin_def double_less_le double_le_not_less)

text \<open>The running maximum and minimum of a loop.\<close>

lemma fold_dmax_ge:
  assumes "\<not> isnan a" "\<forall>x \<in> set xs. \<not> isnan x"
  shows "a \<le> foldl dmax a xs \<and> (\<forall>x \<in> set xs. x \<le> foldl dmax a xs) \<and> \<not> isnan (foldl dmax a xs)"
  using assms
proof (induction xs arbitrary: a)
  case (Cons x xs)
  then show ?case
    using dmax_ge [of a x] Cons.IH [of "dmax a x"] by (auto intro: double_le_trans)
qed simp

lemma fold_dmin_le:
  assumes "\<not> isnan a" "\<forall>x \<in> set xs. \<not> isnan x"
  shows "foldl dmin a xs \<le> a \<and> (\<forall>x \<in> set xs. foldl dmin a xs \<le> x) \<and> \<not> isnan (foldl dmin a xs)"
  using assms
proof (induction xs arbitrary: a)
  case (Cons x xs)
  then show ?case
    using dmin_le [of a x] Cons.IH [of "dmin a x"]
    by (simp, metis double_le_trans dmin_nan)
qed simp

lemma fold_dmax_mem: "foldl dmax a xs \<in> insert a (set xs)"
  by (induction xs arbitrary: a) (auto, metis dmax_cases)

lemma fold_dmin_mem: "foldl dmin a xs \<in> insert a (set xs)"
  by (induction xs arbitrary: a) (auto, metis dmin_cases)

section \<open>Rounded results\<close>

lemma to_double_not_nan [simp]: "\<not> isnan (to_double q)"
  by (simp add: to_double_def Let_def)

lemma to_double_0 [simp]: "to_double 0 = Fin 0"
  by (simp add: to_double_def)

text \<open>Rounding is monotone, over the overflow thresholds as well.\<close>

lemma round_rat_neg: "q < 0 \<Longrightarrow> round_rat q \<le> 0"
  using round_rat_mono [of q 0] by simp

lemma to_double_alt:
  "to_double q = (let r = round_rat q
     in if r = 0 then (if q < 0 then NZero else Fin 0)
        else if \<bar>r\<bar> < pow2 1024 then Fin r
        else if q < 0 then NInf else PInf)"
  by (simp add: to_double_def Let_def ilog2_less_abs)

lemma to_double_mono:
  assumes "q \<le> r"
  shows "to_double q \<le> to_double r"
proof -
  note m = round_rat_mono [OF assms]
  consider (nonneg) "0 \<le> q" | (mixed) "q < 0" "0 \<le> r" | (neg) "r < 0" using assms by linarith
  then show ?thesis
  proof cases
    case nonneg
    then have "0 \<le> round_rat q" "0 \<le> round_rat r" using assms by (simp_all add: round_rat_nonneg)
    with nonneg assms m show ?thesis
      by (auto simp: to_double_alt Let_def less_eq_double_def)
  next
    case mixed
    then have "round_rat q \<le> 0" "0 \<le> round_rat r" by (simp_all add: round_rat_nonneg round_rat_neg)
    with mixed assms m show ?thesis
      by (auto simp: to_double_alt Let_def less_eq_double_def)
  next
    case neg
    then have "round_rat q \<le> 0" "round_rat r \<le> 0" using assms by (simp_all add: round_rat_neg)
    with neg assms m show ?thesis
      by (auto simp: to_double_alt Let_def less_eq_double_def)
  qed
qed

lemma to_double_exact:
  assumes "lsb (of_int m * pow2 j) \<le> j" "m \<noteq> 0" "\<bar>of_int m * pow2 j\<bar> < pow2 1024"
  shows "to_double (of_int m * pow2 j) = Fin (of_int m * pow2 j)"
proof -
  let ?x = "of_int m * pow2 j :: rat"
  have "?x \<noteq> 0" using assms(2) by simp
  moreover from this assms(3) have "ilog2 \<bar>?x\<bar> < 1024" using ilog2_less_abs [of ?x] by blast
  ultimately show ?thesis
    by (simp only: to_double_def round_rat_exact [OF assms(1)] Let_def if_False if_True)
qed

text \<open>Every integer of at most 53 bits is a double.\<close>

lemma to_double_of_int:
  assumes "\<bar>i\<bar> \<le> 9007199254740992"
  shows "to_double (of_int i) = Fin (of_int i)"
proof (cases "i = 0")
  case False
  have p: "pow2 54 = of_int 18014398509481984" by (simp add: pow2_def)
  have "\<bar>of_int i :: rat\<bar> < pow2 54" unfolding p of_int_abs [symmetric] of_int_less_iff using assms by simp
  moreover from this have "\<bar>of_int i :: rat\<bar> < pow2 1024" using pow2_mono [of 54 1024] by linarith
  moreover have "lsb (of_int i) \<le> 0" if "\<bar>i\<bar> < 9007199254740992"
  proof -
    have p53: "pow2 53 = of_int 9007199254740992" by (simp add: pow2_def)
    have "\<bar>of_int i :: rat\<bar> < pow2 53" unfolding p53 of_int_abs [symmetric] of_int_less_iff using that .
    then have "ilog2 \<bar>of_int i\<bar> < 53" using False by (simp add: ilog2_less_abs del: of_int_abs)
    then show ?thesis by (simp add: lsb_def)
  qed
  moreover have "lsb (of_int 4503599627370496 * pow2 1) \<le> 1"
  proof -
    have "of_int 4503599627370496 * pow2 1 = pow2 53" by (simp add: pow2_def)
    moreover have "ilog2 (pow2 53) = 53" by (rule ilog2_eqI) (simp_all add: pow2_less)
    ultimately show ?thesis by (simp add: lsb_def)
  qed
  ultimately show ?thesis
    using to_double_exact [of i 0] to_double_exact [of 4503599627370496 1]
      to_double_exact [of "- 4503599627370496" 1] assms False
    by (cases "\<bar>i\<bar> < 9007199254740992"; cases "i = - 9007199254740992") (auto simp: pow2_def abs_if split: if_splits)
qed simp

end
