(* ===== verification/MathUtils.thy ===== *)
theory MathUtils
  imports Doubles
begin

text \<open>
  \<^verbatim>\<open>common/utils/mathutils.h\<close>, \<^verbatim>\<open>common/utils/mathutils.cpp\<close> and
  \<^verbatim>\<open>common/utils/financeutils.h\<close>: the tolerant comparison of doubles, percentages,
  decimal rounding and printing, the running mean, and the cost, volume, price and fee
  formulas. The lemmas give the symmetry of the tolerant comparison, its agreement with the
  order on separated values, and the error of the printed decimals.
\<close>

section \<open>Tolerant comparison\<close>

definition epsilon :: double where
  "epsilon = lit (1 / 4503599627370496)"

definition double_equal :: "double \<Rightarrow> double \<Rightarrow> bool" where
  "double_equal a b =
     (if isnan a \<or> isnan b then False
      else let diff = abs (a - b) in
        if diff \<le> of_int_d 4 * epsilon then True
        else let a' = abs a; b' = abs b; largest = (if a' < b' then b' else a')
             in diff \<le> largest * epsilon)"

definition double_less_than :: "double \<Rightarrow> double \<Rightarrow> bool" where
  "double_less_than a b = (\<not> double_equal a b \<and> a < b)"

definition double_greater_than :: "double \<Rightarrow> double \<Rightarrow> bool" where
  "double_greater_than a b = (\<not> double_equal a b \<and> b < a)"

section \<open>Percentages, rounding, printing\<close>

text \<open>The templates are instantiated at \<^verbatim>\<open>double\<close> and at \<^verbatim>\<open>int\<close>.\<close>

definition calculate_percentage_diff :: "double \<Rightarrow> double \<Rightarrow> double" where
  "calculate_percentage_diff a b = (b - a) * lit 100 / a"

definition calculate_percentage_proportion :: "double \<Rightarrow> double \<Rightarrow> double \<Rightarrow> double" where
  "calculate_percentage_proportion a b t = (t - a) * lit 100 / (b - a)"

definition calculate_percentage_proportion_int :: "int \<Rightarrow> int \<Rightarrow> int \<Rightarrow> double" where
  "calculate_percentage_proportion_int a b t = of_int_d (t - a) * lit 100 / of_int_d (b - a)"

text \<open>\<^verbatim>\<open>std::round\<close>: to the nearest integer, halves away from zero, the sign of zero kept.\<close>

definition round_half_away :: "rat \<Rightarrow> int" where
  "round_half_away q = (if q < 0 then - \<lfloor>- q + 1 / 2\<rfloor> else \<lfloor>q + 1 / 2\<rfloor>)"

definition std_round :: "double \<Rightarrow> double" where
  "std_round x = (case x of Fin q \<Rightarrow>
       (let n = round_half_away q in
        if n = 0 then (if q < 0 then NZero else Fin 0) else to_double (of_int n))
     | _ \<Rightarrow> x)"

definition pow10_d :: "int \<Rightarrow> double" where
  "pow10_d dp = to_double (if 0 \<le> dp then 10 ^ nat dp else 1 / 10 ^ nat (- dp))"

definition round_dp :: "double \<Rightarrow> int \<Rightarrow> double" where
  "round_dp value dp = (let shift = pow10_d dp; rounded = std_round (value * shift) in rounded / shift)"

text \<open>
  Printing in fixed notation, as \<^verbatim>\<open>std::fixed << std::setprecision(p)\<close> and, with six
  digits, \<^verbatim>\<open>std::to_string(double)\<close> do: the exact value rounded to \<open>p\<close> decimals.
\<close>

definition pad_left :: "nat \<Rightarrow> string \<Rightarrow> string" where
  "pad_left n s = replicate (n - length s) (CHR ''0'') @ s"

definition fixed_magnitude :: "nat \<Rightarrow> rat \<Rightarrow> string" where
  "fixed_magnitude p q =
     (let n = nat (rne (\<bar>q\<bar> * 10 ^ p)); whole = digits_of (n div 10 ^ p)
      in if p = 0 then whole else whole @ CHR ''.'' # pad_left p (digits_of (n mod 10 ^ p)))"

definition to_string_fixed :: "double \<Rightarrow> nat \<Rightarrow> string" where
  "to_string_fixed x p = (case x of NaN \<Rightarrow> ''nan'' | PInf \<Rightarrow> ''inf'' | NInf \<Rightarrow> ''-inf''
     | _ \<Rightarrow> (if signbit x then [CHR ''-''] else []) @ fixed_magnitude p (dval x))"

definition show_double :: "double \<Rightarrow> string" where
  "show_double x = to_string_fixed x 6"

record mean_calculator =
  mc_mean :: double
  mc_valueSum :: double
  mc_count :: int

definition add_value :: "mean_calculator \<Rightarrow> double \<Rightarrow> mean_calculator" where
  "add_value s value =
     (let s1 = s\<lparr>mc_valueSum := mc_valueSum s + value\<rparr>; s2 = s1\<lparr>mc_count := mc_count s1 + 1\<rparr>
      in s2\<lparr>mc_mean := mc_valueSum s2 / of_int_d (mc_count s2)\<rparr>)"

definition mean_reset :: "mean_calculator \<Rightarrow> mean_calculator" where
  "mean_reset s = s\<lparr>mc_mean := 0, mc_valueSum := 0, mc_count := 0\<rparr>"

section \<open>Finance\<close>

text \<open>The two-valued \<^verbatim>\<open>trade_action\<close> of \<^verbatim>\<open>trading/trading_constants.h\<close>.\<close>

datatype trade_action = SELL | BUY

definition calculate_cost :: "double \<Rightarrow> double \<Rightarrow> double" where
  "calculate_cost assetPrice volume = assetPrice * volume"

definition calculate_volume :: "double \<Rightarrow> double \<Rightarrow> double" where
  "calculate_volume assetPrice cost =
     (if deq cost 0 \<or> deq assetPrice 0 then 0 else cost / assetPrice)"

definition calculate_asset_price :: "double \<Rightarrow> double \<Rightarrow> double" where
  "calculate_asset_price cost volume =
     (if deq cost 0 \<or> deq volume 0 then 0 else cost / volume)"

definition calculate_fee :: "double \<Rightarrow> double \<Rightarrow> double" where
  "calculate_fee amount feePercentage = amount * feePercentage * lit (1 / 100)"

definition calculate_trade_gain :: "double \<Rightarrow> double \<Rightarrow> double \<Rightarrow> trade_action \<Rightarrow> double" where
  "calculate_trade_gain assetPrice tradeValue feePercentage action =
     (let a = (if action = SELL then 0 else 1) :: int
      in tradeValue * (of_int_d 1 - feePercentage * lit (1 / 100)) *
         (of_int_d a / assetPrice + assetPrice * of_int_d (1 - a)))"

section \<open>The tolerant comparison\<close>

lemma to_double_uminus: "q \<noteq> 0 \<Longrightarrow> to_double (- q) = - to_double q"
  by (auto simp: to_double_alt Let_def round_rat_uminus uminus_double_def)

lemma double_minus_swap_abs: "abs (a - b) = abs (b - (a :: double))"
proof -
  have "b - a = - (a - b) \<or> is_zero (a - b) \<and> is_zero (b - a) \<or> isnan (a - b) \<and> isnan (b - a)"
    using to_double_uminus [of "dval a - dval b"]
    by (cases a; cases b)
      (auto simp: minus_double_def plus_double_def uminus_double_def signbit_def is_zero_def isnan_def
        algebra_simps to_double_def split: if_splits)
  moreover have "abs (- x) = abs x" for x :: double
    by (cases x) (auto simp: abs_double_def uminus_double_def signbit_def)
  moreover have "is_zero x \<Longrightarrow> abs x = Fin 0" for x :: double
    by (auto simp: is_zero_def abs_double_def signbit_def uminus_double_def)
  moreover have "isnan x \<Longrightarrow> x = NaN" for x by (simp add: isnan_def)
  ultimately show ?thesis by metis
qed

lemma abs_double_not_NZero: "abs (x :: double) \<noteq> NZero"
  by (cases x) (simp_all add: abs_double_def uminus_double_def signbit_def)

lemma abs_double_nan [simp]: "isnan (abs (x :: double)) \<longleftrightarrow> isnan x"
  by (cases x) (simp_all add: abs_double_def uminus_double_def signbit_def)

lemma deq_eq: "deq u v \<Longrightarrow> u \<noteq> NZero \<Longrightarrow> v \<noteq> NZero \<Longrightarrow> u = v"
  by (cases u; cases v) (auto simp: deq_def)

lemma deq_abs_eq: "deq (abs x) (abs y) \<Longrightarrow> abs x = abs (y :: double)"
  by (rule deq_eq) (simp_all add: abs_double_not_NZero)

lemma larger_abs_sym:
  assumes "\<not> isnan a" "\<not> isnan b"
  shows "(if abs a < abs b then abs b else abs a) = (if abs b < abs a then abs a else abs (b :: double))"
proof (cases "abs a < abs b \<or> abs b < abs a")
  case True
  then show ?thesis using double_less_trans [of "abs a" "abs b" "abs a"] by auto
next
  case False
  then have "deq (abs a) (abs b)"
    using assms double_le_not_less [of "abs a" "abs b"] double_le_not_less [of "abs b" "abs a"]
    by (intro double_antisym) auto
  then have "abs a = abs b" by (rule deq_abs_eq)
  then show ?thesis by simp
qed

lemma double_equal_sym: "double_equal a b = double_equal b a"
  using larger_abs_sym [of a b]
  by (simp add: double_equal_def Let_def double_minus_swap_abs [of a b])

lemma deq_double_equal:
  assumes "is_finite a" "is_finite b" "deq a b"
  shows "double_equal a b"
proof -
  from assms(3) have "dval a - dval b = 0" by (simp add: deq_def)
  then have "abs (a - b) = Fin 0"
    using assms(1,2) by (cases a; cases b)
      (auto simp: is_finite_def minus_double_def plus_double_def uminus_double_def abs_double_def signbit_def)
  moreover have "Fin 0 \<le> of_int_d 4 * epsilon" by code_simp
  ultimately show ?thesis using assms(3) by (simp add: double_equal_def deq_def)
qed

lemma finite_not_nan: "is_finite a \<Longrightarrow> \<not> isnan a"
  by (auto simp: is_finite_def split: double.splits)

lemma double_less_than_imp: "double_less_than a b \<Longrightarrow> a < b"
  by (simp add: double_less_than_def)

lemma double_less_than_irrefl [simp]: "\<not> double_less_than a a"
  by (simp add: double_less_than_def)

lemma double_less_than_asym: "double_less_than a b \<Longrightarrow> \<not> double_less_than b a"
  using double_less_trans [of a b a] by (auto simp: double_less_than_def)

lemma double_equal_refl: "is_finite a \<Longrightarrow> double_equal a a"
  by (rule deq_double_equal) (simp_all add: deq_def finite_not_nan)

lemma double_greater_than_eq: "double_greater_than a b = double_less_than b a"
  by (simp add: double_greater_than_def double_less_than_def double_equal_sym)

lemma double_total:
  "is_finite a \<Longrightarrow> is_finite b \<Longrightarrow> double_equal a b \<or> a < b \<or> b < a"
  using deq_double_equal [of a b] double_antisym [of a b]
    double_le_not_less [of a b] double_le_not_less [of b a]
  by (auto simp: finite_not_nan)

text \<open>
  The tolerant comparison of \<^verbatim>\<open>mathutils.cpp\<close> is symmetric on all doubles, NaN,
  infinities and signed zeros included, and sorts two finite doubles into exactly one of less,
  equal and greater.
\<close>

lemma double_compare_trichotomy:
  "double_equal a b = double_equal b a \<and>
   (is_finite a \<and> is_finite b \<longrightarrow>
      of_bool (double_less_than a b) + of_bool (double_equal a b) + of_bool (double_greater_than a b)
        = (1 :: nat))"
  using double_total [of a b] double_less_trans [of a b a]
  by (auto simp: double_less_than_def double_greater_than_def double_equal_sym [of a b])

lemma double_compare_trichotomy_example:
  "is_finite (Fin 1) \<and> is_finite (Fin 2) \<and> double_less_than (Fin 1) (Fin 2) \<and>
   of_bool (double_less_than (Fin 1) (Fin 2)) + of_bool (double_equal (Fin 1) (Fin 2))
     + of_bool (double_greater_than (Fin 1) (Fin 2)) = (1 :: nat)"
proof -
  have f: "is_finite (Fin 1)" "is_finite (Fin 2)" by (simp_all add: is_finite_def)
  have "double_less_than (Fin 1) (Fin 2)" by code_simp
  with f double_compare_trichotomy [of "Fin 1" "Fin 2"] show ?thesis by blast
qed

text \<open>
  \<^verbatim>\<open>double_less_than\<close>, the comparator of the order book's \<^verbatim>\<open>std::set\<close>, is not a strict
  weak order: prices within the tolerance of a common neighbour are equivalent to it but not to
  each other.
\<close>

lemma double_less_than_not_weak_order:
  "\<exists>a b c. \<not> double_less_than a b \<and> \<not> double_less_than b a \<and>
     \<not> double_less_than b c \<and> \<not> double_less_than c b \<and> double_less_than a c"
proof -
  let ?a = "Fin 0" and ?b = "Fin (1 / 2251799813685248)" and ?c = "Fin (1 / 1125899906842624)"
  let ?c' = "Fin (3 / 2251799813685248)"
  have "\<not> double_less_than ?a ?c \<and> \<not> double_less_than ?c ?a" by code_simp
  moreover have "\<not> double_less_than ?c ?c' \<and> \<not> double_less_than ?c' ?c" by code_simp
  moreover have "double_less_than ?a ?c'" by code_simp
  ultimately show ?thesis by blast
qed

section \<open>Decimals\<close>

lemma fixed_magnitude_error:
  "\<bar>of_int (rne (\<bar>q\<bar> * 10 ^ p)) / 10 ^ p - \<bar>q\<bar>\<bar> \<le> 1 / (2 * 10 ^ p)"
proof -
  have "\<bar>of_int (rne (\<bar>q\<bar> * 10 ^ p)) - \<bar>q\<bar> * 10 ^ p\<bar> \<le> 1 / 2" by (rule rne_error)
  then have "\<bar>of_int (rne (\<bar>q\<bar> * 10 ^ p)) - \<bar>q\<bar> * 10 ^ p\<bar> / 10 ^ p \<le> 1 / 2 / 10 ^ p"
    by (rule divide_right_mono) simp
  moreover have "of_int (rne (\<bar>q\<bar> * 10 ^ p)) / 10 ^ p - \<bar>q\<bar> =
      (of_int (rne (\<bar>q\<bar> * 10 ^ p)) - \<bar>q\<bar> * 10 ^ p) / 10 ^ p" by (simp add: diff_divide_distrib)
  ultimately show ?thesis by simp
qed

text \<open>The mean after adding values to a reset calculator is the mean of the running sum.\<close>

lemma add_value_count: "mc_count (foldl add_value s vs) = mc_count s + int (length vs)"
  by (induction vs arbitrary: s) (auto simp: add_value_def Let_def)

lemma add_value_sum: "mc_valueSum (foldl add_value s vs) = foldl (+) (mc_valueSum s) vs"
  by (induction vs arbitrary: s) (auto simp: add_value_def Let_def)

lemma add_value_mean:
  "vs \<noteq> [] \<Longrightarrow> mc_mean (foldl add_value (mean_reset s) vs) = foldl (+) 0 vs / of_int_d (int (length vs))"
proof (cases vs rule: rev_cases)
  case (snoc ws v)
  then show ?thesis
    using add_value_count [of "mean_reset s" ws] add_value_sum [of "mean_reset s" ws]
    by (simp add: add_value_def Let_def mean_reset_def add.commute)
qed simp

end
