(* ===== verification/StringUtils.thy ===== *)
theory StringUtils
  imports MathUtils
begin

text \<open>
  \<^verbatim>\<open>common/utils/stringutils.cpp\<close> and \<^verbatim>\<open>common/csv\<close>: splitting, case
  conversion, the number parsers \<^verbatim>\<open>std::stod\<close> and \<^verbatim>\<open>std::stoll\<close> the readers use, and
  rows and documents of comma-separated values. The lemmas show that a row is read back as it
  was written, and that a printed number is read back to the printed precision.
\<close>

section \<open>Strings\<close>

definition split :: "string \<Rightarrow> char \<Rightarrow> string list" where
  "split source delimiter = filter (\<lambda>segment. segment \<noteq> []) (getline_segs delimiter (c_str source))"

text \<open>\<^verbatim>\<open>::toupper\<close> and \<^verbatim>\<open>::tolower\<close> of the C locale.\<close>

definition toupper :: "char \<Rightarrow> char" where
  "toupper c = (let n = of_char c :: nat in if 97 \<le> n \<and> n \<le> 122 then char_of (n - 32) else c)"

definition tolower :: "char \<Rightarrow> char" where
  "tolower c = (let n = of_char c :: nat in if 65 \<le> n \<and> n \<le> 90 then char_of (n + 32) else c)"

definition to_upper :: "string \<Rightarrow> string" where
  "to_upper source = map toupper source"

definition to_lower :: "string \<Rightarrow> string" where
  "to_lower source = map tolower source"

text \<open>\<^verbatim>\<open>source.find(what) != npos\<close>.\<close>

fun starts_with :: "string \<Rightarrow> string \<Rightarrow> bool" where
  "starts_with [] s = True"
| "starts_with (p # ps) [] = False"
| "starts_with (p # ps) (c # cs) = (p = c \<and> starts_with ps cs)"

fun contains_str :: "string \<Rightarrow> string \<Rightarrow> bool" where
  "contains_str [] what = starts_with what []"
| "contains_str (c # cs) what = (starts_with what (c # cs) \<or> contains_str cs what)"

section \<open>Number parsers\<close>

definition is_space :: "char \<Rightarrow> bool" where
  "is_space c \<longleftrightarrow> of_char c = (32 :: nat) \<or> 9 \<le> (of_char c :: nat) \<and> (of_char c :: nat) \<le> 13"

text \<open>An optional sign: whether it is a minus, and the rest.\<close>

definition read_sign :: "string \<Rightarrow> bool \<times> string" where
  "read_sign s = (case s of
       c # r \<Rightarrow> if c = CHR ''-'' then (True, r) else if c = CHR ''+'' then (False, r) else (False, s)
     | [] \<Rightarrow> (False, s))"

definition span_digits :: "string \<Rightarrow> string \<times> string" where
  "span_digits s = (takeWhile is_digit s, dropWhile is_digit s)"

text \<open>An exponent counts only when digits follow it.\<close>

definition read_exponent :: "string \<Rightarrow> int" where
  "read_exponent s = (case s of
       c # r \<Rightarrow>
         if tolower c = CHR ''e''
         then (let (neg, r') = read_sign r; ds = fst (span_digits r')
               in if ds = [] then 0 else if neg then - int (read_digits ds) else int (read_digits ds))
         else 0
     | [] \<Rightarrow> 0)"

text \<open>The digits before and after the point, and the exponent; no digits at all is no number.\<close>

definition read_decimal :: "string \<Rightarrow> rat option" where
  "read_decimal s =
     (let (whole, r) = span_digits s;
          (frac, r') = (case r of c # t \<Rightarrow> if c = CHR ''.'' then span_digits t else ([], r) | [] \<Rightarrow> ([], r))
      in if whole = [] \<and> frac = [] then None
         else let e = read_exponent r' in
           Some (of_nat (read_digits (whole @ frac)) / 10 ^ length frac
                 * (if 0 \<le> e then 10 ^ nat e else 1 / 10 ^ nat (- e))))"

text \<open>
  \<^verbatim>\<open>std::stod\<close>: leading space, a sign, then a decimal number, an infinity or a NaN; the
  rest of the string is ignored. A result that overflows, or loses bits to underflow, is out of
  range. Hexadecimal floats are not read: a \<open>0x\<close> prefix reads as the zero.
\<close>

definition stod :: "string \<Rightarrow> double res" where
  "stod str =
     (let s = dropWhile is_space (c_str str); (neg, t) = read_sign s; low = to_lower t
      in if starts_with ''inf'' low then Inr (if neg then NInf else PInf)
         else if starts_with ''nan'' low then Inr NaN
         else case read_decimal t of
           None \<Rightarrow> Inl (Invalid_argument ''stod'')
         | Some m \<Rightarrow>
             if m = 0 then Inr (if neg then NZero else Fin 0)
             else let r = to_double (if neg then - m else m)
               in if \<not> is_finite r \<or> \<bar>dval r\<bar> < pow2 (- 1022) \<and> \<bar>dval r\<bar> \<noteq> m
                  then Inl (Out_of_range ''stod'') else Inr r)"

definition stoll :: "string \<Rightarrow> int res" where
  "stoll str =
     (let (neg, t) = read_sign (dropWhile is_space (c_str str)); ds = fst (span_digits t)
      in if ds = [] then Inl (Invalid_argument ''stoll'')
         else let n = (if neg then - int (read_digits ds) else int (read_digits ds))
           in if - (2 ^ 63) \<le> n \<and> n < 2 ^ 63 then Inr n else Inl (Out_of_range ''stoll''))"

definition stoi :: "string \<Rightarrow> int res" where
  "stoi str = res_bind (stoll str) (\<lambda>n.
     if - (2 ^ 31) \<le> n \<and> n < 2 ^ 31 then Inr n else Inl (Out_of_range ''stoi''))"

definition numeric_string_less :: "string \<Rightarrow> string \<Rightarrow> bool res" where
  "numeric_string_less l r =
     res_bind (stod l) (\<lambda>numL. res_bind (stod r) (\<lambda>numR. Inr (numL < numR)))"

definition numeric_string_greater :: "string \<Rightarrow> string \<Rightarrow> bool res" where
  "numeric_string_greater l r =
     res_bind (stod l) (\<lambda>numL. res_bind (stod r) (\<lambda>numR. Inr (numR < numL)))"

section \<open>Comma-separated values\<close>

record csv_row =
  row_cells :: "string list"

record csv_document =
  doc_rows :: "csv_row list"

definition csv_get_cell :: "csv_row \<Rightarrow> int \<Rightarrow> string res" where
  "csv_get_cell row index = read_at ''csv_row::get_cell'' (row_cells row) index"

definition csv_row_size :: "csv_row \<Rightarrow> nat" where
  "csv_row_size row = length (row_cells row)"

text \<open>The first cell, then a comma and a cell for each that follows.\<close>

definition csv_to_string :: "csv_row \<Rightarrow> string" where
  "csv_to_string row = (case row_cells row of
       [] \<Rightarrow> []
     | c # cs \<Rightarrow> foldl (\<lambda>result cell. result @ '','' @ cell) c cs)"

text \<open>
  The read loop collects the cells; when it ends on a line that is empty or ends with a comma,
  the last \<^verbatim>\<open>getline\<close> has cleared \<^verbatim>\<open>cell\<close>, and the empty cell is added.
\<close>

definition row_fields :: "string \<Rightarrow> string list" where
  "row_fields l =
     (let cells = getline_segs (CHR '','') l
      in if l = [] \<or> last l = CHR '','' then cells @ [''''] else cells)"

definition parse_row :: "string \<Rightarrow> csv_row" where
  "parse_row line = \<lparr>row_cells = row_fields (c_str line)\<rparr>"

definition parse_csv :: "string \<Rightarrow> csv_document" where
  "parse_csv csvString = \<lparr>doc_rows = map parse_row (getline_segs (CHR 0x0A) (c_str csvString))\<rparr>"

definition csv_get_row :: "csv_document \<Rightarrow> int \<Rightarrow> csv_row res" where
  "csv_get_row doc index = read_at ''csv_document::get_row'' (doc_rows doc) index"

definition row_count :: "csv_document \<Rightarrow> nat" where
  "row_count doc = length (doc_rows doc)"

text \<open>
  Reading a file of rows with a stateful row selector: each line is parsed and converted, a
  failed conversion ends the read with its exception, and the selector says which items stay.
\<close>

fun read_csv_lines :: "(csv_row \<Rightarrow> 'a res) \<Rightarrow> ('s \<Rightarrow> 'a \<Rightarrow> bool \<times> 's) \<Rightarrow> 's \<Rightarrow> string list \<Rightarrow> 'a list res" where
  "read_csv_lines from_row sel st [] = Inr []"
| "read_csv_lines from_row sel st (line # ls) =
     res_bind (from_row (parse_row line)) (\<lambda>item.
       let (keep, st') = sel st item
       in res_bind (read_csv_lines from_row sel st' ls) (\<lambda>items.
            Inr (if keep then item # items else items)))"

text \<open>The text of a file written from headers and items, one line each.\<close>

definition write_csv_lines :: "('a \<Rightarrow> csv_row) \<Rightarrow> 'a list \<Rightarrow> string list \<Rightarrow> string" where
  "write_csv_lines to_row data headers =
     (if headers \<noteq> [] then csv_to_string \<lparr>row_cells = headers\<rparr> @ [CHR 0x0A] else []) @
     concat (map (\<lambda>item. csv_to_string (to_row item) @ [CHR 0x0A]) data)"

section \<open>Correctness of rows\<close>

lemma csv_to_string_Cons:
  "csv_to_string \<lparr>row_cells = c # cs\<rparr> = c @ concat (map (\<lambda>x. CHR '','' # x) cs)"
proof -
  have "foldl (\<lambda>result cell. result @ '','' @ cell) a cs = a @ concat (map (\<lambda>x. CHR '','' # x) cs)" for a
    by (induction cs arbitrary: a) auto
  then show ?thesis by (simp add: csv_to_string_def)
qed

lemma csv_to_string_step:
  "csv_to_string \<lparr>row_cells = c # d # cs\<rparr> = c @ CHR '','' # csv_to_string \<lparr>row_cells = d # cs\<rparr>"
  by (simp add: csv_to_string_Cons)

lemma row_fields_last: "CHR '','' \<notin> set c \<Longrightarrow> row_fields c = [c]"
  by (cases "c = []") (auto simp: row_fields_def Let_def getline_segs_last dest: last_in_set)

lemma row_fields_step: "CHR '','' \<notin> set c \<Longrightarrow> row_fields (c @ CHR '','' # r) = c # row_fields r"
  by (cases "r = []") (simp_all add: row_fields_def Let_def getline_segs_step)

lemma row_fields_csv:
  "cells \<noteq> [] \<Longrightarrow> \<forall>c \<in> set cells. CHR '','' \<notin> set c \<Longrightarrow>
     row_fields (csv_to_string \<lparr>row_cells = cells\<rparr>) = cells"
proof (induction cells rule: induct_list012)
  case (2 c)
  then show ?case by (simp add: csv_to_string_Cons row_fields_last)
next
  case (3 c d cs)
  then show ?case by (simp only: csv_to_string_step) (simp add: row_fields_step)
qed simp

lemma csv_to_string_chars:
  "x \<in> set (csv_to_string \<lparr>row_cells = cells\<rparr>) \<Longrightarrow> x = CHR '','' \<or> (\<exists>c \<in> set cells. x \<in> set c)"
proof (cases cells)
  case Nil
  then show "x \<in> set (csv_to_string \<lparr>row_cells = cells\<rparr>) \<Longrightarrow> ?thesis" by (simp add: csv_to_string_def)
next
  case (Cons c cs)
  then show "x \<in> set (csv_to_string \<lparr>row_cells = cells\<rparr>) \<Longrightarrow> ?thesis" by (auto simp: csv_to_string_Cons split: if_splits)
qed

text \<open>
  A row of at least one cell, none with a comma or a zero character, is read back as it was
  written, empty cells and a trailing empty cell included.
\<close>

lemma csv_row_roundtrip:
  assumes "cells \<noteq> []" and "\<forall>c \<in> set cells. CHR '','' \<notin> set c \<and> CHR 0x00 \<notin> set c"
  shows "parse_row (csv_to_string \<lparr>row_cells = cells\<rparr>) = \<lparr>row_cells = cells\<rparr>"
proof -
  have "CHR 0x00 \<notin> set (csv_to_string \<lparr>row_cells = cells\<rparr>)"
    using assms(2) csv_to_string_chars [of "CHR 0x00" cells] by auto
  moreover have "\<forall>c \<in> set cells. CHR '','' \<notin> set c" using assms(2) by blast
  ultimately show ?thesis
    using row_fields_csv [OF assms(1)] by (simp add: parse_row_def c_str_id)
qed

lemma csv_row_roundtrip_example:
  "csv_to_string \<lparr>row_cells = [''a'', '''', ''b c'', '''']\<rparr> = ''a,,b c,'' \<and>
   parse_row ''a,,b c,'' = \<lparr>row_cells = [''a'', '''', ''b c'', '''']\<rparr>"
proof -
  have w: "csv_to_string \<lparr>row_cells = [''a'', '''', ''b c'', '''']\<rparr> = ''a,,b c,''"
    by (simp add: csv_to_string_def)
  show ?thesis using csv_row_roundtrip [of "[''a'', '''', ''b c'', '''']"] by (simp add: w)
qed

section \<open>Reading printed numbers\<close>

lemma takeWhile_digits: "\<forall>c \<in> set ds. is_digit c \<Longrightarrow> r = [] \<or> \<not> is_digit (hd r) \<Longrightarrow>
  span_digits (ds @ r) = (ds, r)"
  by (cases r) (auto simp: span_digits_def takeWhile_append dropWhile_append)

lemma dot_not_digit [simp]: "\<not> is_digit (CHR ''.'')" "\<not> is_digit (CHR '' '')" "\<not> is_digit (CHR ''e'')"
  by (simp_all add: is_digit_def)

lemma read_digits_append: "read_digits (s @ t) = read_digits s * 10 ^ length t + read_digits t"
proof -
  let ?f = "\<lambda>a c. 10 * a + digit_value c"
  have shift: "(10 * a + d) * m + x = a * (10 * m) + (d * m + x)" for a d m x :: nat
    by (simp add: algebra_simps)
  have "foldl ?f a t = a * 10 ^ length t + foldl ?f 0 t" for a
  proof (induction t arbitrary: a)
    case (Cons c t)
    have "foldl ?f a (c # t) = foldl ?f (10 * a + digit_value c) t" by simp
    also have "\<dots> = (10 * a + digit_value c) * 10 ^ length t + foldl ?f 0 t" by (rule Cons)
    also have "\<dots> = a * 10 ^ length (c # t) + (digit_value c * 10 ^ length t + foldl ?f 0 t)"
      by (simp only: length_Cons power_Suc shift)
    also have "digit_value c * 10 ^ length t + foldl ?f 0 t = foldl ?f (digit_value c) t"
      by (rule Cons [symmetric])
    also have "\<dots> = foldl ?f 0 (c # t)" by simp
    finally show ?case .
  qed simp
  then show ?thesis unfolding read_digits_def foldl_append by this
qed

lemma digit_value_0 [simp]: "digit_value (CHR ''0'') = 0"
  by (simp add: digit_value_def)

lemma read_digits_zeros [simp]: "read_digits (replicate n (CHR ''0'') @ s) = read_digits s"
proof -
  have "read_digits (replicate n (CHR ''0'')) = 0"
    by (induction n) (simp_all add: read_digits_def)
  then show ?thesis by (simp add: read_digits_append)
qed

lemma length_digits_of: "n < 10 ^ k \<Longrightarrow> 0 < k \<Longrightarrow> length (digits_of n) \<le> k"
proof (induction n arbitrary: k rule: digits_of.induct)
  case (1 n)
  show ?case
  proof (cases "n < 10")
    case True
    then show ?thesis using 1(3) by (subst digits_of.simps) simp
  next
    case False
    with 1(2,3) obtain j where k: "k = Suc j" "0 < j" by (cases k; cases "k = 1") auto
    with 1(2) have "n div 10 < 10 ^ j" by (simp add: less_mult_imp_div_less mult.commute)
    with False k show ?thesis using "1.IH" [of j] by (subst digits_of.simps) simp
  qed
qed

lemma pad_left_digits:
  assumes "n < 10 ^ p" "0 < p"
  shows "length (pad_left p (digits_of n)) = p" "read_digits (pad_left p (digits_of n)) = n"
    "\<forall>c \<in> set (pad_left p (digits_of n)). is_digit c"
  using length_digits_of [OF assms]
  by (auto simp: pad_left_def dest: digits_of_is_digit) (simp add: is_digit_def)

lemma fixed_magnitude_read:
  "read_decimal (fixed_magnitude p q) = Some (of_int (rne (\<bar>q\<bar> * 10 ^ p)) / 10 ^ p)"
proof -
  define n where "n = nat (rne (\<bar>q\<bar> * 10 ^ p))"
  have n: "of_nat n = (of_int (rne (\<bar>q\<bar> * 10 ^ p)) :: rat)"
    using rne_bounds(1) [of 0 "\<bar>q\<bar> * 10 ^ p"] by (simp add: n_def of_nat_nat)
  have dg: "\<forall>c \<in> set (digits_of m). is_digit c" for m using digits_of_is_digit by blast
  show ?thesis
  proof (cases "p = 0")
    case True
    with n show ?thesis
      using takeWhile_digits [OF dg [of n], of "[]"]
      by (simp add: fixed_magnitude_def read_decimal_def read_exponent_def Let_def n_def)
  next
    case False
    let ?w = "digits_of (n div 10 ^ p)" and ?f = "pad_left p (digits_of (n mod 10 ^ p))"
    have f: "length ?f = p" "read_digits ?f = n mod 10 ^ p" "\<forall>c \<in> set ?f. is_digit c"
      using pad_left_digits [of "n mod 10 ^ p" p] False by simp_all
    have "span_digits (?w @ CHR ''.'' # ?f) = (?w, CHR ''.'' # ?f)"
      by (rule takeWhile_digits) (simp_all add: dg)
    moreover have "span_digits ?f = (?f, [])"
      using takeWhile_digits [OF f(3), of "[]"] by simp
    ultimately have "read_decimal (?w @ CHR ''.'' # ?f) =
        Some (of_nat (n div 10 ^ p * 10 ^ p + n mod 10 ^ p) / 10 ^ p)"
      using f by (simp add: read_decimal_def read_exponent_def read_digits_append)
    moreover have "fixed_magnitude p q = ?w @ CHR ''.'' # ?f"
      using False by (simp add: fixed_magnitude_def n_def Let_def)
    ultimately show ?thesis by (simp only: div_mult_mod_eq n)
  qed
qed

lemma fixed_magnitude_chars:
  "x \<in> set (fixed_magnitude p q) \<Longrightarrow> is_digit x \<or> x = CHR ''.''"
proof -
  have z: "is_digit (CHR ''0'')" by (simp add: is_digit_def)
  show "x \<in> set (fixed_magnitude p q) \<Longrightarrow> is_digit x \<or> x = CHR ''.''"
    using digits_of_is_digit z by (auto simp: fixed_magnitude_def pad_left_def Let_def split: if_splits)
qed

lemma fixed_magnitude_hd:
  "\<exists>c r. fixed_magnitude p q = c # r \<and> is_digit c"
proof -
  obtain c r where d: "digits_of (nat (rne (\<bar>q\<bar> * 10 ^ p)) div 10 ^ p) = c # r"
    by (meson digits_of_nonempty neq_Nil_conv)
  then have "is_digit c" by (metis digits_of_is_digit list.set_intros(1))
  with d show ?thesis by (auto simp: fixed_magnitude_def Let_def)
qed

definition nearest_decimal :: "rat \<Rightarrow> nat \<Rightarrow> rat" where
  "nearest_decimal q p = of_int (rne (\<bar>q\<bar> * 10 ^ p)) / 10 ^ p"

lemma nearest_decimal_nonneg: "0 \<le> nearest_decimal q p"
  using rne_bounds(1) [of 0 "\<bar>q\<bar> * 10 ^ p"] by (simp add: nearest_decimal_def)

lemma nearest_decimal_ge: "nearest_decimal q p \<noteq> 0 \<Longrightarrow> 1 / 10 ^ p \<le> nearest_decimal q p"
proof -
  assume nz: "nearest_decimal q p \<noteq> 0"
  have "0 \<le> rne (\<bar>q\<bar> * 10 ^ p)" using rne_bounds(1) [of 0 "\<bar>q\<bar> * 10 ^ p"] by simp
  with nz have "1 \<le> rne (\<bar>q\<bar> * 10 ^ p)" by (auto simp: nearest_decimal_def)
  then have "(1::rat) \<le> of_int (rne (\<bar>q\<bar> * 10 ^ p))" by simp
  then show ?thesis unfolding nearest_decimal_def by (rule divide_right_mono) simp
qed

lemma pow2_neg_small: "n \<le> 300 \<Longrightarrow> pow2 (- 1022) \<le> 1 / 10 ^ n"
proof -
  assume "n \<le> 300"
  have "(10::rat) ^ n \<le> 10 ^ 300" using \<open>n \<le> 300\<close> by (intro power_increasing) simp_all
  also have "(10::rat) ^ 300 \<le> 2 ^ 1022" by simp
  finally show ?thesis by (simp add: pow2_def field_simps)
qed

lemma to_double_normal:
  assumes "0 < m" "m \<le> 3 * pow2 1022" "pow2 (- 1022) \<le> m"
  shows "is_finite (to_double m)" "is_finite (to_double (- m))"
    "pow2 (- 1022) \<le> \<bar>dval (to_double m)\<bar>" "pow2 (- 1022) \<le> \<bar>dval (to_double (- m))\<bar>"
proof -
  have lo: "round_rat (pow2 (- 1022)) = pow2 (- 1022)"
  proof -
    have "ilog2 (pow2 (- 1022)) = - 1022" by (rule ilog2_eqI) (simp_all add: pow2_less)
    then show ?thesis using round_rat_exact [of 1 "- 1022"] by (simp add: lsb_def)
  qed
  have hi: "round_rat (3 * pow2 1022) = 3 * pow2 1022"
  proof -
    have "ilog2 (3 * pow2 1022) = 1023"
      by (rule ilog2_eqI) (simp_all add: pow2_Suc [of 1022, simplified] pow2_Suc [of 1023, simplified])
    then show ?thesis using round_rat_exact [of 3 1022] by (simp add: lsb_def)
  qed
  have "pow2 (- 1022) \<le> round_rat m" using round_rat_mono [OF assms(3)] by (simp add: lo)
  moreover have "round_rat m \<le> 3 * pow2 1022" using round_rat_mono [OF assms(2)] by (simp add: hi)
  moreover have "3 * pow2 1022 < pow2 1024"
    by (simp add: pow2_Suc [of 1023, simplified] pow2_Suc [of 1022, simplified])
  ultimately have r: "0 < round_rat m" "pow2 (- 1022) \<le> round_rat m" "round_rat m < pow2 1024"
    using pow2_pos [of "- 1022"] by linarith+
  then have "to_double m = Fin (round_rat m)" "to_double (- m) = Fin (- round_rat m)"
    by (simp_all add: to_double_alt Let_def round_rat_uminus)
  with r show "is_finite (to_double m)" "is_finite (to_double (- m))"
    "pow2 (- 1022) \<le> \<bar>dval (to_double m)\<bar>" "pow2 (- 1022) \<le> \<bar>dval (to_double (- m))\<bar>"
    by (simp_all add: is_finite_def)
qed

lemma stod_signed_decimal:
  assumes "read_decimal s = Some m" "s = c # r" "is_digit c" "CHR 0x00 \<notin> set s"
  shows "stod ((if neg then [CHR ''-''] else []) @ s) =
    (if m = 0 then Inr (if neg then NZero else Fin 0)
     else let r = to_double (if neg then - m else m)
       in if \<not> is_finite r \<or> \<bar>dval r\<bar> < pow2 (- 1022) \<and> \<bar>dval r\<bar> \<noteq> m
          then Inl (Out_of_range ''stod'') else Inr r)"
proof -
  have c: "48 \<le> (of_char c :: nat)" "(of_char c :: nat) \<le> 57" using assms(3) by (auto simp: is_digit_def)
  then have nsp: "\<not> is_space c" "c \<noteq> CHR ''-''" "c \<noteq> CHR ''+''" and "tolower c = c"
    by (auto simp: is_space_def tolower_def)
  moreover from c have "c \<noteq> CHR ''i''" "c \<noteq> CHR ''n''" by auto
  moreover have "\<not> is_space (CHR ''-'')" by (simp add: is_space_def)
  moreover have "CHR 0x00 \<notin> set ((if neg then [CHR ''-''] else []) @ s)" using assms(4) by simp
  ultimately show ?thesis using assms(1,2)
    by (simp add: stod_def c_str_id read_sign_def to_lower_def Let_def)
qed

text \<open>
  C34: a number printed with \<open>p\<close> decimals reads back as the double nearest to the printed
  decimal, which is within half a unit of the last printed digit of the number.
\<close>

theorem stod_to_string:
  assumes "is_finite x" and "\<bar>dval x\<bar> \<le> pow2 1023" and "p \<le> 300"
  shows "stod (to_string_fixed x p) =
           Inr (if nearest_decimal (dval x) p = 0 then (if signbit x then NZero else Fin 0)
                else to_double (if signbit x then - nearest_decimal (dval x) p else nearest_decimal (dval x) p))
         \<and> \<bar>nearest_decimal (dval x) p - \<bar>dval x\<bar>\<bar> \<le> 1 / (2 * 10 ^ p)"
proof -
  let ?m = "nearest_decimal (dval x) p"
  have err: "\<bar>?m - \<bar>dval x\<bar>\<bar> \<le> 1 / (2 * 10 ^ p)"
    unfolding nearest_decimal_def by (rule fixed_magnitude_error)
  have "(1::rat) \<le> 2 * 10 ^ p" using one_le_power [of "10::rat" p] by linarith
  then have "(1::rat) / (2 * 10 ^ p) \<le> 1" by simp
  moreover have "1 \<le> pow2 1022" by (simp add: pow2_def)
  moreover have "pow2 1023 = 2 * pow2 1022" using pow2_Suc [of 1022] by simp
  ultimately have hi: "?m \<le> 3 * pow2 1022" using err assms(2) by linarith
  obtain c r where s: "fixed_magnitude p (dval x) = c # r" "is_digit c"
    using fixed_magnitude_hd by blast
  have nul: "CHR 0x00 \<notin> set (fixed_magnitude p (dval x))"
    using fixed_magnitude_chars [of "CHR 0x00" p "dval x"] by (auto simp: is_digit_def)
  have rd: "read_decimal (fixed_magnitude p (dval x)) = Some ?m"
    unfolding nearest_decimal_def by (rule fixed_magnitude_read)
  have "to_string_fixed x p = (if signbit x then [CHR ''-''] else []) @ fixed_magnitude p (dval x)"
    using assms(1) by (auto simp: to_string_fixed_def is_finite_def split: double.splits)
  then have st: "stod (to_string_fixed x p) =
     (if ?m = 0 then Inr (if signbit x then NZero else Fin 0)
      else let r = to_double (if signbit x then - ?m else ?m)
       in if \<not> is_finite r \<or> \<bar>dval r\<bar> < pow2 (- 1022) \<and> \<bar>dval r\<bar> \<noteq> ?m
          then Inl (Out_of_range ''stod'') else Inr r)"
    by (simp only: stod_signed_decimal [OF rd s nul])
  show ?thesis
  proof (cases "?m = 0")
    case True
    with st err show ?thesis by simp
  next
    case False
    then have "0 < ?m" using nearest_decimal_nonneg [of "dval x" p] by linarith
    moreover have "pow2 (- 1022) \<le> ?m"
      using nearest_decimal_ge [OF False] pow2_neg_small [OF assms(3)] by linarith
    ultimately show ?thesis
      using st err False to_double_normal [OF _ hi] by (simp add: Let_def not_less)
  qed
qed

theorem stod_to_string_witness:
  "to_string_fixed (Fin (-(11/8))) 2 = ''-1.38'' \<and> stod ''-1.38'' = Inr (to_double (- (69/50)))"
proof -
  let ?x = "Fin (-(11/8))"
  have s: "to_string_fixed ?x 2 = ''-1.38''" by code_simp
  have d: "nearest_decimal (dval ?x) 2 = 69 / 50" by code_simp
  have "is_finite ?x" "\<bar>dval ?x\<bar> \<le> pow2 1023" "(2::nat) \<le> 300" and sb: "signbit ?x"
    by (simp_all add: is_finite_def pow2_def signbit_def)
  from stod_to_string [OF this(1,2,3)] have "stod (to_string_fixed ?x 2) =
      Inr (if nearest_decimal (dval ?x) 2 = 0 then (if signbit ?x then NZero else Fin 0)
           else to_double (if signbit ?x then - nearest_decimal (dval ?x) 2 else nearest_decimal (dval ?x) 2))"
    by blast
  then have "stod ''-1.38'' = Inr (to_double (- (69/50)))" unfolding s d using sb by simp
  with s show ?thesis by simp
qed

end
