(* ===== verification/Trading.thy ===== *)
theory Trading
  imports StringUtils
begin

text \<open>
  The data of \<^verbatim>\<open>src/trading\<close>: actions, order types and states
  (\<^verbatim>\<open>trading_constants.h\<close>), tradable pairs, order requests and the order constructors,
  order descriptions and confirmations, trade updates, candles, order book states and fee
  schedules, each with its operations, and the lemmas on pair names, order rows and fee tiers.
\<close>

section \<open>Constants\<close>

datatype order_status = OPEN | CLOSED | PARTIALLY_FILLED | CANCELLED

datatype order_type = MARKET | LIMIT | STOP_LOSS | TRAILING_STOP_LOSS | TAKE_PROFIT

fun order_type_to_string :: "order_type \<Rightarrow> string" where
  "order_type_to_string MARKET = ''MARKET''"
| "order_type_to_string LIMIT = ''LIMIT''"
| "order_type_to_string STOP_LOSS = ''STOP_LOSS''"
| "order_type_to_string TRAILING_STOP_LOSS = ''TRAILING_STOP_LOSS''"
| "order_type_to_string TAKE_PROFIT = ''TAKE_PROFIT''"

fun trade_action_to_string :: "trade_action \<Rightarrow> string" where
  "trade_action_to_string BUY = ''buy''"
| "trade_action_to_string SELL = ''sell''"

section \<open>Tradable pairs\<close>

record tradable_pair =
  tp_asset :: string
  tp_priceUnit :: string

definition pair_contains :: "tradable_pair \<Rightarrow> string \<Rightarrow> bool" where
  "pair_contains pair assetTicker = (tp_asset pair = assetTicker \<or> tp_priceUnit pair = assetTicker)"

definition pair_name :: "tradable_pair \<Rightarrow> string" where
  "pair_name pair = tp_asset pair @ tp_priceUnit pair"

definition pair_to_string :: "tradable_pair \<Rightarrow> char \<Rightarrow> string" where
  "pair_to_string pair separator =
     (if separator = CHR 0x00 then pair_name pair
      else tp_asset pair @ separator # tp_priceUnit pair)"

definition pair_equal :: "tradable_pair \<Rightarrow> tradable_pair \<Rightarrow> bool" where
  "pair_equal pair other = (tp_asset pair = tp_asset other \<and> tp_priceUnit pair = tp_priceUnit other)"

definition get_gained_asset :: "tradable_pair \<Rightarrow> trade_action \<Rightarrow> string" where
  "get_gained_asset pair action = (if action = BUY then tp_asset pair else tp_priceUnit pair)"

definition parse_tradable_pair :: "string \<Rightarrow> char \<Rightarrow> tradable_pair res" where
  "parse_tradable_pair str seperator =
     (case split str seperator of
        [a, b] \<Rightarrow> Inr \<lparr>tp_asset = to_upper a, tp_priceUnit = to_upper b\<rparr>
      | _ \<Rightarrow> Inl (Mb_exception (''Could not parse tradable pair from '' @ str @
               '' with seperator '' @ [CHR 0x22, seperator, CHR 0x22])))"

definition parse_tradable_pairs :: "string list \<Rightarrow> char \<Rightarrow> tradable_pair list res" where
  "parse_tradable_pairs source seperator =
     res_traverse (\<lambda>name. parse_tradable_pair name seperator) source"

section \<open>Orders\<close>

datatype order_request_parameter = ASSET_PRICE | STOP_PRICE | VOLUME | TRAILING_DELTA

record order_request =
  rq_orderType :: order_type
  rq_pair :: tradable_pair
  rq_action :: trade_action
  rq_parameters :: "order_request_parameter \<rightharpoonup> double"

definition rq_get :: "order_request \<Rightarrow> order_request_parameter \<Rightarrow> double" where
  "rq_get request parameter = find_or_default 0 (rq_parameters request) parameter"

definition create_limit_order :: "tradable_pair \<Rightarrow> trade_action \<Rightarrow> double \<Rightarrow> double \<Rightarrow> order_request" where
  "create_limit_order pair action assetPrice volume =
     \<lparr>rq_orderType = LIMIT, rq_pair = pair, rq_action = action,
      rq_parameters = [ASSET_PRICE \<mapsto> assetPrice, VOLUME \<mapsto> volume]\<rparr>"

definition create_market_order :: "tradable_pair \<Rightarrow> trade_action \<Rightarrow> double \<Rightarrow> order_request" where
  "create_market_order pair action volume =
     \<lparr>rq_orderType = MARKET, rq_pair = pair, rq_action = action,
      rq_parameters = [VOLUME \<mapsto> volume]\<rparr>"

definition create_stop_loss_order ::
    "tradable_pair \<Rightarrow> trade_action \<Rightarrow> double \<Rightarrow> double \<Rightarrow> double \<Rightarrow> order_request" where
  "create_stop_loss_order pair action stopPrice volume limitPrice =
     \<lparr>rq_orderType = STOP_LOSS, rq_pair = pair, rq_action = action,
      rq_parameters = [VOLUME \<mapsto> volume, STOP_PRICE \<mapsto> stopPrice, ASSET_PRICE \<mapsto> limitPrice]\<rparr>"

definition create_trailing_stop_loss_order ::
    "tradable_pair \<Rightarrow> trade_action \<Rightarrow> double \<Rightarrow> double \<Rightarrow> double \<Rightarrow> order_request" where
  "create_trailing_stop_loss_order pair action delta volume limitPrice =
     \<lparr>rq_orderType = TRAILING_STOP_LOSS, rq_pair = pair, rq_action = action,
      rq_parameters = [VOLUME \<mapsto> volume, TRAILING_DELTA \<mapsto> delta, ASSET_PRICE \<mapsto> limitPrice]\<rparr>"

record order_description =
  od_timeStamp :: time_t
  od_orderId :: string
  od_orderType :: order_type
  od_pairName :: string
  od_action :: trade_action
  od_price :: double
  od_volume :: double

definition order_to_csv_row :: "order_description \<Rightarrow> csv_row" where
  "order_to_csv_row data = \<lparr>row_cells =
     [show_int (od_timeStamp data), od_orderId data, order_type_to_string (od_orderType data),
      od_pairName data, trade_action_to_string (od_action data),
      show_double (od_price data), show_double (od_volume data)]\<rparr>"

record order_confirmation =
  oc_orderId :: string
  oc_orderStatus :: order_status
  oc_originalQty :: double
  oc_filledQty :: double
  oc_price :: double

section \<open>Market data\<close>

record trade_update =
  tu_timeStamp :: time_t
  tu_price :: double
  tu_volume :: double

text \<open>The default constructor.\<close>

definition empty_trade_update :: trade_update where
  "empty_trade_update = \<lparr>tu_timeStamp = 0, tu_price = 0, tu_volume = 0\<rparr>"

record ohlcv_data =
  oh_timeStamp :: time_t
  oh_open :: double
  oh_high :: double
  oh_low :: double
  oh_close :: double
  oh_volume :: double

definition empty_ohlcv :: ohlcv_data where
  "empty_ohlcv = \<lparr>oh_timeStamp = - 1, oh_open = 0, oh_high = 0, oh_low = 0, oh_close = 0, oh_volume = 0\<rparr>"

definition ohlcv_less :: "ohlcv_data \<Rightarrow> ohlcv_data \<Rightarrow> bool" where
  "ohlcv_less d other = (oh_timeStamp d < oh_timeStamp other)"

definition ohlcv_from_csv_row :: "csv_row \<Rightarrow> ohlcv_data res" where
  "ohlcv_from_csv_row row =
     res_bind (res_bind (csv_get_cell row 0) stoll) (\<lambda>t.
     res_bind (res_bind (csv_get_cell row 1) stod) (\<lambda>op.
     res_bind (res_bind (csv_get_cell row 2) stod) (\<lambda>hi.
     res_bind (res_bind (csv_get_cell row 3) stod) (\<lambda>lo.
     res_bind (res_bind (csv_get_cell row 4) stod) (\<lambda>cl.
     res_bind (res_bind (csv_get_cell row 5) stod) (\<lambda>vol.
       Inr \<lparr>oh_timeStamp = t, oh_open = op, oh_high = hi, oh_low = lo, oh_close = cl, oh_volume = vol\<rparr>))))))"

datatype order_book_side = ASK | BID

record order_book_entry =
  oe_price :: double
  oe_volume :: double
  oe_side :: order_book_side

record order_book_state =
  ob_timeStamp :: time_t
  ob_asks :: "order_book_entry list"
  ob_bids :: "order_book_entry list"

definition ob_depth :: "order_book_state \<Rightarrow> int" where
  "ob_depth book = int (max (length (ob_asks book)) (length (ob_bids book)))"

definition get_best_entry :: "order_book_entry list \<Rightarrow> order_book_entry res" where
  "get_best_entry entries = read_at ''get_best_entry'' entries 0"

definition select_best_entry :: "order_book_state \<Rightarrow> trade_action \<Rightarrow> order_book_entry res" where
  "select_best_entry orderBook action =
     (if action = BUY then get_best_entry (ob_asks orderBook) else get_best_entry (ob_bids orderBook))"

section \<open>Fee schedules\<close>

text \<open>
  The \<^verbatim>\<open>std::map<double, double>\<close> of tiers, in the order of its keys: that is the order in
  which the loop visits it.
\<close>

record fee_schedule =
  fs_fees :: "(double \<times> double) list"

definition fee_schedule_ok :: "fee_schedule \<Rightarrow> bool" where
  "fee_schedule_ok fs = sorted_wrt (<) (map fst (fs_fees fs))"

fun fee_loop :: "(double \<times> double) list \<Rightarrow> double \<Rightarrow> double" where
  "fee_loop [] tradingVolume = 0"
| "fee_loop ((tierLimit, fee) # tiers) tradingVolume =
     (if tradingVolume \<le> tierLimit then fee else fee_loop tiers tradingVolume)"

definition get_fee :: "fee_schedule \<Rightarrow> double \<Rightarrow> double" where
  "get_fee fs tradingVolume = fee_loop (fs_fees fs) tradingVolume"

section \<open>Lemmas\<close>

lemma rq_get_simps [simp]:
  "rq_get (create_limit_order p a pr v) ASSET_PRICE = pr"
  "rq_get (create_limit_order p a pr v) VOLUME = v"
  "rq_get (create_market_order p a v) VOLUME = v"
  "rq_get (create_stop_loss_order p a sp v lp) STOP_PRICE = sp"
  "rq_get (create_stop_loss_order p a sp v lp) VOLUME = v"
  "rq_get (create_trailing_stop_loss_order p a d v lp) TRAILING_DELTA = d"
  "rq_get (create_trailing_stop_loss_order p a d v lp) VOLUME = v"
  by (simp_all add: rq_get_def create_limit_order_def create_market_order_def
      create_stop_loss_order_def create_trailing_stop_loss_order_def find_or_default_def)

lemma pair_equal_eq: "pair_equal p q \<longleftrightarrow> p = q"
  by (cases p; cases q) (simp add: pair_equal_def)

lemma split_pair:
  assumes "a \<noteq> []" "b \<noteq> []" "d \<notin> set a" "d \<notin> set b"
    and "CHR 0x00 \<notin> set a" "CHR 0x00 \<notin> set b" "d \<noteq> CHR 0x00"
  shows "split (a @ d # b) d = [a, b]"
  using assms by (simp add: split_def c_str_id getline_segs_step getline_segs_last)

text \<open>
  A pair name written with a separator is parsed back to the pair in upper case, when the
  two tickers are not empty and contain neither the separator nor a zero character; every name
  with another number of tickers is refused with an \<^verbatim>\<open>mb_exception\<close>.
\<close>

lemma parse_pair_to_string:
  assumes "tp_asset pair \<noteq> []" "tp_priceUnit pair \<noteq> []" "sep \<noteq> CHR 0x00"
    and "sep \<notin> set (tp_asset pair @ tp_priceUnit pair)"
    and "CHR 0x00 \<notin> set (tp_asset pair @ tp_priceUnit pair)"
  shows "parse_tradable_pair (pair_to_string pair sep) sep =
           Inr \<lparr>tp_asset = to_upper (tp_asset pair), tp_priceUnit = to_upper (tp_priceUnit pair)\<rparr>
         \<and> (length (split s sep) \<noteq> 2 \<longrightarrow> (\<exists>msg. parse_tradable_pair s sep = Inl (Mb_exception msg)))"
  using assms
  by (auto simp: parse_tradable_pair_def pair_to_string_def split_pair split: list.splits)

lemma parse_pair_to_string_example:
  "parse_tradable_pair ''btc/Gbp'' (CHR ''/'') = Inr \<lparr>tp_asset = ''BTC'', tp_priceUnit = ''GBP''\<rparr> \<and>
   (\<exists>msg. parse_tradable_pair ''btc'' (CHR ''/'') = Inl (Mb_exception msg))"
proof -
  let ?p = "\<lparr>tp_asset = ''btc'', tp_priceUnit = ''Gbp''\<rparr>"
  have n: "pair_to_string ?p (CHR ''/'') = ''btc/Gbp''" by (simp add: pair_to_string_def)
  have u: "to_upper ''btc'' = ''BTC''" "to_upper ''Gbp'' = ''GBP''" by code_simp+
  have l: "length (split ''btc'' (CHR ''/'')) \<noteq> 2" by code_simp
  show ?thesis using parse_pair_to_string [of ?p "CHR ''/''" "''btc''"] l by (simp add: n u)
qed

text \<open>The cells of an order row are numbers, upper-case names and the order's own strings.\<close>

lemma show_int_chars: "c \<in> set (show_int i) \<Longrightarrow> is_digit c \<or> c = CHR ''-''"
  using digits_of_is_digit by (auto simp: show_int_def split: if_splits)

lemma show_double_chars:
  "c \<in> set (show_double x) \<Longrightarrow> is_digit c \<or> c \<in> set ''-.naif''"
  using fixed_magnitude_chars by (auto simp: show_double_def to_string_fixed_def split: double.splits if_splits)

lemma plain_chars:
  "is_digit c \<or> c \<in> set ''-.naif'' \<Longrightarrow> c \<noteq> CHR '','' \<and> c \<noteq> CHR 0x00"
  by (auto simp: is_digit_def)

text \<open>
  The line the trade log writes for an order reads back as its seven cells, in the order
  time, id, type, pair, action, price, volume, when id and pair name contain no comma and no
  zero character.
\<close>

lemma order_row_roundtrip:
  assumes "CHR '','' \<notin> set (od_orderId d @ od_pairName d)" "CHR 0x00 \<notin> set (od_orderId d @ od_pairName d)"
  shows "row_cells (parse_row (csv_to_string (order_to_csv_row d))) =
    [show_int (od_timeStamp d), od_orderId d, order_type_to_string (od_orderType d), od_pairName d,
     trade_action_to_string (od_action d), show_double (od_price d), show_double (od_volume d)]"
proof -
  let ?cells = "row_cells (order_to_csv_row d)"
  have n: "CHR '','' \<notin> set (show_int i) \<and> CHR 0x00 \<notin> set (show_int i)" for i
    using show_int_chars plain_chars by fastforce
  have x: "CHR '','' \<notin> set (show_double r) \<and> CHR 0x00 \<notin> set (show_double r)" for r
    using show_double_chars plain_chars by blast
  have t: "CHR '','' \<notin> set (order_type_to_string ty) \<and> CHR 0x00 \<notin> set (order_type_to_string ty)" for ty
    by (cases ty) simp_all
  have a: "CHR '','' \<notin> set (trade_action_to_string ac) \<and> CHR 0x00 \<notin> set (trade_action_to_string ac)" for ac
    by (cases ac) simp_all
  have c: "\<forall>c \<in> set ?cells. CHR '','' \<notin> set c \<and> CHR 0x00 \<notin> set c"
    using assms n x t a by (simp add: order_to_csv_row_def)
  have "row_fields (csv_to_string \<lparr>row_cells = ?cells\<rparr>) = ?cells"
    using c by (intro row_fields_csv) (auto simp: order_to_csv_row_def)
  moreover have "CHR 0x00 \<notin> set (csv_to_string \<lparr>row_cells = ?cells\<rparr>)"
    using c csv_to_string_chars [of "CHR 0x00" ?cells] by auto
  ultimately have "row_cells (parse_row (csv_to_string \<lparr>row_cells = ?cells\<rparr>)) = ?cells"
    by (simp add: parse_row_def c_str_id)
  then show ?thesis by (simp add: order_to_csv_row_def)
qed

lemma order_row_roundtrip_example:
  "row_cells (parse_row (csv_to_string (order_to_csv_row
      \<lparr>od_timeStamp = 60, od_orderId = ''1'', od_orderType = LIMIT, od_pairName = ''BTCGBP'',
       od_action = BUY, od_price = Fin 20, od_volume = Fin 2\<rparr>))) =
   [''60'', ''1'', ''LIMIT'', ''BTCGBP'', ''buy'', show_double (Fin 20), show_double (Fin 2)]"
proof -
  let ?d = "\<lparr>od_timeStamp = 60, od_orderId = ''1'', od_orderType = LIMIT, od_pairName = ''BTCGBP'',
       od_action = BUY, od_price = Fin 20, od_volume = Fin 2\<rparr>"
  have s: "show_int 60 = ''60''" by code_simp
  show ?thesis using order_row_roundtrip [of ?d] by (simp add: s)
qed

lemma fee_loop_find:
  "fee_loop tiers v = (case find (\<lambda>t. v \<le> fst t) tiers of Some t \<Rightarrow> snd t | None \<Rightarrow> 0)"
  by (induction tiers) auto

text \<open>
  The fee of a trading volume is the fee of the least tier limit that is not below it; a
  volume above every tier, like a NaN, is charged nothing.
\<close>

lemma get_fee_tier:
  assumes "fee_schedule_ok fs"
  shows "(\<exists>limit. (limit, get_fee fs v) \<in> set (fs_fees fs) \<and> v \<le> limit \<and>
            (\<forall>t \<in> set (fs_fees fs). v \<le> fst t \<longrightarrow> limit \<le> fst t))
         \<or> get_fee fs v = 0 \<and> (\<forall>t \<in> set (fs_fees fs). \<not> v \<le> fst t)"
proof (cases "find (\<lambda>t. v \<le> fst t) (fs_fees fs)")
  case None
  then have "get_fee fs v = 0" by (simp add: get_fee_def fee_loop_find)
  with None show ?thesis by (auto simp: find_None_iff)
next
  case (Some t)
  then obtain i where i: "i < length (fs_fees fs)" "v \<le> fst (fs_fees fs ! i)" "t = fs_fees fs ! i"
      "\<forall>j<i. \<not> v \<le> fst (fs_fees fs ! j)"
    by (auto simp: find_Some_iff)
  have "fst t \<le> fst (fs_fees fs ! j)" if "j < length (fs_fees fs)" "v \<le> fst (fs_fees fs ! j)" for j
  proof (cases "i = j")
    case True
    with i show ?thesis using double_le_nan(1) [OF i(2)] by simp
  next
    case False
    with i that have "i < j" by (meson linorder_neqE_nat)
    with assms that i show ?thesis
      by (simp add: fee_schedule_ok_def sorted_wrt_iff_nth_less double_less_le sorted_wrt_map)
  qed
  then have "\<forall>u \<in> set (fs_fees fs). v \<le> fst u \<longrightarrow> fst t \<le> fst u"
    by (metis in_set_conv_nth)
  moreover have "get_fee fs v = snd t" using Some by (simp add: get_fee_def fee_loop_find)
  moreover have "t \<in> set (fs_fees fs)" "v \<le> fst t" using i by auto
  ultimately show ?thesis by (metis prod.collapse)
qed

lemma get_fee_tier_example:
  "fee_schedule_ok \<lparr>fs_fees = [(Fin 100, Fin 3), (Fin 200, Fin 2)]\<rparr> \<and>
   get_fee \<lparr>fs_fees = [(Fin 100, Fin 3), (Fin 200, Fin 2)]\<rparr> (Fin 150) = Fin 2"
proof -
  let ?fs = "\<lparr>fs_fees = [(Fin 100, Fin 3), (Fin 200, Fin 2)]\<rparr>"
  have "fee_schedule_ok ?fs" by (simp add: fee_schedule_ok_def)
  with get_fee_tier [OF this, of "Fin 150"] show ?thesis by auto
qed

end
