(* ===== verification/Candles.thy ===== *)
theory Candles
  imports Trading
begin

text \<open>
  The two candle builders of \<^verbatim>\<open>src/trading\<close>: \<^verbatim>\<open>ohlcv_from_trades\<close>, which folds
  trades into aligned candles, and \<^verbatim>\<open>moving_candle\<close>, a sliding window over a deque of
  trades. The lemmas give the candle invariant, the alignment of the candles, and the
  equality of the deque with the window of the whole trade history.
\<close>

section \<open>Candles from trades\<close>

record ohlcv_from_trades =
  ft_startTime :: time_t
  ft_open :: double
  ft_high :: double
  ft_low :: double
  ft_close :: double
  ft_volume :: double
  ft_interval :: int
  ft_lastTime :: time_t

definition create_ohlcv_from_trades :: "ohlcv_data \<Rightarrow> int \<Rightarrow> ohlcv_from_trades" where
  "create_ohlcv_from_trades startOhlcv interval =
     \<lparr>ft_startTime = oh_timeStamp startOhlcv, ft_open = oh_open startOhlcv,
      ft_high = oh_high startOhlcv, ft_low = oh_low startOhlcv, ft_close = oh_close startOhlcv,
      ft_volume = oh_volume startOhlcv, ft_interval = interval,
      ft_lastTime = oh_timeStamp startOhlcv\<rparr>"

definition start_new_candle :: "time_t \<Rightarrow> ohlcv_from_trades \<Rightarrow> ohlcv_from_trades res" where
  "start_new_candle currentTime s =
     (if ft_interval s = 0 then Inl (Undefined_behaviour ''division by zero'')
      else Inr (s\<lparr>ft_startTime := ft_startTime s
                    + ((currentTime - ft_startTime s) sdiv ft_interval s) * ft_interval s,
                 ft_open := ft_close s, ft_high := ft_close s, ft_low := ft_close s,
                 ft_volume := 0\<rparr>))"

text \<open>The roll-over both \<^verbatim>\<open>add_trade\<close> and \<^verbatim>\<open>get_ohlcv\<close> make when the candle has ended.\<close>

definition roll_candle :: "time_t \<Rightarrow> ohlcv_from_trades \<Rightarrow> ohlcv_from_trades res" where
  "roll_candle time s =
     (if time \<ge> ft_startTime s + ft_interval s then start_new_candle time s else Inr s)"

definition add_trade ::
    "time_t \<Rightarrow> double \<Rightarrow> double \<Rightarrow> ohlcv_from_trades \<Rightarrow> ohlcv_from_trades res" where
  "add_trade time price volume s =
     (if time < ft_startTime s then Inr s
      else res_bind (roll_candle time s)
        (\<lambda>s. let s1 = (if time = ft_startTime s then s\<lparr>ft_open := price\<rparr> else s);
                 s2 = s1\<lparr>ft_high := dmax (ft_high s1) price, ft_low := dmin (ft_low s1) price,
                         ft_volume := ft_volume s1 + volume\<rparr>
             in Inr (if time > ft_lastTime s2 then s2\<lparr>ft_close := price, ft_lastTime := time\<rparr> else s2)))"

definition ft_get_ohlcv ::
    "time_t \<Rightarrow> ohlcv_from_trades \<Rightarrow> (ohlcv_data \<times> ohlcv_from_trades) res" where
  "ft_get_ohlcv currentTime s =
     (if \<not> currentTime \<ge> ft_startTime s then Inl (Undefined_behaviour ''assert(currentTime >= _startTime)'')
      else res_bind (roll_candle currentTime s)
        (\<lambda>s. Inr (\<lparr>oh_timeStamp = ft_startTime s, oh_open = ft_open s, oh_high = ft_high s,
                   oh_low = ft_low s, oh_close = ft_close s, oh_volume = ft_volume s\<rparr>, s)))"

text \<open>A candle is consistent when its low and high enclose its open and its close.\<close>

definition candle_ok :: "ohlcv_data \<Rightarrow> bool" where
  "candle_ok d \<longleftrightarrow> oh_low d \<le> oh_open d \<and> oh_open d \<le> oh_high d \<and>
                   oh_low d \<le> oh_close d \<and> oh_close d \<le> oh_high d"

definition ft_ok :: "ohlcv_from_trades \<Rightarrow> bool" where
  "ft_ok s \<longleftrightarrow> 0 < ft_interval s \<and>
     ft_low s \<le> ft_open s \<and> ft_open s \<le> ft_high s \<and> ft_low s \<le> ft_close s \<and> ft_close s \<le> ft_high s"

lemma ft_ok_create: "candle_ok d \<Longrightarrow> 0 < interval \<Longrightarrow> ft_ok (create_ohlcv_from_trades d interval)"
  by (simp add: candle_ok_def ft_ok_def create_ohlcv_from_trades_def)

lemma new_candle_time:
  fixes t st iv :: int
  assumes "0 < iv" "st \<le> t"
  shows "st + ((t - st) sdiv iv) * iv \<le> t \<and> t < st + ((t - st) sdiv iv) * iv + iv
         \<and> (st + ((t - st) sdiv iv) * iv - st) mod iv = 0"
proof -
  have m: "(st + k * iv - st) mod iv = 0" for k by simp
  have "(t - st) sdiv iv = (t - st) div iv" using assms by (intro sdiv_nonneg) simp_all
  moreover have "(t - st) div iv * iv = (t - st) - (t - st) mod iv" by (simp add: minus_mod_eq_div_mult)
  moreover have "0 \<le> (t - st) mod iv" "(t - st) mod iv < iv" using assms by simp_all
  ultimately have "st + ((t - st) sdiv iv) * iv \<le> t" "t < st + ((t - st) sdiv iv) * iv + iv" by simp_all
  with m show ?thesis by blast
qed

lemma roll_candle_spec:
  assumes "ft_ok s" "ft_startTime s \<le> t"
  shows "\<exists>s'. roll_candle t s = Inr s' \<and> ft_ok s' \<and> ft_interval s' = ft_interval s \<and>
    ft_startTime s' \<le> t \<and> t < ft_startTime s' + ft_interval s \<and>
    (ft_startTime s' - ft_startTime s) mod ft_interval s = 0"
proof (cases "t \<ge> ft_startTime s + ft_interval s")
  case True
  have "0 < ft_interval s" "\<not> isnan (ft_close s)"
    using assms(1) double_le_nan by (auto simp: ft_ok_def)
  with True new_candle_time [OF this(1) assms(2)] show ?thesis
    by (auto simp: roll_candle_def start_new_candle_def ft_ok_def)
next
  case False
  with assms show ?thesis by (simp add: roll_candle_def)
qed

lemma le_dmax: "x \<le> a \<Longrightarrow> \<not> isnan b \<Longrightarrow> x \<le> dmax a b"
  by (metis dmax_ge(1) double_le_nan(1) double_le_trans)

lemma dmin_le': "a \<le> x \<Longrightarrow> \<not> isnan b \<Longrightarrow> dmin a b \<le> x"
  by (metis dmin_le(1) double_le_nan(1) double_le_trans)

text \<open>
  C27: a trade of known price keeps a candle consistent and aligned: it never fails, low and high
  enclose open, close and the price of a trade that is not late, the candle starts a whole number
  of intervals later than before, and a trade that is not late falls into the candle.
\<close>

theorem add_trade_ok:
  assumes "ft_ok s" "\<not> isnan price"
  shows "\<exists>s'. add_trade time price volume s = Inr s' \<and> ft_ok s' \<and>
      (ft_startTime s' - ft_startTime s) mod ft_interval s = 0 \<and> ft_interval s' = ft_interval s \<and>
      (ft_startTime s \<le> time \<longrightarrow> ft_startTime s' \<le> time \<and> time < ft_startTime s' + ft_interval s \<and>
         ft_low s' \<le> price \<and> price \<le> ft_high s')"
proof (cases "time < ft_startTime s")
  case True
  then show ?thesis using assms by (simp add: add_trade_def)
next
  case False
  then have le: "ft_startTime s \<le> time" by simp
  obtain s1 where s1: "roll_candle time s = Inr s1"
      "ft_ok s1" "ft_interval s1 = ft_interval s" "ft_startTime s1 \<le> time" "time < ft_startTime s1 + ft_interval s"
      "(ft_startTime s1 - ft_startTime s) mod ft_interval s = 0"
    using roll_candle_spec [OF assms(1) le] by (elim exE conjE) (rule that; assumption)
  have nn: "\<not> isnan (ft_low s1)" "\<not> isnan (ft_high s1)" using s1(2) double_le_nan by (auto simp: ft_ok_def)
  show ?thesis
    unfolding add_trade_def s1(1) using False s1(2-) nn assms(2)
    by (auto simp: Let_def ft_ok_def intro: le_dmax dmin_le' dmax_ge dmin_le)
qed

theorem add_trade_ok_witness:
  "\<exists>s'. add_trade 130 (Fin 9) (Fin 2)
        (create_ohlcv_from_trades \<lparr>oh_timeStamp = 0, oh_open = Fin 5, oh_high = Fin 7, oh_low = Fin 4,
           oh_close = Fin 6, oh_volume = Fin 3\<rparr> 60) = Inr s' \<and> ft_startTime s' \<le> 130 \<and> Fin 9 \<le> ft_high s'"
proof -
  let ?s = "create_ohlcv_from_trades \<lparr>oh_timeStamp = 0, oh_open = Fin 5, oh_high = Fin 7, oh_low = Fin 4,
           oh_close = Fin 6, oh_volume = Fin 3\<rparr> 60"
  have "ft_ok ?s" "\<not> isnan (Fin 9)" by (simp_all add: ft_ok_def create_ohlcv_from_trades_def)
  from add_trade_ok [OF this, of 130 "Fin 2"] show ?thesis
    by (auto simp: create_ohlcv_from_trades_def)
qed

text \<open>
  C29: the candle read at a time not before its start is consistent, starts at a whole number of
  intervals from the first candle and contains the time; a time before the start fails the
  assertion, which a trade that arrives late triggers.
\<close>

theorem ft_get_ohlcv_spec:
  assumes "ft_ok s"
  shows "(ft_startTime s \<le> t \<longrightarrow> (\<exists>d s'. ft_get_ohlcv t s = Inr (d, s') \<and> candle_ok d \<and> ft_ok s' \<and>
            oh_timeStamp d \<le> t \<and> t < oh_timeStamp d + ft_interval s \<and>
            (oh_timeStamp d - ft_startTime s) mod ft_interval s = 0)) \<and>
         (t < ft_startTime s \<longrightarrow> (\<exists>w. ft_get_ohlcv t s = Inl (Undefined_behaviour w)))"
proof (cases "ft_startTime s \<le> t")
  case False
  then show ?thesis by (simp add: ft_get_ohlcv_def)
next
  case True
  obtain s1 where s1: "roll_candle t s = Inr s1"
      "ft_ok s1" "ft_interval s1 = ft_interval s" "ft_startTime s1 \<le> t" "t < ft_startTime s1 + ft_interval s"
      "(ft_startTime s1 - ft_startTime s) mod ft_interval s = 0"
    using roll_candle_spec [OF assms True] by (elim exE conjE) (rule that; assumption)
  show ?thesis unfolding ft_get_ohlcv_def s1(1) using s1(2-) True by (simp add: candle_ok_def ft_ok_def)
qed

theorem ft_get_ohlcv_spec_witness:
  "\<exists>d s'. ft_get_ohlcv 130 (create_ohlcv_from_trades \<lparr>oh_timeStamp = 0, oh_open = Fin 5, oh_high = Fin 7,
      oh_low = Fin 4, oh_close = Fin 6, oh_volume = Fin 3\<rparr> 60) = Inr (d, s') \<and> candle_ok d"
proof -
  let ?s = "create_ohlcv_from_trades \<lparr>oh_timeStamp = 0, oh_open = Fin 5, oh_high = Fin 7, oh_low = Fin 4,
           oh_close = Fin 6, oh_volume = Fin 3\<rparr> 60"
  have "ft_ok ?s" by (simp add: ft_ok_def create_ohlcv_from_trades_def)
  moreover have "ft_startTime ?s \<le> 130" by (simp add: create_ohlcv_from_trades_def)
  ultimately show ?thesis using ft_get_ohlcv_spec [of ?s 130] by blast
qed

section \<open>The moving candle\<close>

record moving_candle =
  mv_interval :: int
  mv_offset :: int
  mv_trades :: "trade_update list"
  mv_startTime :: time_t

definition create_moving_candle :: "int \<Rightarrow> int \<Rightarrow> moving_candle" where
  "create_moving_candle interval offset =
     \<lparr>mv_interval = interval, mv_offset = offset, mv_trades = [], mv_startTime = 0\<rparr>"

fun offset_loop :: "time_t \<Rightarrow> trade_update list \<Rightarrow> trade_update list" where
  "offset_loop limit [] = []"
| "offset_loop limit (trade # rest) =
     (if tu_timeStamp trade \<le> limit then trade # offset_loop limit rest else [])"

definition get_offset_trades :: "moving_candle \<Rightarrow> trade_update list" where
  "get_offset_trades s =
     (if mv_offset s = 0 then mv_trades s
      else offset_loop (mv_startTime s + mv_interval s - mv_offset s) (mv_trades s))"

text \<open>The \<^verbatim>\<open>while\<close> loop that drops a front trade whose successor is not after the start.\<close>

fun pop_old :: "time_t \<Rightarrow> trade_update list \<Rightarrow> trade_update list" where
  "pop_old st (a # b # rest) = (if tu_timeStamp b \<le> st then pop_old st (b # rest) else a # b # rest)"
| "pop_old st xs = xs"

definition update_values :: "time_t \<Rightarrow> moving_candle \<Rightarrow> moving_candle res" where
  "update_values currentTime s =
     (let st = (if currentTime - mv_offset s \<ge> mv_startTime s + mv_interval s
                then currentTime - mv_interval s - mv_offset s else mv_startTime s);
          trades = pop_old st (mv_trades s)
      in case trades of
           [] \<Rightarrow> Inl (Undefined_behaviour ''front of an empty deque'')
         | front # rest \<Rightarrow>
             Inr (s\<lparr>mv_startTime := st,
                    mv_trades := (if tu_timeStamp front < st
                      then \<lparr>tu_timeStamp = st, tu_price = tu_price front, tu_volume = 0\<rparr> # rest
                      else trades)\<rparr>))"

definition push_trade :: "trade_update \<Rightarrow> moving_candle \<Rightarrow> moving_candle res" where
  "push_trade trade s =
     (let s1 = (if mv_startTime s = 0 then s\<lparr>mv_startTime := tu_timeStamp trade\<rparr> else s);
          s2 = s1\<lparr>mv_trades := mv_trades s1 @ [trade]\<rparr>
      in update_values (tu_timeStamp trade) s2)"

text \<open>The price range and volume loop of \<^verbatim>\<open>get_ohlcv\<close> over the selected trades.\<close>

definition ohlcv_of_trades :: "time_t \<Rightarrow> trade_update list \<Rightarrow> ohlcv_data res" where
  "ohlcv_of_trades stamp offsetTrades =
     (case offsetTrades of
        [] \<Rightarrow> Inl (Undefined_behaviour ''front of an empty vector'')
      | first # _ \<Rightarrow> Inr \<lparr>oh_timeStamp = stamp, oh_open = tu_price first,
          oh_high = foldl (\<lambda>high trade. dmax high (tu_price trade)) (tu_price first) offsetTrades,
          oh_low = foldl (\<lambda>low trade. dmin low (tu_price trade)) (tu_price first) offsetTrades,
          oh_close = tu_price (last offsetTrades),
          oh_volume = foldl (\<lambda>volume trade. volume + tu_volume trade) 0 offsetTrades\<rparr>)"

definition mv_get_ohlcv :: "time_t \<Rightarrow> moving_candle \<Rightarrow> (ohlcv_data \<times> moving_candle) res" where
  "mv_get_ohlcv time s =
     res_bind (update_values time s) (\<lambda>s.
       if mv_trades s = [] then Inr (empty_ohlcv, s)
       else res_bind (ohlcv_of_trades (mv_startTime s - mv_offset s) (get_offset_trades s))
              (\<lambda>d. Inr (d, s)))"

definition get_quote_volume :: "time_t \<Rightarrow> moving_candle \<Rightarrow> (double \<times> moving_candle) res" where
  "get_quote_volume time s =
     res_bind (update_values time s) (\<lambda>s.
       Inr (foldl (\<lambda>q trade. q + calculate_cost (tu_price trade) (tu_volume trade)) 0 (get_offset_trades s), s))"

definition mv_reset :: "moving_candle \<Rightarrow> moving_candle" where
  "mv_reset s = s\<lparr>mv_trades := [], mv_startTime := 0\<rparr>"

subsection \<open>The window of a trade history\<close>

text \<open>
  What the deque should hold for a window that starts at \<open>st\<close>: the last trade not after the
  start, moved to the start with no volume if it is older, and every later trade.
\<close>

definition clip_trade :: "time_t \<Rightarrow> trade_update \<Rightarrow> trade_update" where
  "clip_trade st t = (if tu_timeStamp t < st then \<lparr>tu_timeStamp = st, tu_price = tu_price t, tu_volume = 0\<rparr> else t)"

definition window :: "time_t \<Rightarrow> trade_update list \<Rightarrow> trade_update list" where
  "window st h =
     (let old = filter (\<lambda>t. tu_timeStamp t \<le> st) h; new = filter (\<lambda>t. st < tu_timeStamp t) h
      in (if old = [] then [] else [clip_trade st (last old)]) @ new)"

abbreviation times_sorted :: "trade_update list \<Rightarrow> bool" where
  "times_sorted h \<equiv> sorted (map tu_timeStamp h)"

lemma filter_old_sorted: "times_sorted (t # h) \<Longrightarrow> st < tu_timeStamp t \<Longrightarrow> filter (\<lambda>t. tu_timeStamp t \<le> st) h = []"
  by (auto simp: filter_empty_conv)

lemma filter_new_sorted: "times_sorted (t # h) \<Longrightarrow> st < tu_timeStamp t \<Longrightarrow> filter (\<lambda>t. st < tu_timeStamp t) h = h"
  by (auto simp: filter_id_conv)

text \<open>The loop and the replacement of the front compute the window of a sorted deque.\<close>

lemma pop_old_window:
  assumes "times_sorted h" "h \<noteq> []"
  shows "(case pop_old st h of f # r \<Rightarrow> clip_trade st f # r) = window st h \<and> pop_old st h \<noteq> []"
  using assms
proof (induction st h rule: pop_old.induct)
  case (1 st a b rest)
  show ?case
  proof (cases "tu_timeStamp b \<le> st")
    case True
    with 1 have a: "tu_timeStamp a \<le> st" by simp
    with True 1 show ?thesis by (simp add: window_def Let_def)
  next
    case False
    then have "filter (\<lambda>t. tu_timeStamp t \<le> st) rest = []" "filter (\<lambda>t. st < tu_timeStamp t) rest = rest"
      using "1.prems" filter_old_sorted [of b rest st] filter_new_sorted [of b rest st] by auto
    with False show ?thesis by (auto simp: window_def Let_def clip_trade_def)
  qed
qed (auto simp: window_def Let_def clip_trade_def)

lemma update_values_window:
  assumes "times_sorted (mv_trades s)" "mv_trades s \<noteq> []"
  shows "\<exists>st. update_values t s = Inr (s\<lparr>mv_startTime := st, mv_trades := window st (mv_trades s)\<rparr>) \<and>
     st = (if t - mv_offset s \<ge> mv_startTime s + mv_interval s
           then t - mv_interval s - mv_offset s else mv_startTime s)"
proof -
  define st where "st = (if t - mv_offset s \<ge> mv_startTime s + mv_interval s
                then t - mv_interval s - mv_offset s else mv_startTime s)"
  obtain f r where p: "pop_old st (mv_trades s) = f # r"
    using pop_old_window [OF assms, of st] by (cases "pop_old st (mv_trades s)") auto
  with pop_old_window [OF assms, of st] have "window st (mv_trades s) = clip_trade st f # r" by simp
  then show ?thesis
    by (intro exI [of _ st]) (simp add: update_values_def st_def [symmetric] p clip_trade_def Let_def)
qed

lemma window_sorted: "times_sorted h \<Longrightarrow> times_sorted (window st h)"
proof -
  assume h: "times_sorted h"
  have n: "times_sorted (filter (\<lambda>t. st < tu_timeStamp t) h)"
    using h by (rule sorted_filter)
  have "tu_timeStamp (last (filter (\<lambda>t. tu_timeStamp t \<le> st) h)) \<le> st" if "filter (\<lambda>t. tu_timeStamp t \<le> st) h \<noteq> []"
    using last_in_set [OF that] by simp
  with n show ?thesis by (fastforce simp: window_def Let_def clip_trade_def)
qed

lemma sorted_partition:
  "times_sorted h \<Longrightarrow> h = filter (\<lambda>t. tu_timeStamp t \<le> st) h @ filter (\<lambda>t. st < tu_timeStamp t) h"
proof (induction h)
  case (Cons t h)
  then show ?case
    using filter_old_sorted [of t h st] by (cases "tu_timeStamp t \<le> st") auto
qed simp

lemma clip_clip: "s1 \<le> s2 \<Longrightarrow> tu_timeStamp t \<le> s1 \<Longrightarrow> clip_trade s2 (clip_trade s1 t) = clip_trade s2 t"
  by (auto simp: clip_trade_def)

lemma clip_time: "tu_timeStamp t \<le> st \<Longrightarrow> tu_timeStamp (clip_trade st t) = st"
  by (auto simp: clip_trade_def)

text \<open>Windowing a window again, with newer trades appended, is windowing the history.\<close>

lemma window_append:
  assumes "times_sorted h" "s1 \<le> s2"
  shows "window s2 (window s1 h @ ts) = window s2 (h @ ts)"
proof -
  let ?old = "\<lambda>s. filter (\<lambda>t. tu_timeStamp t \<le> s)" and ?new = "\<lambda>s. filter (\<lambda>t. s < tu_timeStamp t)"
  define A where "A = ?old s1 h"
  define N where "N = ?new s1 h"
  define C where "C = (if A = [] then [] else [clip_trade s1 (last A)])"
  have h: "h = A @ N" unfolding A_def N_def using assms(1) by (rule sorted_partition)
  have w: "window s1 h = C @ N" by (simp add: window_def A_def N_def C_def Let_def)
  have A: "\<forall>t \<in> set A. tu_timeStamp t \<le> s1" by (simp add: A_def)
  then have C: "\<forall>t \<in> set C. tu_timeStamp t \<le> s1" by (auto simp: C_def clip_time)
  have oA: "?old s2 A = A" "?new s2 A = []" and oC: "?old s2 C = C" "?new s2 C = []"
    using A C assms(2) by (auto simp: filter_id_conv filter_empty_conv)
  have "clip_trade s2 (last C) = clip_trade s2 (last A)" if "A \<noteq> []"
    using that A assms(2) by (simp add: C_def clip_clip)
  moreover have "C = [] \<longleftrightarrow> A = []" by (simp add: C_def)
  moreover define B where "B = ?old s2 (N @ ts)"
  moreover define M where "M = ?new s2 (N @ ts)"
  moreover have "window s2 (X @ N @ ts) = (if X @ B = [] then [] else [clip_trade s2 (last (X @ B))]) @ M"
    if "?old s2 X = X" "?new s2 X = []" for X
    using that by (simp add: window_def Let_def B_def M_def)
  ultimately have "window s2 (C @ N @ ts) = window s2 (A @ N @ ts)"
    using oA oC by (cases "B = []") simp_all
  moreover have "window s2 (h @ ts) = window s2 (A @ N @ ts)" by (subst h) simp
  ultimately show ?thesis by (simp add: w)
qed

subsection \<open>Chronological use of a moving candle\<close>

datatype mv_op = Push trade_update | Get_ohlcv time_t | Quote_volume time_t

fun op_time :: "mv_op \<Rightarrow> time_t" where
  "op_time (Push t) = tu_timeStamp t"
| "op_time (Get_ohlcv t) = t"
| "op_time (Quote_volume t) = t"

fun mv_step :: "mv_op \<Rightarrow> moving_candle \<Rightarrow> moving_candle res" where
  "mv_step (Push t) s = push_trade t s"
| "mv_step (Get_ohlcv t) s = res_map snd (mv_get_ohlcv t s)"
| "mv_step (Quote_volume t) s = res_map snd (get_quote_volume t s)"

fun mv_run :: "mv_op list \<Rightarrow> moving_candle \<Rightarrow> moving_candle res" where
  "mv_run [] s = Inr s"
| "mv_run (op # ops) s = res_bind (mv_step op s) (mv_run ops)"

fun pushed :: "mv_op list \<Rightarrow> trade_update list" where
  "pushed [] = []"
| "pushed (Push t # ops) = t # pushed ops"
| "pushed (op # ops) = pushed ops"

text \<open>The state between operations, for the trades \<open>h\<close> pushed so far and a last time \<open>T\<close>.\<close>

definition mv_inv :: "trade_update list \<Rightarrow> time_t \<Rightarrow> moving_candle \<Rightarrow> bool" where
  "mv_inv h T s \<longleftrightarrow> 0 \<le> mv_offset s \<and> mv_offset s \<le> mv_interval s \<and>
     times_sorted h \<and> (\<exists>t \<in> set h. tu_timeStamp t \<le> mv_startTime s) \<and>
     (\<forall>t \<in> set h. tu_timeStamp t \<le> T) \<and> 0 < mv_startTime s \<and> mv_startTime s \<le> T \<and>
     mv_trades s = window (mv_startTime s) h"

lemma window_nonempty: "\<exists>t \<in> set h. tu_timeStamp t \<le> st \<Longrightarrow>
   \<exists>f r. window st h = f # r \<and> tu_timeStamp f = st"
proof -
  assume "\<exists>t \<in> set h. tu_timeStamp t \<le> st"
  then have ne: "filter (\<lambda>t. tu_timeStamp t \<le> st) h \<noteq> []" by (auto simp: filter_empty_conv)
  with last_in_set [OF ne] show ?thesis by (auto simp: window_def Let_def clip_time)
qed

lemma window_times: "u \<in> set (window st h) \<Longrightarrow> u \<in> set h \<or> tu_timeStamp u = st"
proof (cases "filter (\<lambda>t. tu_timeStamp t \<le> st) h = []")
  case False
  from last_in_set [OF False] have "tu_timeStamp (clip_trade st (last (filter (\<lambda>t. tu_timeStamp t \<le> st) h))) = st"
    by (simp add: clip_time)
  then show "u \<in> set (window st h) \<Longrightarrow> ?thesis" by (auto simp: window_def Let_def split: if_splits)
qed (auto simp: window_def Let_def)

lemma mv_inv_update:
  assumes "mv_inv h T s" "T \<le> t"
  shows "\<exists>s'. update_values t s = Inr s' \<and> mv_inv h t s' \<and> mv_interval s' = mv_interval s \<and> mv_offset s' = mv_offset s"
proof -
  note i = assms(1) [unfolded mv_inv_def]
  have w: "times_sorted (mv_trades s)" "mv_trades s \<noteq> []"
    using i window_sorted window_nonempty by force+
  obtain st where st: "update_values t s = Inr (s\<lparr>mv_startTime := st, mv_trades := window st (mv_trades s)\<rparr>)"
    and e: "st = (if t - mv_offset s \<ge> mv_startTime s + mv_interval s
           then t - mv_interval s - mv_offset s else mv_startTime s)"
    using update_values_window [OF w] by blast
  have le: "mv_startTime s \<le> st" "st \<le> t" using e i assms(2) by (auto split: if_splits)
  have "window st (mv_trades s) = window st h"
    using i window_append [of h "mv_startTime s" st "[]"] le by simp
  moreover have "\<exists>t \<in> set h. tu_timeStamp t \<le> st" using i le by force
  ultimately show ?thesis using st i le assms(2) by (force simp: mv_inv_def)
qed

lemma mv_inv_push:
  assumes "mv_inv h T s" "T \<le> tu_timeStamp t"
  shows "\<exists>s'. push_trade t s = Inr s' \<and> mv_inv (h @ [t]) (tu_timeStamp t) s'"
proof -
  note i = assms(1) [unfolded mv_inv_def]
  let ?T = "tu_timeStamp t" and ?s = "s\<lparr>mv_trades := mv_trades s @ [t]\<rparr>"
  have "times_sorted (mv_trades s)" using i window_sorted by simp
  moreover have "tu_timeStamp u \<le> ?T" if "u \<in> set (mv_trades s)" for u
  proof -
    have "u \<in> set (window (mv_startTime s) h)" using that i by simp
    from window_times [OF this] show ?thesis using i assms(2) by force
  qed
  ultimately have w: "times_sorted (mv_trades ?s)" "mv_trades ?s \<noteq> []" by (simp_all add: sorted_append)
  obtain st where st: "update_values ?T ?s = Inr (?s\<lparr>mv_startTime := st, mv_trades := window st (mv_trades ?s)\<rparr>)"
    and e: "st = (if ?T - mv_offset s \<ge> mv_startTime s + mv_interval s
           then ?T - mv_interval s - mv_offset s else mv_startTime s)"
    using update_values_window [OF w, of ?T] by auto
  have le: "mv_startTime s \<le> st" "st \<le> ?T" using e i assms(2) by (auto split: if_splits)
  have "window st (mv_trades s @ [t]) = window st (h @ [t])"
    using i window_append [of h "mv_startTime s" st "[t]"] le by simp
  moreover have "\<exists>u \<in> set (h @ [t]). tu_timeStamp u \<le> st" using i le by force
  moreover have "times_sorted (h @ [t])" "\<forall>u \<in> set (h @ [t]). tu_timeStamp u \<le> ?T"
    using i assms(2) by (fastforce simp: sorted_append)+
  ultimately show ?thesis using st i le by (auto simp: push_trade_def mv_inv_def)
qed

lemma offset_loop_front:
  "tu_timeStamp f \<le> limit \<Longrightarrow> \<exists>r'. offset_loop limit (f # r) = f # r'"
  by simp

text \<open>With the window in place and an offset of at most the interval, some trade is selected.\<close>

lemma offset_trades_front:
  assumes "mv_inv h T s"
  shows "\<exists>r. get_offset_trades s = hd (mv_trades s) # r \<and> mv_trades s \<noteq> []"
proof -
  note i = assms [unfolded mv_inv_def]
  then obtain f r where w: "mv_trades s = f # r" "tu_timeStamp f = mv_startTime s"
    using window_nonempty by metis
  moreover have "mv_startTime s \<le> mv_startTime s + mv_interval s - mv_offset s" using i by simp
  ultimately show ?thesis by (simp add: get_offset_trades_def)
qed

lemma mv_inv_ohlcv:
  assumes "mv_inv h T s" "T \<le> t"
  shows "\<exists>d s'. mv_get_ohlcv t s = Inr (d, s') \<and> mv_inv h t s' \<and>
           ohlcv_of_trades (mv_startTime s' - mv_offset s') (get_offset_trades s') = Inr d"
proof -
  obtain s' where s': "update_values t s = Inr s'" "mv_inv h t s'" using mv_inv_update [OF assms] by blast
  obtain r where r: "get_offset_trades s' = hd (mv_trades s') # r" "mv_trades s' \<noteq> []"
    using offset_trades_front [OF s'(2)] by blast
  then obtain d where "ohlcv_of_trades (mv_startTime s' - mv_offset s') (get_offset_trades s') = Inr d"
    by (simp add: ohlcv_of_trades_def)
  with s' r show ?thesis by (simp add: mv_get_ohlcv_def)
qed

lemma mv_inv_step:
  assumes "mv_inv h T s" "T \<le> op_time op"
  shows "\<exists>s'. mv_step op s = Inr s' \<and> mv_inv (h @ pushed [op]) (op_time op) s'"
proof (cases op)
  case (Push t)
  with mv_inv_push [OF assms(1), of t] assms(2) show ?thesis by simp
next
  case (Get_ohlcv t)
  with mv_inv_ohlcv [OF assms(1), of t] assms(2) show ?thesis by auto
next
  case (Quote_volume t)
  with mv_inv_update [OF assms(1), of t] assms(2) show ?thesis by (auto simp: get_quote_volume_def)
qed

lemma pushed_Cons: "pushed (op # ops) = pushed [op] @ pushed ops"
  by (cases op) simp_all

lemma mv_inv_run:
  assumes "mv_inv h T s" "sorted (T # map op_time ops)"
  shows "\<exists>s'. mv_run ops s = Inr s' \<and> mv_inv (h @ pushed ops) (last (T # map op_time ops)) s'"
  using assms
proof (induction ops arbitrary: h T s)
  case (Cons op ops)
  then have "T \<le> op_time op" by simp
  then obtain s' where s': "mv_step op s = Inr s'" "mv_inv (h @ pushed [op]) (op_time op) s'"
    using mv_inv_step [OF Cons.prems(1)] by blast
  have "sorted (op_time op # map op_time ops)" using Cons.prems(2) by simp
  from Cons.IH [OF s'(2) this] s'(1) show ?case
    by (auto simp: pushed_Cons [of op ops])
qed simp

lemma mv_inv_first:
  assumes "0 \<le> offset" "offset \<le> interval" "0 < tu_timeStamp t"
  shows "\<exists>s. push_trade t (create_moving_candle interval offset) = Inr s \<and> mv_inv [t] (tu_timeStamp t) s"
  using assms
  by (auto simp: push_trade_def create_moving_candle_def update_values_def mv_inv_def window_def Let_def clip_trade_def)

text \<open>
  C9: used in the order of time, from a first trade at a positive time and with an offset of at
  most the interval, a moving candle never fails, and its deque is the window of all the trades
  pushed so far: the price in force at the start of the window, then every later trade.
\<close>

theorem moving_candle_refines_window:
  assumes "0 \<le> offset" "offset \<le> interval" "0 < tu_timeStamp t"
    and "sorted (map op_time (Push t # ops))"
  shows "\<exists>s. mv_run (Push t # ops) (create_moving_candle interval offset) = Inr s \<and>
           mv_trades s = window (mv_startTime s) (pushed (Push t # ops)) \<and>
           (\<exists>u \<in> set (pushed (Push t # ops)). tu_timeStamp u \<le> mv_startTime s)"
proof -
  obtain s1 where s1: "push_trade t (create_moving_candle interval offset) = Inr s1"
    "mv_inv [t] (tu_timeStamp t) s1" using mv_inv_first [OF assms(1-3)] by blast
  have "sorted (tu_timeStamp t # map op_time ops)" using assms(4) by simp
  from mv_inv_run [OF s1(2) this] s1(1) show ?thesis by (auto simp: mv_inv_def)
qed

theorem moving_candle_refines_window_witness:
  "\<exists>s. mv_run [Push \<lparr>tu_timeStamp = 100, tu_price = Fin 5, tu_volume = Fin 1\<rparr>,
                Push \<lparr>tu_timeStamp = 130, tu_price = Fin 7, tu_volume = Fin 2\<rparr>, Quote_volume 170]
          (create_moving_candle 60 0) = Inr s \<and>
        mv_startTime s = 110 \<and>
        mv_trades s = [\<lparr>tu_timeStamp = 110, tu_price = Fin 5, tu_volume = 0\<rparr>,
                       \<lparr>tu_timeStamp = 130, tu_price = Fin 7, tu_volume = Fin 2\<rparr>]"
proof -
  let ?a = "\<lparr>tu_timeStamp = 100, tu_price = Fin 5, tu_volume = Fin 1\<rparr>"
  let ?b = "\<lparr>tu_timeStamp = 130, tu_price = Fin 7, tu_volume = Fin 2\<rparr>"
  obtain s where s: "mv_run [Push ?a, Push ?b, Quote_volume 170] (create_moving_candle 60 0) = Inr s"
    "mv_trades s = window (mv_startTime s) [?a, ?b]"
    using moving_candle_refines_window [of 0 60 ?a "[Push ?b, Quote_volume 170]"] by auto
  from s(1) have "mv_startTime s = 110"
    by (auto simp: push_trade_def create_moving_candle_def update_values_def Let_def get_quote_volume_def)
  with s show ?thesis by (simp add: window_def clip_trade_def)
qed

lemma fold_price: "foldl (\<lambda>a t. f a (tu_price t)) x ts = foldl f x (map tu_price ts)"
  by (induction ts arbitrary: x) auto

text \<open>
  The candle read from a moving candle spans the selected trades: its open and close are the
  first and the last price, its low and high are prices of the window that bound every price,
  and its volume is the sum of the volumes in order.
\<close>

lemma mv_get_ohlcv_spans:
  assumes "mv_inv h T s" "T \<le> t" "mv_get_ohlcv t s = Inr (d, s')"
    and "\<forall>u \<in> set (get_offset_trades s'). \<not> isnan (tu_price u)"
  shows "let ps = map tu_price (get_offset_trades s') in
     ps \<noteq> [] \<and> oh_open d = hd ps \<and> oh_close d = last ps \<and> oh_low d \<in> set ps \<and> oh_high d \<in> set ps \<and>
     (\<forall>p \<in> set ps. oh_low d \<le> p \<and> p \<le> oh_high d) \<and>
     oh_volume d = foldl (+) 0 (map tu_volume (get_offset_trades s'))"
proof -
  have d: "ohlcv_of_trades (mv_startTime s' - mv_offset s') (get_offset_trades s') = Inr d"
    using mv_inv_ohlcv [OF assms(1,2)] assms(3) by auto
  obtain f r where fr: "get_offset_trades s' = f # r"
    using d by (cases "get_offset_trades s'") (auto simp: ohlcv_of_trades_def)
  have v: "foldl (\<lambda>v t. v + tu_volume t) x ts = foldl (+) x (map tu_volume ts)" for x ts
    by (induction ts arbitrary: x) auto
  let ?ps = "map tu_price (f # r)"
  have "\<forall>p \<in> set ?ps. \<not> isnan p" using assms(4) by (auto simp: fr)
  then have "\<forall>p \<in> set ?ps. foldl dmin (tu_price f) ?ps \<le> p \<and> p \<le> foldl dmax (tu_price f) ?ps"
    using fold_dmax_ge [of "tu_price f" ?ps] fold_dmin_le [of "tu_price f" ?ps] by simp
  moreover have "foldl dmin (tu_price f) ?ps \<in> set ?ps" "foldl dmax (tu_price f) ?ps \<in> set ?ps"
    using fold_dmin_mem [of "tu_price f" ?ps] fold_dmax_mem [of "tu_price f" ?ps] by auto
  moreover have "d = \<lparr>oh_timeStamp = mv_startTime s' - mv_offset s', oh_open = tu_price f,
      oh_high = foldl dmax (tu_price f) ?ps, oh_low = foldl dmin (tu_price f) ?ps,
      oh_close = tu_price (last (f # r)), oh_volume = foldl (+) 0 (map tu_volume (f # r))\<rparr>"
    using d by (simp add: ohlcv_of_trades_def fr fold_price v del: foldl_Cons)
  ultimately show ?thesis by (simp add: fr Let_def last_map del: foldl_Cons)
qed

lemma mv_get_ohlcv_spans_example:
  "\<exists>d s s'. push_trade \<lparr>tu_timeStamp = 100, tu_price = Fin 5, tu_volume = Fin 1\<rparr> (create_moving_candle 60 0) = Inr s \<and>
     mv_get_ohlcv 130 s = Inr (d, s') \<and> oh_open d = Fin 5 \<and> oh_high d = Fin 5"
proof -
  let ?a = "\<lparr>tu_timeStamp = 100, tu_price = Fin 5, tu_volume = Fin 1\<rparr>"
  obtain s where s: "push_trade ?a (create_moving_candle 60 0) = Inr s" "mv_inv [?a] 100 s"
    using mv_inv_first [of 0 60 ?a] by auto
  from s(1) have "s = \<lparr>mv_interval = 60, mv_offset = 0, mv_trades = [?a], mv_startTime = 100\<rparr>"
    by (simp add: push_trade_def create_moving_candle_def update_values_def Let_def)
  then have g: "\<exists>d. mv_get_ohlcv 130 s = Inr (d, s)" and o: "get_offset_trades s = [?a]"
    by (simp_all add: mv_get_ohlcv_def update_values_def get_offset_trades_def ohlcv_of_trades_def)
  from g obtain d where d: "mv_get_ohlcv 130 s = Inr (d, s)" ..
  from mv_get_ohlcv_spans [OF s(2) _ d] have "oh_open d = Fin 5 \<and> oh_high d = Fin 5"
    by (simp add: o)
  with s d show ?thesis by blast
qed

text \<open>
  Reading a candle or a quote volume from a moving candle that has no trade, new or reset,
  reads the front of the empty deque: the check for an empty deque comes after the read.
\<close>

lemma empty_moving_candle_undefined:
  "\<exists>w. mv_get_ohlcv t (mv_reset s) = Inl (Undefined_behaviour w) \<and>
       get_quote_volume t (create_moving_candle interval offset) = Inl (Undefined_behaviour w)"
  by (simp add: mv_get_ohlcv_def get_quote_volume_def mv_reset_def create_moving_candle_def update_values_def Let_def)

end
