(* ===== verification/OrderBookCache.thy ===== *)
theory OrderBookCache
  imports Trading
begin

text \<open>
  \<^verbatim>\<open>exchanges/websockets/order_book_cache.h\<close> and \<^verbatim>\<open>.cpp\<close>: the price levels of a
  streamed order book, kept in two \<^verbatim>\<open>std::set\<close>s ordered by the tolerant comparison of
  prices, and the snapshots cut from them. A set is the list of its elements in iteration
  order. The interface \<open>ordered_side\<close> says what the comparator of a side promises on prices
  that the tolerance separates; its lemmas give the contents, the order and the best level of
  a side, and both comparators of the code are interpretations of it.
\<close>

section \<open>Ordered sets with a comparator\<close>

text \<open>
  \<^verbatim>\<open>std::set::find\<close> looks for the first element that is not below the key and compares
  it once more; \<^verbatim>\<open>insert\<close> leaves the set alone when an equivalent element is in it.
\<close>

definition set_lower_bound :: "('a \<Rightarrow> 'a \<Rightarrow> bool) \<Rightarrow> 'a \<Rightarrow> 'a list \<Rightarrow> 'a list" where
  "set_lower_bound lt x xs = dropWhile (\<lambda>y. lt y x) xs"

definition set_find :: "('a \<Rightarrow> 'a \<Rightarrow> bool) \<Rightarrow> 'a \<Rightarrow> 'a list \<Rightarrow> 'a option" where
  "set_find lt x xs = (case set_lower_bound lt x xs of
       [] \<Rightarrow> None | y # _ \<Rightarrow> if lt x y then None else Some y)"

definition set_erase_found :: "('a \<Rightarrow> 'a \<Rightarrow> bool) \<Rightarrow> 'a \<Rightarrow> 'a list \<Rightarrow> 'a list" where
  "set_erase_found lt x xs = takeWhile (\<lambda>y. lt y x) xs @ tl (set_lower_bound lt x xs)"

definition set_insert :: "('a \<Rightarrow> 'a \<Rightarrow> bool) \<Rightarrow> 'a \<Rightarrow> 'a list \<Rightarrow> 'a list" where
  "set_insert lt x xs = (case set_find lt x xs of
       Some _ \<Rightarrow> xs | None \<Rightarrow> takeWhile (\<lambda>y. lt y x) xs @ x # set_lower_bound lt x xs)"

definition set_from_range :: "('a \<Rightarrow> 'a \<Rightarrow> bool) \<Rightarrow> 'a list \<Rightarrow> 'a list" where
  "set_from_range lt xs = foldl (\<lambda>s x. set_insert lt x s) [] xs"

section \<open>The cache\<close>

definition entry_less_than :: "order_book_entry \<Rightarrow> order_book_entry \<Rightarrow> bool" where
  "entry_less_than l r = double_less_than (oe_price l) (oe_price r)"

definition entry_greater_than :: "order_book_entry \<Rightarrow> order_book_entry \<Rightarrow> bool" where
  "entry_greater_than l r = double_greater_than (oe_price l) (oe_price r)"

definition update_side ::
    "(order_book_entry \<Rightarrow> order_book_entry \<Rightarrow> bool) \<Rightarrow> order_book_entry \<Rightarrow>
     order_book_entry list \<Rightarrow> order_book_entry list" where
  "update_side lt entry cache =
     (let cache1 = (case set_find lt entry cache of
                      Some _ \<Rightarrow> set_erase_found lt entry cache | None \<Rightarrow> cache)
      in if 0 < oe_volume entry then set_insert lt entry cache1 else cache1)"

record order_book_cache =
  bc_lastUpdate :: time_t
  bc_asks :: "order_book_entry list"
  bc_bids :: "order_book_entry list"

definition update_cache ::
    "time_t \<Rightarrow> order_book_entry \<Rightarrow> order_book_cache \<Rightarrow> order_book_cache" where
  "update_cache timeStamp entry s =
     (let s1 = s\<lparr>bc_lastUpdate := timeStamp\<rparr>
      in if oe_side entry = ASK
         then s1\<lparr>bc_asks := update_side entry_less_than entry (bc_asks s1)\<rparr>
         else s1\<lparr>bc_bids := update_side entry_greater_than entry (bc_bids s1)\<rparr>)"

text \<open>\<^verbatim>\<open>std::next(begin, n)\<close> outside the container is undefined behaviour.\<close>

definition first_entries :: "'a list \<Rightarrow> int \<Rightarrow> 'a list res" where
  "first_entries xs n =
     (if 0 \<le> n \<and> n \<le> int (length xs) then Inr (take (nat n) xs)
      else Inl (Undefined_behaviour ''std::next''))"

definition snapshot :: "order_book_cache \<Rightarrow> int \<Rightarrow> order_book_state res" where
  "snapshot s depth0 =
     (let asks = bc_asks s; bids = bc_bids s;
          depth = (if depth0 = 0 then narrow32 (max (int (length asks)) (int (length bids))) else depth0);
          askDepth = min (narrow32 (int (length asks))) depth;
          bidDepth = min (narrow32 (int (length bids))) depth
      in res_bind (first_entries asks askDepth) (\<lambda>a.
         res_bind (first_entries bids bidDepth) (\<lambda>b.
         Inr \<lparr>ob_timeStamp = bc_lastUpdate s, ob_asks = a, ob_bids = b\<rparr>)))"

definition from_snapshot :: "order_book_state \<Rightarrow> order_book_cache" where
  "from_snapshot st =
     \<lparr>bc_lastUpdate = ob_timeStamp st,
      bc_asks = set_from_range entry_less_than (ob_asks st),
      bc_bids = set_from_range entry_greater_than (ob_bids st)\<rparr>"

section \<open>The interface of a side\<close>

text \<open>
  The comparators look at prices through a tolerance, so a set of levels makes sense only
  where the tolerance identifies no two of its prices.
\<close>

definition separated :: "double set \<Rightarrow> bool" where
  "separated P \<longleftrightarrow> (\<forall>p \<in> P. is_finite p \<and> (\<forall>q \<in> P. p = q \<or> \<not> double_equal p q))"

definition level :: "order_book_entry list \<Rightarrow> double \<Rightarrow> order_book_entry option" where
  "level xs p = map_of (map (\<lambda>e. (oe_price e, e)) xs) p"

lemma level_Nil [simp]: "level [] p = None"
  by (simp add: level_def)

lemma level_Cons: "level (e # xs) p = (if p = oe_price e then Some e else level xs p)"
  by (simp add: level_def)

lemma level_None: "level xs p = None \<longleftrightarrow> p \<notin> oe_price ` set xs"
  by (auto simp: level_def map_of_eq_None_iff image_iff)

locale ordered_side =
  fixes lt :: "order_book_entry \<Rightarrow> order_book_entry \<Rightarrow> bool"
    and better :: "double \<Rightarrow> double \<Rightarrow> bool"
  assumes lt_better: "separated P \<Longrightarrow> oe_price l \<in> P \<Longrightarrow> oe_price r \<in> P \<Longrightarrow>
      lt l r \<longleftrightarrow> better (oe_price l) (oe_price r)"
    and better_irrefl: "\<not> better p p"
    and better_trans: "better p q \<Longrightarrow> better q s \<Longrightarrow> better p s"
    and better_total: "separated P \<Longrightarrow> p \<in> P \<Longrightarrow> q \<in> P \<Longrightarrow> p = q \<or> better p q \<or> better q p"
begin

definition side_ok :: "double set \<Rightarrow> order_book_entry list \<Rightarrow> bool" where
  "side_ok P xs \<longleftrightarrow> separated P \<and> oe_price ` set xs \<subseteq> P \<and>
     sorted_wrt (\<lambda>l r. better (oe_price l) (oe_price r)) xs"

lemma better_asym: "better p q \<Longrightarrow> \<not> better q p"
  using better_trans better_irrefl by blast

lemma side_ok_Nil [simp]: "side_ok P [] \<longleftrightarrow> separated P"
  by (simp add: side_ok_def)

lemma side_ok_Cons: "side_ok P (e # xs) \<longleftrightarrow>
    side_ok P xs \<and> oe_price e \<in> P \<and> (\<forall>f \<in> set xs. better (oe_price e) (oe_price f))"
  by (auto simp: side_ok_def)

lemma find_step:
  "set_find lt x (e # xs) = (if lt e x then set_find lt x xs else if lt x e then None else Some e)"
  by (simp add: set_find_def set_lower_bound_def)

lemma find_level:
  assumes "side_ok P xs" "oe_price x \<in> P"
  shows "set_find lt x xs = level xs (oe_price x)"
  using assms
proof (induction xs)
  case Nil
  then show ?case by (simp add: set_find_def set_lower_bound_def level_Cons)
next
  case (Cons e xs)
  then have P: "separated P" "oe_price e \<in> P" and lts: "lt e x \<longleftrightarrow> better (oe_price e) (oe_price x)"
      "lt x e \<longleftrightarrow> better (oe_price x) (oe_price e)"
    by (auto simp: side_ok_Cons side_ok_def lt_better)
  consider "oe_price e = oe_price x" | "better (oe_price e) (oe_price x)" | "better (oe_price x) (oe_price e)"
    using better_total [OF P(1,2) Cons.prems(2)] by blast
  then show ?case
  proof cases
    case 1
    then show ?thesis by (simp add: find_step lts better_irrefl level_Cons)
  next
    case 2
    then have "oe_price e \<noteq> oe_price x" using better_irrefl by metis
    with 2 Cons show ?thesis by (simp add: find_step lts level_Cons side_ok_Cons)
  next
    case 3
    have "oe_price f \<noteq> oe_price x" if "f \<in> set (e # xs)" for f
      using that 3 Cons.prems(1) better_trans better_irrefl
      by (simp add: side_ok_Cons) metis
    then have "level (e # xs) (oe_price x) = None"
      by (metis imageE level_None)
    with 3 better_asym show ?thesis by (simp add: find_step lts)
  qed
qed

lemma erase_step:
  "set_erase_found lt x (e # xs) = (if lt e x then e # set_erase_found lt x xs else xs)"
  by (simp add: set_erase_found_def set_lower_bound_def)

lemma insert_step:
  "set_insert lt x (e # xs) = (if lt e x then e # set_insert lt x xs
     else if lt x e then x # e # xs else e # xs)"
  by (auto simp: set_insert_def find_step split: option.splits)
     (auto simp: set_lower_bound_def)

lemma erase_ok:
  assumes "side_ok P xs" "oe_price x \<in> P" "level xs (oe_price x) \<noteq> None"
  shows "side_ok P (set_erase_found lt x xs) \<and> set (set_erase_found lt x xs) \<subseteq> set xs \<and>
    (\<forall>p. level (set_erase_found lt x xs) p = (if p = oe_price x then None else level xs p))"
  using assms
proof (induction xs)
  case Nil
  then show ?case by (simp add: level_Cons)
next
  case (Cons e xs)
  then have P: "separated P" "oe_price e \<in> P" and lts: "lt e x \<longleftrightarrow> better (oe_price e) (oe_price x)"
    by (auto simp: side_ok_Cons side_ok_def lt_better)
  show ?case
  proof (cases "lt e x")
    case True
    then have ne: "oe_price e \<noteq> oe_price x" using lts better_irrefl by metis
    then have "level xs (oe_price x) \<noteq> None" using Cons.prems(3) by (simp add: level_Cons)
    with Cons have IH: "side_ok P (set_erase_found lt x xs)" "set (set_erase_found lt x xs) \<subseteq> set xs"
        "\<forall>p. level (set_erase_found lt x xs) p = (if p = oe_price x then None else level xs p)"
      by (simp_all add: side_ok_Cons)
    from IH(2) True Cons.prems(1) IH(1) have "side_ok P (set_erase_found lt x (e # xs))"
      by (auto simp: erase_step side_ok_Cons)
    moreover have "level (set_erase_found lt x (e # xs)) p =
        (if p = oe_price x then None else level (e # xs) p)" for p
      using True ne IH(3) by (simp add: erase_step level_Cons)
    ultimately show ?thesis using IH(2) True by (auto simp: erase_step)
  next
    case False
    have "oe_price e = oe_price x"
    proof (rule ccontr)
      assume ne: "oe_price e \<noteq> oe_price x"
      then have b: "better (oe_price x) (oe_price e)"
        using False lts better_total [OF P(1,2) Cons.prems(2)] by blast
      have "oe_price f \<noteq> oe_price x" if "f \<in> set (e # xs)" for f
        using that b Cons.prems(1) better_trans better_irrefl
        by (simp add: side_ok_Cons) metis
      then show False using Cons.prems(3) level_None by (metis imageE)
    qed
    moreover have "level xs (oe_price e) = None"
      using Cons.prems(1) better_irrefl by (auto simp: level_None side_ok_Cons)
    ultimately show ?thesis using False Cons.prems(1)
      by (auto simp: erase_step side_ok_Cons) (auto simp: level_Cons)
  qed
qed

lemma insert_ok:
  assumes "side_ok P xs" "oe_price x \<in> P"
  shows "side_ok P (set_insert lt x xs) \<and> set (set_insert lt x xs) \<subseteq> insert x (set xs) \<and>
    (\<forall>p. level (set_insert lt x xs) p =
       (if p = oe_price x \<and> level xs p = None then Some x else level xs p))"
  using assms
proof (induction xs)
  case Nil
  then show ?case by (auto simp: set_insert_def set_find_def set_lower_bound_def side_ok_def level_Cons)
next
  case (Cons e xs)
  then have P: "separated P" "oe_price e \<in> P" and lts: "lt e x \<longleftrightarrow> better (oe_price e) (oe_price x)"
      "lt x e \<longleftrightarrow> better (oe_price x) (oe_price e)"
    by (auto simp: side_ok_Cons side_ok_def lt_better)
  consider "lt e x" | "\<not> lt e x" "lt x e" | "\<not> lt e x" "\<not> lt x e" by blast
  then show ?case
  proof cases
    case 1
    then have ne: "oe_price e \<noteq> oe_price x" and b: "better (oe_price e) (oe_price x)"
      using lts better_irrefl by metis+
    from Cons have IH: "side_ok P (set_insert lt x xs)" "set (set_insert lt x xs) \<subseteq> insert x (set xs)"
        "\<forall>p. level (set_insert lt x xs) p = (if p = oe_price x \<and> level xs p = None then Some x else level xs p)"
      by (simp_all add: side_ok_Cons)
    from IH(1,2) 1 b Cons.prems have "side_ok P (set_insert lt x (e # xs))"
      by (auto simp: insert_step side_ok_Cons)
    moreover have "level (set_insert lt x (e # xs)) p =
        (if p = oe_price x \<and> level (e # xs) p = None then Some x else level (e # xs) p)" for p
      using 1 ne IH(3) by (cases "p = oe_price x") (simp_all add: insert_step level_Cons)
    ultimately show ?thesis using IH(2) 1 by (auto simp: insert_step)
  next
    case 2
    have below: "better (oe_price x) (oe_price f)" if "f \<in> set (e # xs)" for f
      using that 2 lts Cons.prems(1) better_trans by (auto simp: side_ok_Cons)
    then have "level (e # xs) (oe_price x) = None"
      using better_irrefl by (metis imageE level_None)
    with 2 below Cons.prems show ?thesis
      by (auto simp: insert_step side_ok_Cons) (auto simp: level_Cons)
  next
    case 3
    then have "oe_price e = oe_price x"
      using lts better_total [OF P(1,2) Cons.prems(2)] by blast
    then have "level (e # xs) (oe_price x) \<noteq> None" by (simp add: level_Cons)
    with 3 Cons.prems show ?thesis by (auto simp: insert_step)
  qed
qed

lemma update_ok:
  assumes "side_ok P xs" "oe_price x \<in> P"
  shows "side_ok P (update_side lt x xs)"
    and "level (update_side lt x xs) p =
       (if p = oe_price x then if 0 < oe_volume x then Some x else None else level xs p)"
proof -
  define c where "c = (case set_find lt x xs of Some _ \<Rightarrow> set_erase_found lt x xs | None \<Rightarrow> xs)"
  have c: "side_ok P c \<and> (\<forall>p. level c p = (if p = oe_price x then None else level xs p))"
    using erase_ok [OF assms] assms by (auto simp: c_def find_level [OF assms] split: option.splits)
  have u: "update_side lt x xs = (if 0 < oe_volume x then set_insert lt x c else c)"
    by (simp add: update_side_def c_def)
  show "side_ok P (update_side lt x xs)" using c insert_ok [of P c x] assms by (auto simp: u)
  show "level (update_side lt x xs) p =
       (if p = oe_price x then if 0 < oe_volume x then Some x else None else level xs p)"
    using c insert_ok [of P c x] assms by (auto simp: u)
qed

lemma from_range_ok:
  assumes "separated P" "oe_price ` set xs \<subseteq> P"
  shows "side_ok P (set_from_range lt xs)" and "level (set_from_range lt xs) p = level xs p"
proof -
  have "side_ok P acc \<Longrightarrow> side_ok P (foldl (\<lambda>s x. set_insert lt x s) acc xs) \<and>
      (\<forall>p. level (foldl (\<lambda>s x. set_insert lt x s) acc xs) p =
        (case level acc p of None \<Rightarrow> level xs p | Some e \<Rightarrow> Some e))" for acc
    using assms(2)
  proof (induction xs arbitrary: acc)
    case Nil
    then show ?case by (auto simp: level_Cons split: option.splits)
  next
    case (Cons x xs)
    then have i: "side_ok P (set_insert lt x acc)"
        "\<forall>p. level (set_insert lt x acc) p = (if p = oe_price x \<and> level acc p = None then Some x else level acc p)"
      using insert_ok [of P acc x] by auto
    then show ?case using Cons.IH [OF i(1)] Cons.prems(2)
      by (auto simp: level_Cons split: option.splits)
  qed
  from this [of "[]"] assms(1) show "side_ok P (set_from_range lt xs)"
    and "level (set_from_range lt xs) p = level xs p"
    by (simp_all add: set_from_range_def level_Cons)
qed

lemma best_first:
  assumes "side_ok P (e # xs)" "f \<in> set xs"
  shows "better (oe_price e) (oe_price f)"
  using assms by (simp add: side_ok_Cons)

end

lemma separated_less:
  assumes "separated P" "p \<in> P" "q \<in> P"
  shows "double_less_than p q \<longleftrightarrow> p < q" and "double_greater_than p q \<longleftrightarrow> q < p"
  using assms unfolding separated_def double_less_than_def double_greater_than_def
  by (metis double_less_irrefl)+

lemma separated_total:
  assumes "separated P" "p \<in> P" "q \<in> P"
  shows "p = q \<or> p < q \<or> q < p"
proof (cases "p = q")
  case False
  with assms have "\<not> double_equal p q" "is_finite p" "is_finite q" by (auto simp: separated_def)
  with deq_double_equal have "\<not> deq p q" by blast
  with \<open>is_finite p\<close> \<open>is_finite q\<close> show ?thesis
    using double_linear [of p q] double_antisym [of p q] double_le_not_less finite_not_nan by metis
qed simp

interpretation ask_side: ordered_side entry_less_than "\<lambda>p q. p < q"
  by unfold_locales
     (auto simp: entry_less_than_def separated_less intro: double_less_trans dest: separated_total)

interpretation bid_side: ordered_side entry_greater_than "\<lambda>p q. q < p"
  by unfold_locales
     (auto simp: entry_greater_than_def separated_less intro: double_less_trans dest: separated_total)

section \<open>The cache as two maps of levels\<close>

text \<open>
  The specification of the cache: each side is a map from prices to live levels, an update
  with a positive volume replaces the level of its price and any other removes it.
\<close>

definition level_update ::
    "order_book_side \<Rightarrow> (double \<rightharpoonup> order_book_entry) \<Rightarrow> time_t \<times> order_book_entry \<Rightarrow> (double \<rightharpoonup> order_book_entry)" where
  "level_update side m u =
     (if oe_side (snd u) = side
      then m(oe_price (snd u) := (if 0 < oe_volume (snd u) then Some (snd u) else None)) else m)"

definition cache_run :: "order_book_cache \<Rightarrow> (time_t \<times> order_book_entry) list \<Rightarrow> order_book_cache" where
  "cache_run c us = foldl (\<lambda>s u. update_cache (fst u) (snd u) s) c us"

definition cache_ok :: "double set \<Rightarrow> order_book_cache \<Rightarrow> bool" where
  "cache_ok P c \<longleftrightarrow> ask_side.side_ok P (bc_asks c) \<and> bid_side.side_ok P (bc_bids c)"

lemma not_ASK [simp]: "side \<noteq> ASK \<longleftrightarrow> side = BID"
  by (cases side) simp_all

lemma update_cache_ok:
  assumes "cache_ok P c" "oe_price (snd u) \<in> P"
  shows "cache_ok P (update_cache (fst u) (snd u) c)"
    and "level (bc_asks (update_cache (fst u) (snd u) c)) = level_update ASK (level (bc_asks c)) u"
    and "level (bc_bids (update_cache (fst u) (snd u) c)) = level_update BID (level (bc_bids c)) u"
    and "bc_lastUpdate (update_cache (fst u) (snd u) c) = fst u"
  using assms
  by (auto simp: cache_ok_def update_cache_def level_update_def fun_eq_iff Let_def
      ask_side.update_ok bid_side.update_ok)

lemma cache_run_ok:
  assumes "cache_ok P c" "oe_price ` snd ` set us \<subseteq> P"
  shows "cache_ok P (cache_run c us) \<and>
    level (bc_asks (cache_run c us)) = foldl (level_update ASK) (level (bc_asks c)) us \<and>
    level (bc_bids (cache_run c us)) = foldl (level_update BID) (level (bc_bids c)) us \<and>
    bc_lastUpdate (cache_run c us) = (if us = [] then bc_lastUpdate c else fst (last us))"
  using assms
proof (induction us arbitrary: c)
  case Nil
  then show ?case by (simp add: cache_run_def)
next
  case (Cons u us)
  then have u: "oe_price (snd u) \<in> P" "oe_price ` snd ` set us \<subseteq> P" by auto
  show ?case using Cons.IH [OF update_cache_ok(1) [OF Cons.prems(1) u(1)] u(2)]
    update_cache_ok(2-4) [OF Cons.prems(1) u(1)] by (simp add: cache_run_def)
qed

lemma from_snapshot_ok:
  assumes "separated P" "oe_price ` set (ob_asks st) \<subseteq> P" "oe_price ` set (ob_bids st) \<subseteq> P"
  shows "cache_ok P (from_snapshot st)"
    and "level (bc_asks (from_snapshot st)) = level (ob_asks st)"
    and "level (bc_bids (from_snapshot st)) = level (ob_bids st)"
  using assms ask_side.from_range_ok [of P] bid_side.from_range_ok [of P]
  by (auto simp: cache_ok_def from_snapshot_def fun_eq_iff)

text \<open>
  C8: a book built from a snapshot and updated by any sequence of messages holds exactly the
  levels of the specification, the last message for a price deciding, with the asks strictly
  ascending and the bids strictly descending in price and the time of the last message, when
  the tolerance of the comparators separates the prices.
\<close>

theorem order_book_cache_refines_levels:
  assumes "separated (oe_price ` (set (ob_asks st) \<union> set (ob_bids st) \<union> snd ` set us))"
  shows "level (bc_asks (cache_run (from_snapshot st) us)) =
           foldl (level_update ASK) (level (ob_asks st)) us
       \<and> level (bc_bids (cache_run (from_snapshot st) us)) =
           foldl (level_update BID) (level (ob_bids st)) us
       \<and> sorted_wrt (\<lambda>l r. oe_price l < oe_price r) (bc_asks (cache_run (from_snapshot st) us))
       \<and> sorted_wrt (\<lambda>l r. oe_price r < oe_price l) (bc_bids (cache_run (from_snapshot st) us))
       \<and> bc_lastUpdate (cache_run (from_snapshot st) us) =
           (if us = [] then ob_timeStamp st else fst (last us))"
proof -
  let ?P = "oe_price ` (set (ob_asks st) \<union> set (ob_bids st) \<union> snd ` set us)"
  have "oe_price ` set (ob_asks st) \<subseteq> ?P" "oe_price ` set (ob_bids st) \<subseteq> ?P"
      "oe_price ` snd ` set us \<subseteq> ?P" by auto
  then show ?thesis
    using from_snapshot_ok [OF assms] cache_run_ok [of ?P "from_snapshot st" us]
    by (simp add: cache_ok_def ask_side.side_ok_def bid_side.side_ok_def)
       (simp add: from_snapshot_def)
qed

definition ask_at :: "rat \<Rightarrow> rat \<Rightarrow> order_book_entry" where
  "ask_at p v = \<lparr>oe_price = Fin p, oe_volume = Fin v, oe_side = ASK\<rparr>"

theorem order_book_cache_refines_levels_witness:
  "let st = \<lparr>ob_timeStamp = 1, ob_asks = [ask_at 3 1, ask_at 2 1], ob_bids = []\<rparr>;
       c = cache_run (from_snapshot st) [(5, ask_at 2 0), (6, ask_at 1 4)]
   in level (bc_asks c) (Fin 2) = None \<and> level (bc_asks c) (Fin 1) = Some (ask_at 1 4)
     \<and> level (bc_asks c) (Fin 3) = Some (ask_at 3 1) \<and> bc_lastUpdate c = 6"
proof -
  let ?st = "\<lparr>ob_timeStamp = 1, ob_asks = [ask_at 3 1, ask_at 2 1], ob_bids = []\<rparr>"
  let ?us = "[(5, ask_at 2 0), (6, ask_at 1 4)]"
  have "\<not> double_equal (Fin 1) (Fin 2)" "\<not> double_equal (Fin 1) (Fin 3)" "\<not> double_equal (Fin 2) (Fin 1)"
    "\<not> double_equal (Fin 2) (Fin 3)" "\<not> double_equal (Fin 3) (Fin 1)" "\<not> double_equal (Fin 3) (Fin 2)"
    by code_simp+
  then have "separated (oe_price ` (set (ob_asks ?st) \<union> set (ob_bids ?st) \<union> snd ` set ?us))"
    by (simp add: separated_def ask_at_def is_finite_def)
  from order_book_cache_refines_levels [OF this] show ?thesis
    by (simp add: Let_def level_update_def level_Cons ask_at_def zero_double_def)
qed

text \<open>
  A snapshot of a positive depth keeps the best levels of each side, at most that many;
  depth zero keeps all of them, and a negative depth runs the iterator out of the set.
\<close>

lemma snapshot_depth:
  assumes "int (length (bc_asks c)) < 2 ^ 31" "int (length (bc_bids c)) < 2 ^ 31"
  shows "snapshot c 0 =
      Inr \<lparr>ob_timeStamp = bc_lastUpdate c, ob_asks = bc_asks c, ob_bids = bc_bids c\<rparr>
    \<and> (0 < d \<longrightarrow> snapshot c d = Inr \<lparr>ob_timeStamp = bc_lastUpdate c,
         ob_asks = take (nat d) (bc_asks c), ob_bids = take (nat d) (bc_bids c)\<rparr>)
    \<and> (d < 0 \<longrightarrow> snapshot c d = Inl (Undefined_behaviour ''std::next''))"
proof -
  have n: "narrow32 (int (length (bc_asks c))) = int (length (bc_asks c))"
    "narrow32 (int (length (bc_bids c))) = int (length (bc_bids c))"
    "narrow32 (max (int (length (bc_asks c))) (int (length (bc_bids c)))) =
       max (int (length (bc_asks c))) (int (length (bc_bids c)))"
    using assms by (intro narrow32_id; simp)+
  have t: "take (nat (min (int (length xs)) d)) xs = take (nat d) xs" if "0 < d"
    for xs :: "order_book_entry list" and d
    using that by (cases "int (length xs) \<le> d") (simp_all add: min_def)
  show ?thesis using t by (simp add: snapshot_def n Let_def first_entries_def min_def)
qed

lemma snapshot_depth_example:
  "snapshot \<lparr>bc_lastUpdate = 4, bc_asks = [ask_at 2 1, ask_at 3 1], bc_bids = []\<rparr> 1 =
     Inr \<lparr>ob_timeStamp = 4, ob_asks = [ask_at 2 1], ob_bids = []\<rparr>"
  using snapshot_depth [of "\<lparr>bc_lastUpdate = 4, bc_asks = [ask_at 2 1, ask_at 3 1], bc_bids = []\<rparr>" 1]
  by simp

text \<open>
  Where the tolerance does not separate the prices, an update can be lost: with the levels
  1 and 1 + 6e in the book (e the machine epsilon), an update at 1 + 3e is equivalent to both,
  so it removes the first and is itself not inserted because of the second.
\<close>

lemma order_book_update_lost:
  "let e = 1 / 4503599627370496;
       c = \<lparr>bc_lastUpdate = 0, bc_asks = [ask_at 1 1, ask_at (1 + 6 * e) 1], bc_bids = []\<rparr>
   in bc_asks (update_cache 9 (ask_at (1 + 3 * e) 5) c) = [ask_at (1 + 6 * e) 1]"
  by code_simp

end
