(* ===== verification/WebsocketStream.thy ===== *)
theory WebsocketStream
  imports Candles OrderBookCache
begin

text \<open>
  \<^verbatim>\<open>exchanges/websockets/\<close>: the candle intervals, the subscriptions, the base class
  \<^verbatim>\<open>websocket_stream\<close> with its handlers, the state every exchange stream keeps
  (\<^verbatim>\<open>exchange_websocket_stream.cpp\<close>) and the candles built from trades
  (\<^verbatim>\<open>ohlcv_subscription_service.cpp\<close>). The virtual functions an exchange overrides and
  the connection are parameters. The contract of the three per-channel stores is the
  interface \<open>channel_store\<close>, interpreted on each of them.
\<close>

section \<open>Constants\<close>

datatype websocket_channel = ORDER_BOOK | TRADE | OHLCV

datatype ohlcv_interval = M1 | M5 | M15 | H1 | D1 | W1 | UNKNOWN

datatype subscription_status = UNSUBSCRIBED | SUBSCRIBED

datatype ws_connection_status = WS_CLOSED | WS_OPEN

text \<open>The enumerators are ordered by their values.\<close>

fun interval_index :: "ohlcv_interval \<Rightarrow> nat" where
  "interval_index M1 = 0"
| "interval_index M5 = 1"
| "interval_index M15 = 2"
| "interval_index H1 = 3"
| "interval_index D1 = 4"
| "interval_index W1 = 5"
| "interval_index UNKNOWN = 6"

instantiation ohlcv_interval :: linorder
begin

definition less_eq_ohlcv_interval :: "ohlcv_interval \<Rightarrow> ohlcv_interval \<Rightarrow> bool" where
  "less_eq_ohlcv_interval i j = (interval_index i \<le> interval_index j)"

definition less_ohlcv_interval :: "ohlcv_interval \<Rightarrow> ohlcv_interval \<Rightarrow> bool" where
  "less_ohlcv_interval i j = (interval_index i < interval_index j)"

instance
proof
  fix i j k :: ohlcv_interval
  show "(i < j) = (i \<le> j \<and> \<not> j \<le> i)"
    by (auto simp: less_eq_ohlcv_interval_def less_ohlcv_interval_def)
  show "i \<le> i" by (simp add: less_eq_ohlcv_interval_def)
  show "i \<le> j \<Longrightarrow> j \<le> k \<Longrightarrow> i \<le> k" by (simp add: less_eq_ohlcv_interval_def)
  show "i \<le> j \<Longrightarrow> j \<le> i \<Longrightarrow> i = j"
    by (cases i; cases j) (simp_all add: less_eq_ohlcv_interval_def)
  show "i \<le> j \<or> j \<le> i" by (auto simp: less_eq_ohlcv_interval_def)
qed

end

definition parse_ohlcv_interval :: "string \<Rightarrow> ohlcv_interval" where
  "parse_ohlcv_interval s =
     (case map_of [(''1m'', M1), (''5m'', M5), (''15m'', M15), (''1h'', H1), (''1d'', D1), (''1w'', W1)]
        (c_str s) of None \<Rightarrow> UNKNOWN | Some i \<Rightarrow> i)"

definition interval_to_string :: "ohlcv_interval \<Rightarrow> string" where
  "interval_to_string i = find_or_default ''''
     (map_of [(M1, ''1m''), (M5, ''5m''), (M15, ''15m''), (H1, ''1h''), (D1, ''1d''), (W1, ''1w'')]) i"

text \<open>The switch has no case for \<open>UNKNOWN\<close>, and control runs off the end of the function.\<close>

fun to_seconds :: "ohlcv_interval \<Rightarrow> int res" where
  "to_seconds M1 = Inr 60"
| "to_seconds M5 = Inr 300"
| "to_seconds M15 = Inr 900"
| "to_seconds H1 = Inr 3600"
| "to_seconds D1 = Inr 86400"
| "to_seconds W1 = Inr 604800"
| "to_seconds UNKNOWN = Inl (Undefined_behaviour ''to_seconds'')"

definition to_minutes :: "ohlcv_interval \<Rightarrow> int res" where
  "to_minutes i = res_bind (to_seconds i) (\<lambda>s. Inr (s sdiv 60))"

definition from_seconds :: "int \<Rightarrow> ohlcv_interval" where
  "from_seconds s = (if s = 60 then M1 else if s = 300 then M5 else if s = 900 then M15
     else if s = 3600 then H1 else if s = 86400 then D1 else if s = 604800 then W1 else UNKNOWN)"

definition from_minutes :: "int \<Rightarrow> ohlcv_interval" where
  "from_minutes m = from_seconds (m * 60)"

section \<open>Subscriptions\<close>

record 'p subscription =
  sb_channel :: websocket_channel
  sb_pairItem :: 'p
  sb_parameter :: "ohlcv_interval option"

type_synonym websocket_subscription = "tradable_pair list subscription"
type_synonym unique_websocket_subscription = "tradable_pair subscription"
type_synonym named_subscription = "string subscription"

definition create_trade_sub :: "'p \<Rightarrow> 'p subscription" where
  "create_trade_sub item = \<lparr>sb_channel = TRADE, sb_pairItem = item, sb_parameter = None\<rparr>"

definition create_order_book_sub :: "'p \<Rightarrow> 'p subscription" where
  "create_order_book_sub item = \<lparr>sb_channel = ORDER_BOOK, sb_pairItem = item, sb_parameter = None\<rparr>"

definition create_ohlcv_sub :: "'p \<Rightarrow> ohlcv_interval \<Rightarrow> 'p subscription" where
  "create_ohlcv_sub item i = \<lparr>sb_channel = OHLCV, sb_pairItem = item, sb_parameter = Some i\<rparr>"

definition get_ohlcv_interval :: "'p subscription \<Rightarrow> ohlcv_interval res" where
  "get_ohlcv_interval s =
     (if sb_channel s \<noteq> OHLCV then Inl (Undefined_behaviour ''assert'')
      else case sb_parameter s of None \<Rightarrow> Inl Bad_variant_access | Some i \<Rightarrow> Inr i)"

definition subscription_equal :: "'p subscription \<Rightarrow> 'p subscription \<Rightarrow> bool res" where
  "subscription_equal s t =
     (if \<not> (sb_channel s = sb_channel t \<and> sb_pairItem s = sb_pairItem t) then Inr False
      else if sb_channel s = OHLCV
      then res_bind (get_ohlcv_interval s) (\<lambda>i. res_bind (get_ohlcv_interval t) (\<lambda>j. Inr (i = j)))
      else Inr True)"

section \<open>Update messages and the state of a stream\<close>

record trade_update_message =
  tm_pair :: tradable_pair
  tm_trade :: trade_update

record ohlcv_update_message =
  om_pair :: tradable_pair
  om_interval :: ohlcv_interval
  om_ohlcv :: ohlcv_data

record order_book_update_message =
  bm_pair :: tradable_pair
  bm_entry :: order_book_entry

text \<open>
  The handlers are names; what a handler does is the argument \<open>call\<close> of the functions that
  fire them, an operation on the whole state, whose field \<open>ws_client\<close> is the rest of the
  program. \<open>ws_pairsShared\<close> counts the shared locks on \<^verbatim>\<open>_pairs\<close> that the running
  thread holds: \<^verbatim>\<open>std::shared_mutex\<close> is not recursive, so asking for the unique lock
  while one is held never returns.
\<close>

record ('h, 'c, 'w) websocket_stream =
  ws_tradeUpdateHandlers :: "'h list"
  ws_ohlcvUpdateHandlers :: "'h list"
  ws_orderBookUpdateHandlers :: "'h list"
  ws_url :: string
  ws_pairSeparator :: char
  ws_trades :: "string \<rightharpoonup> trade_update"
  ws_ohlcv :: "string \<rightharpoonup> ohlcv_data"
  ws_orderBooks :: "string \<rightharpoonup> order_book_cache"
  ws_pairs :: "string \<rightharpoonup> tradable_pair"
  ws_connection :: "'c option"
  ws_pairsShared :: nat
  ws_client :: 'w

type_synonym ('h, 'c, 'w, 'a) ws_action = "(('h, 'c, 'w) websocket_stream, 'a) action"

definition create_websocket_stream :: "string \<Rightarrow> char \<Rightarrow> 'w \<Rightarrow> ('h, 'c, 'w) websocket_stream" where
  "create_websocket_stream url pairSeparator client =
     \<lparr>ws_tradeUpdateHandlers = [], ws_ohlcvUpdateHandlers = [], ws_orderBookUpdateHandlers = [],
      ws_url = url, ws_pairSeparator = pairSeparator, ws_trades = Map.empty, ws_ohlcv = Map.empty,
      ws_orderBooks = Map.empty, ws_pairs = Map.empty, ws_connection = None, ws_pairsShared = 0,
      ws_client = client\<rparr>"

definition add_trade_update_handler :: "'h \<Rightarrow> ('h, 'c, 'w, unit) ws_action" where
  "add_trade_update_handler h =
     act_modify (\<lambda>s. s\<lparr>ws_tradeUpdateHandlers := ws_tradeUpdateHandlers s @ [h]\<rparr>)"

definition add_ohlcv_update_handler :: "'h \<Rightarrow> ('h, 'c, 'w, unit) ws_action" where
  "add_ohlcv_update_handler h =
     act_modify (\<lambda>s. s\<lparr>ws_ohlcvUpdateHandlers := ws_ohlcvUpdateHandlers s @ [h]\<rparr>)"

definition add_order_book_update_handler :: "'h \<Rightarrow> ('h, 'c, 'w, unit) ws_action" where
  "add_order_book_update_handler h =
     act_modify (\<lambda>s. s\<lparr>ws_orderBookUpdateHandlers := ws_orderBookUpdateHandlers s @ [h]\<rparr>)"

definition fire_handlers ::
    "('h \<Rightarrow> 'm \<Rightarrow> ('s, unit) action) \<Rightarrow> ('s \<Rightarrow> 'h list) \<Rightarrow> 'm \<Rightarrow> ('s, unit) action" where
  "fire_handlers call handlers message s = act_iter (\<lambda>h. call h message) (handlers s) s"

definition fire_trade_update ::
    "('h \<Rightarrow> trade_update_message \<Rightarrow> ('h, 'c, 'w, unit) ws_action) \<Rightarrow> trade_update_message \<Rightarrow>
     ('h, 'c, 'w, unit) ws_action" where
  "fire_trade_update call message s =
     (if ws_tradeUpdateHandlers s \<noteq> [] then fire_handlers call ws_tradeUpdateHandlers message s
      else (Inr (), s))"

definition fire_ohlcv_update ::
    "('h \<Rightarrow> ohlcv_update_message \<Rightarrow> ('h, 'c, 'w, unit) ws_action) \<Rightarrow> ohlcv_update_message \<Rightarrow>
     ('h, 'c, 'w, unit) ws_action" where
  "fire_ohlcv_update call message s =
     (if ws_ohlcvUpdateHandlers s \<noteq> [] then fire_handlers call ws_ohlcvUpdateHandlers message s
      else (Inr (), s))"

definition fire_order_book_update ::
    "('h \<Rightarrow> order_book_update_message \<Rightarrow> ('h, 'c, 'w, unit) ws_action) \<Rightarrow> order_book_update_message \<Rightarrow>
     ('h, 'c, 'w, unit) ws_action" where
  "fire_order_book_update call message s =
     (if ws_orderBookUpdateHandlers s \<noteq> [] then fire_handlers call ws_orderBookUpdateHandlers message s
      else (Inr (), s))"

section \<open>The stream of an exchange\<close>

definition create_ohlcv_sub_id :: "string \<Rightarrow> ohlcv_interval \<Rightarrow> string" where
  "create_ohlcv_sub_id pairName interval = pairName @ interval_to_string interval"

definition store_trade ::
    "string \<Rightarrow> trade_update \<Rightarrow> ('h, 'c, 'w) websocket_stream \<Rightarrow> ('h, 'c, 'w) websocket_stream" where
  "store_trade pairName trade s = s\<lparr>ws_trades := (ws_trades s)(pairName \<mapsto> trade)\<rparr>"

definition store_ohlcv ::
    "string \<Rightarrow> ohlcv_data \<Rightarrow> ('h, 'c, 'w) websocket_stream \<Rightarrow> ('h, 'c, 'w) websocket_stream" where
  "store_ohlcv subId ohlcvData s = s\<lparr>ws_ohlcv := (ws_ohlcv s)(subId \<mapsto> ohlcvData)\<rparr>"

definition store_order_book ::
    "string \<Rightarrow> order_book_cache \<Rightarrow> ('h, 'c, 'w) websocket_stream \<Rightarrow> ('h, 'c, 'w) websocket_stream" where
  "store_order_book pairName cache s = s\<lparr>ws_orderBooks := (ws_orderBooks s)(pairName \<mapsto> cache)\<rparr>"

abbreviation ws_pair_name :: "('h, 'c, 'w) websocket_stream \<Rightarrow> tradable_pair \<Rightarrow> string" where
  "ws_pair_name s pair \<equiv> pair_to_string pair (ws_pairSeparator s)"

definition clear_subscriptions :: "('h, 'c, 'w, unit) ws_action" where
  "clear_subscriptions = act_modify (\<lambda>s. s\<lparr>ws_trades := Map.empty, ws_ohlcv := Map.empty,
     ws_orderBooks := Map.empty\<rparr>)"

text \<open>Calling a member of a null \<^verbatim>\<open>_connection\<close> is undefined behaviour.\<close>

definition ws_disconnect :: "('c \<Rightarrow> unit res) \<Rightarrow> ('h, 'c, 'w, unit) ws_action" where
  "ws_disconnect close =
     act_seq (act_res (\<lambda>s. case ws_connection s of
                None \<Rightarrow> Inl (Undefined_behaviour ''null connection'') | Some c \<Rightarrow> close c))
       clear_subscriptions"

definition ws_reset ::
    "('c \<Rightarrow> unit res) \<Rightarrow> (string \<Rightarrow> 'c res) \<Rightarrow> ('h, 'c, 'w, unit) ws_action" where
  "ws_reset close create_connection =
     act_bind (act_read (\<lambda>s. ws_connection s \<noteq> None)) (\<lambda>connected.
     act_seq (if connected then ws_disconnect close else act_return ())
       (act_bind (act_res (\<lambda>s. create_connection (c_str (ws_url s)))) (\<lambda>c.
        act_modify (\<lambda>s. s\<lparr>ws_connection := Some c\<rparr>))))"

definition ws_connection_status_of ::
    "('c \<Rightarrow> ws_connection_status res) \<Rightarrow> ('h, 'c, 'w) websocket_stream \<Rightarrow> ws_connection_status res" where
  "ws_connection_status_of status s =
     (case ws_connection s of None \<Rightarrow> Inr WS_CLOSED | Some c \<Rightarrow> status c)"

definition lock_pairs_unique :: "('h, 'c, 'w, unit) ws_action" where
  "lock_pairs_unique = act_res (\<lambda>s. if ws_pairsShared s = 0 then Inr ()
     else Inl (Undefined_behaviour ''unique lock while holding a shared lock''))"

definition ws_subscribe ::
    "(websocket_subscription \<Rightarrow> ('h, 'c, 'w, unit) ws_action) \<Rightarrow> websocket_subscription \<Rightarrow>
     ('h, 'c, 'w, unit) ws_action" where
  "ws_subscribe send_subscribe subscription =
     act_seq lock_pairs_unique
       (act_seq (act_iter (\<lambda>pair. act_modify (\<lambda>s.
            if ws_pairs s (ws_pair_name s pair) = None
            then s\<lparr>ws_pairs := (ws_pairs s)(ws_pair_name s pair \<mapsto> pair)\<rparr> else s))
          (sb_pairItem subscription))
        (send_subscribe subscription))"

definition ws_unsubscribe ::
    "(websocket_subscription \<Rightarrow> ('h, 'c, 'w, unit) ws_action) \<Rightarrow> websocket_subscription \<Rightarrow>
     ('h, 'c, 'w, unit) ws_action" where
  "ws_unsubscribe send_unsubscribe subscription = send_unsubscribe subscription"

text \<open>The \<^verbatim>\<open>default\<close> of the switch is not reachable: the channel has three values.\<close>

definition set_unsubscribed :: "named_subscription \<Rightarrow> ('h, 'c, 'w, unit) ws_action" where
  "set_unsubscribed subscription =
     (case sb_channel subscription of
        TRADE \<Rightarrow> act_modify (\<lambda>s. s\<lparr>ws_trades := (ws_trades s)(sb_pairItem subscription := None)\<rparr>)
      | OHLCV \<Rightarrow> act_bind (act_res (\<lambda>_. get_ohlcv_interval subscription)) (\<lambda>i.
          act_modify (\<lambda>s. s\<lparr>ws_ohlcv :=
            (ws_ohlcv s)(create_ohlcv_sub_id (sb_pairItem subscription) i := None)\<rparr>))
      | ORDER_BOOK \<Rightarrow> act_modify (\<lambda>s. s\<lparr>ws_orderBooks :=
            (ws_orderBooks s)(sb_pairItem subscription := None)\<rparr>))"

text \<open>
  \<^verbatim>\<open>_pairs.shared_lock()->at(pairName)\<close> is part of the expression that fires the
  handlers, and its lock lives until the end of that expression.
\<close>

definition with_shared_pair ::
    "string \<Rightarrow> (tradable_pair \<Rightarrow> ('h, 'c, 'w, unit) ws_action) \<Rightarrow> ('h, 'c, 'w, unit) ws_action" where
  "with_shared_pair pairName f s =
     (case ws_pairs s pairName of
        None \<Rightarrow> (Inl (Out_of_range ''unordered_map::at''), s)
      | Some pair \<Rightarrow>
          (case f pair (s\<lparr>ws_pairsShared := ws_pairsShared s + 1\<rparr>) of
             (r, t) \<Rightarrow> (r, t\<lparr>ws_pairsShared := ws_pairsShared t - 1\<rparr>)))"

definition ws_update_trade ::
    "('h \<Rightarrow> trade_update_message \<Rightarrow> ('h, 'c, 'w, unit) ws_action) \<Rightarrow> string \<Rightarrow> trade_update \<Rightarrow>
     ('h, 'c, 'w, unit) ws_action" where
  "ws_update_trade call pairName trade =
     act_seq (act_modify (store_trade pairName trade))
       (act_bind (act_read (\<lambda>s. ws_tradeUpdateHandlers s \<noteq> [])) (\<lambda>has.
          if has then with_shared_pair pairName (\<lambda>pair.
                 fire_trade_update call \<lparr>tm_pair = pair, tm_trade = trade\<rparr>)
          else act_return ()))"

definition ws_update_ohlcv ::
    "('h \<Rightarrow> ohlcv_update_message \<Rightarrow> ('h, 'c, 'w, unit) ws_action) \<Rightarrow> string \<Rightarrow> ohlcv_interval \<Rightarrow>
     ohlcv_data \<Rightarrow> ('h, 'c, 'w, unit) ws_action" where
  "ws_update_ohlcv call pairName interval ohlcvData =
     act_seq (act_modify (store_ohlcv (create_ohlcv_sub_id pairName interval) ohlcvData))
       (act_bind (act_read (\<lambda>s. ws_ohlcvUpdateHandlers s \<noteq> [])) (\<lambda>has.
          if has then with_shared_pair pairName (\<lambda>pair.
                 fire_ohlcv_update call \<lparr>om_pair = pair, om_interval = interval, om_ohlcv = ohlcvData\<rparr>)
          else act_return ()))"

definition initialise_order_book ::
    "('h \<Rightarrow> order_book_update_message \<Rightarrow> ('h, 'c, 'w, unit) ws_action) \<Rightarrow> string \<Rightarrow>
     order_book_cache \<Rightarrow> ('h, 'c, 'w, unit) ws_action" where
  "initialise_order_book call pairName cache =
     act_seq (act_modify (store_order_book pairName cache))
       (act_bind (act_read (\<lambda>s. ws_orderBookUpdateHandlers s \<noteq> [])) (\<lambda>has.
          if has then with_shared_pair pairName (\<lambda>pair.
                 fire_order_book_update call \<lparr>bm_pair = pair,
                   bm_entry = \<lparr>oe_price = 0, oe_volume = 0, oe_side = ASK\<rparr>\<rparr>)
          else act_return ()))"

definition empty_order_book_cache :: order_book_cache where
  "empty_order_book_cache = \<lparr>bc_lastUpdate = 0, bc_asks = [], bc_bids = []\<rparr>"

definition ws_update_order_book ::
    "('h \<Rightarrow> order_book_update_message \<Rightarrow> ('h, 'c, 'w, unit) ws_action) \<Rightarrow> string \<Rightarrow> time_t \<Rightarrow>
     order_book_entry \<Rightarrow> ('h, 'c, 'w, unit) ws_action" where
  "ws_update_order_book call pairName timeStamp entry =
     act_seq (act_modify (\<lambda>s. case ws_orderBooks s pairName of
           None \<Rightarrow> store_order_book pairName (update_cache timeStamp entry empty_order_book_cache)
                     (store_order_book pairName empty_order_book_cache s)
         | Some cache \<Rightarrow> store_order_book pairName (update_cache timeStamp entry cache) s))
       (act_bind (act_read (\<lambda>s. ws_orderBookUpdateHandlers s \<noteq> [])) (\<lambda>has.
          if has then with_shared_pair pairName (\<lambda>pair.
                 fire_order_book_update call \<lparr>bm_pair = pair, bm_entry = entry\<rparr>)
          else act_return ()))"

definition get_subscription_status ::
    "('h, 'c, 'w) websocket_stream \<Rightarrow> unique_websocket_subscription \<Rightarrow> subscription_status res" where
  "get_subscription_status s subscription =
     (let pairName = ws_pair_name s (sb_pairItem subscription);
          subscribed = (case sb_channel subscription of
              TRADE \<Rightarrow> Inr (ws_trades s pairName \<noteq> None)
            | OHLCV \<Rightarrow> res_bind (get_ohlcv_interval subscription) (\<lambda>i.
                Inr (ws_ohlcv s (create_ohlcv_sub_id pairName i) \<noteq> None))
            | ORDER_BOOK \<Rightarrow> Inr (ws_orderBooks s pairName \<noteq> None))
      in res_bind subscribed (\<lambda>b. Inr (if b then SUBSCRIBED else UNSUBSCRIBED)))"

definition get_order_book ::
    "('h, 'c, 'w) websocket_stream \<Rightarrow> tradable_pair \<Rightarrow> int \<Rightarrow> order_book_state res" where
  "get_order_book s pair depth =
     (case ws_orderBooks s (ws_pair_name s pair) of
        Some cache \<Rightarrow> snapshot cache depth
      | None \<Rightarrow> Inr \<lparr>ob_timeStamp = 0, ob_asks = [], ob_bids = []\<rparr>)"

definition get_last_trade :: "('h, 'c, 'w) websocket_stream \<Rightarrow> tradable_pair \<Rightarrow> trade_update" where
  "get_last_trade s pair = find_or_default empty_trade_update (ws_trades s) (ws_pair_name s pair)"

definition get_last_candle ::
    "('h, 'c, 'w) websocket_stream \<Rightarrow> tradable_pair \<Rightarrow> ohlcv_interval \<Rightarrow> ohlcv_data" where
  "get_last_candle s pair interval =
     find_or_default empty_ohlcv (ws_ohlcv s) (create_ohlcv_sub_id (ws_pair_name s pair) interval)"

section \<open>Candles from trades for the subscribed intervals\<close>

record 'w ohlcv_subscription_service =
  os_subscriptions :: "(string \<times> (ohlcv_interval \<times> ohlcv_from_trades) list) list"
  os_pairSeparator :: char
  os_client :: 'w

type_synonym ('w, 'a) os_action = "('w ohlcv_subscription_service, 'a) action"

definition os_intervals ::
    "'w ohlcv_subscription_service \<Rightarrow> string \<Rightarrow> (ohlcv_interval \<times> ohlcv_from_trades) list" where
  "os_intervals s name = (case map_of (os_subscriptions s) name of None \<Rightarrow> [] | Some m \<Rightarrow> m)"

definition os_is_subscribed :: "'w ohlcv_subscription_service \<Rightarrow> string \<Rightarrow> bool" where
  "os_is_subscribed s pairName = contains (os_subscriptions s) (c_str pairName)"

definition os_call ::
    "(string \<Rightarrow> ohlcv_interval \<Rightarrow> ohlcv_data \<Rightarrow> ('w, unit) action) \<Rightarrow>
     string \<Rightarrow> ohlcv_interval \<Rightarrow> ohlcv_data \<Rightarrow> ('w, unit) os_action" where
  "os_call updateOhlcv name i d s =
     (case updateOhlcv name i d (os_client s) of (r, w) \<Rightarrow> (r, s\<lparr>os_client := w\<rparr>))"

definition add_subscription ::
    "(tradable_pair \<Rightarrow> ohlcv_interval \<Rightarrow> int \<Rightarrow> ohlcv_data list res) \<Rightarrow>
     (string \<Rightarrow> ohlcv_interval \<Rightarrow> ohlcv_data \<Rightarrow> ('w, unit) action) \<Rightarrow>
     websocket_subscription \<Rightarrow> ('w, unit) os_action" where
  "add_subscription market_get_ohlcv updateOhlcv subscription =
     act_bind (act_res (\<lambda>_. get_ohlcv_interval subscription)) (\<lambda>ohlcvInterval.
     act_bind (act_res (\<lambda>_. to_seconds ohlcvInterval)) (\<lambda>interval.
     act_iter (\<lambda>pair.
       act_bind (act_res (\<lambda>_. market_get_ohlcv pair ohlcvInterval 1)) (\<lambda>ohlcvData.
       let latestOhlcv = (case ohlcvData of [] \<Rightarrow> empty_ohlcv | d # _ \<Rightarrow> d) in
       act_bind (act_read (\<lambda>s. pair_to_string pair (os_pairSeparator s))) (\<lambda>pairName.
       act_seq (act_modify (\<lambda>s. s\<lparr>os_subscriptions := AList.update pairName
            (emplace ohlcvInterval (create_ohlcv_from_trades latestOhlcv interval) (os_intervals s pairName))
            (os_subscriptions s)\<rparr>))
         (os_call updateOhlcv pairName ohlcvInterval latestOhlcv))))
       (sb_pairItem subscription)))"

definition remove_subscription :: "websocket_subscription \<Rightarrow> ('w, unit) os_action" where
  "remove_subscription subscription =
     act_bind (act_res (\<lambda>_. get_ohlcv_interval subscription)) (\<lambda>interval.
     act_iter (\<lambda>pair. act_modify (\<lambda>s.
        let pairName = pair_to_string pair (os_pairSeparator s);
            rest = AList.delete interval (os_intervals s pairName);
            subs = AList.update pairName rest (os_subscriptions s)
        in s\<lparr>os_subscriptions := (if rest = [] then AList.delete pairName subs else subs)\<rparr>))
       (sb_pairItem subscription))"

definition os_update_ohlcv ::
    "(string \<Rightarrow> ohlcv_interval \<Rightarrow> ohlcv_data \<Rightarrow> ('w, unit) action) \<Rightarrow>
     string \<Rightarrow> time_t \<Rightarrow> double \<Rightarrow> double \<Rightarrow> ('w, unit) os_action" where
  "os_update_ohlcv updateOhlcv pairName time price volume =
     (let key = c_str pairName in
      act_bind (act_read (\<lambda>s. map_of (os_subscriptions s) key)) (\<lambda>found. case found of
        None \<Rightarrow> act_throw (Mb_exception (''OHLCV is not subscribed for pair '' @ pairName))
      | Some m \<Rightarrow> act_iter (\<lambda>interval.
          act_bind (act_res (\<lambda>s. case map_of (os_intervals s key) interval of
                None \<Rightarrow> Inl (Undefined_behaviour ''iterator'') | Some oft \<Rightarrow> add_trade time price volume oft))
            (\<lambda>oft.
          act_seq (act_modify (\<lambda>s. s\<lparr>os_subscriptions :=
               AList.update key (AList.update interval oft (os_intervals s key)) (os_subscriptions s)\<rparr>))
          (act_bind (act_res (\<lambda>_. ft_get_ohlcv time oft)) (\<lambda>(d, oft').
          act_seq (act_modify (\<lambda>s. s\<lparr>os_subscriptions :=
               AList.update key (AList.update interval oft' (os_intervals s key)) (os_subscriptions s)\<rparr>))
            (os_call updateOhlcv pairName interval d)))))
          (map fst m)))"

section \<open>The contract of the per-channel stores\<close>

text \<open>
  Each channel keeps the last value received for a key: storing makes the key subscribed,
  \<^verbatim>\<open>set_unsubscribed\<close> removes it. The history of a store decides the status.
\<close>

definition store_event ::
    "(string \<Rightarrow> 'v \<Rightarrow> 's \<Rightarrow> 's) \<Rightarrow> (string \<Rightarrow> 's \<Rightarrow> 's) \<Rightarrow> string \<times> 'v option \<Rightarrow> 's \<Rightarrow> 's" where
  "store_event put del e s = (case snd e of Some v \<Rightarrow> put (fst e) v s | None \<Rightarrow> del (fst e) s)"

locale channel_store =
  fixes fetch :: "'s \<Rightarrow> string \<Rightarrow> 'v option"
    and put :: "string \<Rightarrow> 'v \<Rightarrow> 's \<Rightarrow> 's"
    and del :: "string \<Rightarrow> 's \<Rightarrow> 's"
  assumes fetch_put: "fetch (put k v s) = (fetch s)(k \<mapsto> v)"
    and fetch_del: "fetch (del k s) = (fetch s)(k := None)"
begin

lemma fetch_event: "fetch (store_event put del e s) = (fetch s)(fst e := snd e)"
  by (simp add: store_event_def fetch_put fetch_del split: option.splits)

lemma fetch_history:
  "fetch (fold (store_event put del) es s) k =
     (case filter (\<lambda>e. fst e = k) es of [] \<Rightarrow> fetch s k | e # r \<Rightarrow> snd (last (e # r)))"
proof (induction es arbitrary: s)
  case Nil
  then show ?case by simp
next
  case (Cons e es)
  show ?case by (cases "filter (\<lambda>e. fst e = k) es") (auto simp: Cons.IH fetch_event)
qed

end

definition erase_channel :: "websocket_channel \<Rightarrow> string \<Rightarrow> ('h, 'c, 'w) websocket_stream \<Rightarrow> ('h, 'c, 'w) websocket_stream" where
  "erase_channel ch name s = snd (set_unsubscribed \<lparr>sb_channel = ch, sb_pairItem = name, sb_parameter = None\<rparr> s)"

definition erase_ohlcv :: "string \<Rightarrow> ('h, 'c, 'w) websocket_stream \<Rightarrow> ('h, 'c, 'w) websocket_stream" where
  "erase_ohlcv subId s = s\<lparr>ws_ohlcv := (ws_ohlcv s)(subId := None)\<rparr>"

lemma set_unsubscribed_ohlcv:
  "set_unsubscribed (create_ohlcv_sub name i) s = (Inr (), erase_ohlcv (create_ohlcv_sub_id name i) s)"
  by (simp add: set_unsubscribed_def create_ohlcv_sub_def get_ohlcv_interval_def erase_ohlcv_def act_simps)

interpretation trade_store: channel_store ws_trades store_trade "erase_channel TRADE"
  by unfold_locales (simp_all add: store_trade_def erase_channel_def set_unsubscribed_def act_simps)

interpretation ohlcv_store: channel_store ws_ohlcv store_ohlcv erase_ohlcv
  by unfold_locales (simp_all add: store_ohlcv_def erase_ohlcv_def)

interpretation book_store: channel_store ws_orderBooks store_order_book "erase_channel ORDER_BOOK"
  by unfold_locales (simp_all add: store_order_book_def erase_channel_def set_unsubscribed_def act_simps)

section \<open>Properties\<close>

text \<open>
  The conversions of the candle intervals invert each other: the seconds of an interval
  give it back, a number of seconds is recognised only where it is the length of an interval,
  and the name of an interval parses to it; only \<^verbatim>\<open>UNKNOWN\<close> has no length.
\<close>

lemma interval_conversions:
  "(\<forall>n. to_seconds i = Inr n \<longleftrightarrow> from_seconds n = i \<and> i \<noteq> UNKNOWN)
   \<and> parse_ohlcv_interval (interval_to_string i) = i
   \<and> res_bind (to_minutes i) (\<lambda>m. Inr (from_minutes m)) =
       (if i = UNKNOWN then Inl (Undefined_behaviour ''to_seconds'') else Inr i)"
  by (cases i) (auto simp: from_seconds_def from_minutes_def to_minutes_def parse_ohlcv_interval_def
      interval_to_string_def find_or_default_def c_str_def signed_divide_int_def)

lemma interval_string_tail:
  "i \<noteq> UNKNOWN \<Longrightarrow> \<exists>pre. interval_to_string i = pre @ [last (interval_to_string i)]"
  by (cases i) (auto simp: interval_to_string_def find_or_default_def)

text \<open>
  The keys of the candle store tell pairs and intervals apart when no pair name ends in
  the digit 1.
\<close>

lemma ohlcv_sub_id_inject:
  assumes "a = [] \<or> last a \<noteq> CHR ''1''" "b = [] \<or> last b \<noteq> CHR ''1''"
    and "i \<noteq> UNKNOWN" "j \<noteq> UNKNOWN"
    and "create_ohlcv_sub_id a i = create_ohlcv_sub_id b j"
  shows "a = b \<and> i = j"
proof -
  have r: "rev (interval_to_string i) @ rev a = rev (interval_to_string j) @ rev b"
    using arg_cong [OF assms(5), of rev] by (simp add: create_ohlcv_sub_id_def)
  have n: "rev a \<noteq> CHR ''1'' # x" "rev b \<noteq> CHR ''1'' # x" for x
    using assms(1,2) by auto
  have "rev a = rev b \<and> i = j"
    using r assms(3,4) n [of "rev a"] n [of "rev b"] n(1) [of "rev b", symmetric] n(2) [of "rev a", symmetric]
    by (cases i; cases j) (simp_all add: interval_to_string_def find_or_default_def)
  then show ?thesis by simp
qed

lemma ohlcv_sub_id_inject_example:
  "create_ohlcv_sub_id ''BTC/USD'' M5 \<noteq> create_ohlcv_sub_id ''BTC/USD'' M15"
  using ohlcv_sub_id_inject [of "''BTC/USD''" "''BTC/USD''" M5 M15] by auto

text \<open>
  A pair whose name ends in 1 shares a key with another pair: the five-minute candle of
  BTC/USD1 is stored over the fifteen-minute candle of BTC/USD and returned for it.
\<close>

lemma ohlcv_sub_id_collision:
  "get_last_candle (snd (ws_update_ohlcv call ''BTC/USD1'' M5 d
       (create_websocket_stream url (CHR ''/'') w)))
     \<lparr>tp_asset = ''BTC'', tp_priceUnit = ''USD''\<rparr> M15 = d"
  by (simp add: ws_update_ohlcv_def create_websocket_stream_def act_simps store_ohlcv_def
      get_last_candle_def create_ohlcv_sub_id_def interval_to_string_def find_or_default_def
      pair_to_string_def)

lemma subscribe_loop:
  "fold (\<lambda>pair s. if ws_pairs s (ws_pair_name s pair) = None
          then s\<lparr>ws_pairs := (ws_pairs s)(ws_pair_name s pair \<mapsto> pair)\<rparr> else s) ps s =
   s\<lparr>ws_pairs := map_of (map (\<lambda>p. (ws_pair_name s p, p)) ps) ++ ws_pairs s\<rparr>"
proof (induction ps arbitrary: s)
  case Nil
  then show ?case by simp
next
  case (Cons p ps)
  show ?case
    by (auto simp: Cons.IH map_add_def fun_eq_iff split: option.splits intro!: websocket_stream.equality)
qed

lemma ws_subscribe_eq:
  "ws_subscribe send sub s =
     (if ws_pairsShared s = 0
      then send sub (s\<lparr>ws_pairs :=
        map_of (map (\<lambda>p. (ws_pair_name s p, p)) (sb_pairItem sub)) ++ ws_pairs s\<rparr>)
      else (Inl (Undefined_behaviour ''unique lock while holding a shared lock''), s))"
  by (simp add: ws_subscribe_def lock_pairs_unique_def act_simps subscribe_loop
      act_iter_modify [unfolded act_modify_def])


text \<open>Handlers that record each call they get, in order.\<close>

definition log_call :: "'h \<Rightarrow> 'm \<Rightarrow> ('h, 'c, ('h \<times> 'm) list, unit) ws_action" where
  "log_call h m = act_modify (\<lambda>s. s\<lparr>ws_client := ws_client s @ [(h, m)]\<rparr>)"

lemma log_calls:
  "act_iter (\<lambda>h. log_call h m) hs s = (Inr (), s\<lparr>ws_client := ws_client s @ map (\<lambda>h. (h, m)) hs\<rparr>)"
  by (induction hs arbitrary: s) (simp_all add: log_call_def act_simps)

text \<open>
  C22: after a subscription, a trade for one of its pairs is stored under the name of the pair
  and passed to every handler once, in the order of registration, with a pair of that name; it
  leaves the last trades of the other names alone.
\<close>

theorem subscribed_trade_delivered:
  assumes "ws_pairsShared s = 0" "pair \<in> set (sb_pairItem sub)"
    and "(r, s1) = ws_subscribe (\<lambda>_. act_return ()) sub s"
    and "(r', s2) = ws_update_trade log_call (ws_pair_name s pair) t s1"
  shows "r = Inr () \<and> r' = Inr () \<and> get_last_trade s2 pair = t \<and> ws_pairsShared s2 = 0
    \<and> (\<forall>other. ws_pair_name s other \<noteq> ws_pair_name s pair \<longrightarrow>
          get_last_trade s2 other = get_last_trade s other)
    \<and> (\<exists>p. ws_pairs s1 (ws_pair_name s pair) = Some p
        \<and> (ws_pairs s (ws_pair_name s pair) = None \<longrightarrow> ws_pair_name s p = ws_pair_name s pair)
        \<and> ws_client s2 = ws_client s @
            map (\<lambda>h. (h, \<lparr>tm_pair = p, tm_trade = t\<rparr>)) (ws_tradeUpdateHandlers s))"
proof -
  let ?n = "ws_pair_name s pair" and ?new = "map_of (map (\<lambda>p. (ws_pair_name s p, p)) (sb_pairItem sub))"
  have s1: "r = Inr ()" "s1 = s\<lparr>ws_pairs := ?new ++ ws_pairs s\<rparr>"
    using assms(1,3) by (simp_all add: ws_subscribe_eq act_simps)
  have "?new ?n \<noteq> None" using assms(2) by (auto simp: map_of_eq_None_iff image_image)
  then obtain q where q: "?new ?n = Some q" by blast
  then have qn: "ws_pair_name s q = ?n" by (auto dest!: map_of_SomeD)
  have "ws_pairs s1 ?n = Some (case ws_pairs s ?n of None \<Rightarrow> q | Some p \<Rightarrow> p)"
    by (simp add: s1 map_add_def q split: option.split)
  with qn obtain p where p: "ws_pairs s1 ?n = Some p"
      "ws_pairs s ?n = None \<longrightarrow> ws_pair_name s p = ?n"
    by fastforce
  have "(r', s2) = (Inr (), s1\<lparr>ws_trades := (ws_trades s1)(?n \<mapsto> t), ws_client := ws_client s1 @
      map (\<lambda>h. (h, \<lparr>tm_pair = p, tm_trade = t\<rparr>)) (ws_tradeUpdateHandlers s1)\<rparr>)"
    using p(1)
    by (cases "ws_tradeUpdateHandlers s1 = []")
       (simp_all add: assms(4) ws_update_trade_def act_simps store_trade_def with_shared_pair_def
        fire_trade_update_def fire_handlers_def log_calls)
  with p assms(1) s1 show ?thesis by (auto simp: get_last_trade_def find_or_default_def)
qed

theorem subscribed_trade_delivered_witness:
  "let pair = \<lparr>tp_asset = ''BTC'', tp_priceUnit = ''GBP''\<rparr>;
       s = snd (add_trade_update_handler (7 :: nat) (create_websocket_stream ''wss'' (CHR ''/'') [] :: (nat, nat, (nat \<times> trade_update_message) list) websocket_stream));
       s1 = snd (ws_subscribe (\<lambda>_. act_return ()) (create_trade_sub [pair]) s);
       t = \<lparr>tu_timeStamp = 5, tu_price = Fin 3, tu_volume = Fin 1\<rparr>;
       s2 = snd (ws_update_trade log_call ''BTC/GBP'' t s1)
   in get_last_trade s2 pair = t \<and> ws_client s2 = [(7, \<lparr>tm_pair = pair, tm_trade = t\<rparr>)]"
proof -
  let ?pair = "\<lparr>tp_asset = ''BTC'', tp_priceUnit = ''GBP''\<rparr>"
  let ?s = "snd (add_trade_update_handler (7 :: nat) (create_websocket_stream ''wss'' (CHR ''/'') [] :: (nat, nat, (nat \<times> trade_update_message) list) websocket_stream))"
  let ?s1 = "snd (ws_subscribe (\<lambda>_. act_return ()) (create_trade_sub [?pair]) ?s)"
  let ?t = "\<lparr>tu_timeStamp = 5, tu_price = Fin 3, tu_volume = Fin 1\<rparr>"
  have s: "ws_pairsShared ?s = 0" "ws_client ?s = []" "ws_tradeUpdateHandlers ?s = [7]"
      "ws_pair_name ?s ?pair = ''BTC/GBP''" "ws_pairs ?s = Map.empty"
    by (simp_all add: add_trade_update_handler_def create_websocket_stream_def act_simps pair_to_string_def)
  have p: "?pair \<in> set (sb_pairItem (create_trade_sub [?pair]))" by (simp add: create_trade_sub_def)
  have known: "ws_pairs ?s1 ''BTC/GBP'' = Some ?pair"
    by (simp add: ws_subscribe_eq s act_simps create_trade_sub_def)
  let ?s2 = "snd (ws_update_trade log_call (ws_pair_name ?s ?pair) ?t ?s1)"
  have d: "get_last_trade ?s2 ?pair = ?t"
    and "\<exists>p. ws_pairs ?s1 (ws_pair_name ?s ?pair) = Some p \<and> ws_client ?s2 = ws_client ?s @
            map (\<lambda>h. (h, \<lparr>tm_pair = p, tm_trade = ?t\<rparr>)) (ws_tradeUpdateHandlers ?s)"
    using subscribed_trade_delivered [OF s(1) p surjective_pairing [symmetric] surjective_pairing [symmetric]]
    by blast+
  then have "ws_client ?s2 = [(7, \<lparr>tm_pair = ?pair, tm_trade = ?t\<rparr>)]"
    using known by (simp only: s option.inject) (auto simp: s)
  with d show ?thesis unfolding Let_def s(4) by (rule conjI)
qed

text \<open>
  A handler of trade updates that subscribes never returns: the update holds the shared
  lock of \<^verbatim>\<open>_pairs\<close> while the handlers run, and \<^verbatim>\<open>subscribe\<close> asks for the unique one.
\<close>

lemma subscribe_in_handler_deadlocks:
  assumes "ws_tradeUpdateHandlers s = h # hs" "ws_pairs s name = Some pair"
    and "\<And>m. call h m = ws_subscribe send (sub m)"
  shows "fst (ws_update_trade call name t s) =
    Inl (Undefined_behaviour ''unique lock while holding a shared lock'')"
  using assms
  by (simp add: ws_update_trade_def act_simps store_trade_def with_shared_pair_def
      fire_trade_update_def fire_handlers_def ws_subscribe_eq)

lemma subscribe_in_handler_deadlocks_example:
  "fst (ws_update_trade (\<lambda>h m. ws_subscribe (\<lambda>_. act_return ()) (create_trade_sub [tm_pair m])) ''BTC/GBP'' empty_trade_update
     ((create_websocket_stream ''wss'' (CHR ''/'') () :: (unit, nat, unit) websocket_stream)\<lparr>ws_tradeUpdateHandlers := [()],
       ws_pairs := [''BTC/GBP'' \<mapsto> \<lparr>tp_asset = ''BTC'', tp_priceUnit = ''GBP''\<rparr>]\<rparr>)) =
    Inl (Undefined_behaviour ''unique lock while holding a shared lock'')"
  by (rule subscribe_in_handler_deadlocks [where h = "()" and hs = "[]"
        and pair = "\<lparr>tp_asset = ''BTC'', tp_priceUnit = ''GBP''\<rparr>"
        and send = "\<lambda>_. act_return ()" and sub = "\<lambda>m. create_trade_sub [tm_pair m]"]) simp_all

text \<open>
  The status of a trade subscription is decided by the history of the store: a pair is
  subscribed when the last message for its name was a trade, unsubscribed when the last one
  confirmed its unsubscription, and as before when there was none.
\<close>

lemma trade_subscription_history:
  "get_subscription_status (fold (store_event store_trade (erase_channel TRADE)) es s)
     (create_trade_sub pair) = Inr
     (case filter (\<lambda>e. fst e = ws_pair_name s pair) es of
        [] \<Rightarrow> if ws_trades s (ws_pair_name s pair) = None then UNSUBSCRIBED else SUBSCRIBED
      | e # r \<Rightarrow> if snd (last (e # r)) = None then UNSUBSCRIBED else SUBSCRIBED)"
proof -
  have "ws_pairSeparator (fold (store_event store_trade (erase_channel TRADE)) es s) = ws_pairSeparator s"
    by (induction es arbitrary: s)
       (auto simp: store_event_def store_trade_def erase_channel_def set_unsubscribed_def act_simps
         split: option.splits)
  then show ?thesis
    by (simp add: get_subscription_status_def create_trade_sub_def trade_store.fetch_history
        split: list.splits)
qed

section \<open>The candles of the subscribed intervals\<close>

definition log_ohlcv ::
    "string \<Rightarrow> ohlcv_interval \<Rightarrow> ohlcv_data \<Rightarrow> ((string \<times> ohlcv_interval \<times> ohlcv_data) list, unit) action" where
  "log_ohlcv name i d = act_modify (\<lambda>w. w @ [(name, i, d)])"

text \<open>One candle after one trade: the code adds the trade and reads the candle at its time.\<close>

definition candle_after ::
    "time_t \<Rightarrow> double \<Rightarrow> double \<Rightarrow> ohlcv_from_trades \<Rightarrow> (ohlcv_data \<times> ohlcv_from_trades) res" where
  "candle_after time price volume oft =
     res_bind (add_trade time price volume oft) (ft_get_ohlcv time)"

definition os_step ::
    "string \<Rightarrow> string \<Rightarrow> time_t \<Rightarrow> double \<Rightarrow> double \<Rightarrow> ohlcv_interval \<Rightarrow>
     ((string \<times> ohlcv_interval \<times> ohlcv_data) list, unit) os_action" where
  "os_step key pairName time price volume interval =
     act_bind (act_res (\<lambda>s. case map_of (os_intervals s key) interval of
           None \<Rightarrow> Inl (Undefined_behaviour ''iterator'') | Some oft \<Rightarrow> add_trade time price volume oft))
       (\<lambda>oft.
     act_seq (act_modify (\<lambda>s. s\<lparr>os_subscriptions :=
          AList.update key (AList.update interval oft (os_intervals s key)) (os_subscriptions s)\<rparr>))
     (act_bind (act_res (\<lambda>_. ft_get_ohlcv time oft)) (\<lambda>(d, oft').
     act_seq (act_modify (\<lambda>s. s\<lparr>os_subscriptions :=
          AList.update key (AList.update interval oft' (os_intervals s key)) (os_subscriptions s)\<rparr>))
       (os_call log_ohlcv pairName interval d))))"

lemma os_intervals_update:
  "os_intervals (s\<lparr>os_subscriptions := AList.update key m subs\<rparr>) name =
     (if name = key then m else (case map_of subs name of None \<Rightarrow> [] | Some m \<Rightarrow> m))"
  by (simp add: os_intervals_def update_conv')

lemma os_intervals_client [simp]: "os_intervals (s\<lparr>os_client := w\<rparr>) = os_intervals s"
  by (simp add: os_intervals_def fun_eq_iff)

lemma os_step_ok:
  assumes "map_of (os_intervals s key) i = Some oft" "candle_after time price volume oft = Inr (d, oft')"
  shows "\<exists>s'. os_step key name time price volume i s = (Inr (), s') \<and>
     map_of (os_intervals s' key) = (map_of (os_intervals s key))(i \<mapsto> oft') \<and>
     (\<forall>other. other \<noteq> key \<longrightarrow> os_intervals s' other = os_intervals s other) \<and>
     os_client s' = os_client s @ [(name, i, d)]"
proof -
  obtain a where a: "add_trade time price volume oft = Inr a" "ft_get_ohlcv time a = Inr (d, oft')"
    using assms(2) by (auto simp: candle_after_def res_bind_Inr_iff)
  show ?thesis
    by (simp add: os_step_def act_simps assms(1) a os_call_def log_ohlcv_def os_intervals_update update_conv')
       (simp add: os_intervals_def)
qed

lemma os_steps_ok:
  assumes "distinct is" "\<forall>i \<in> set is. map_of (os_intervals s key) i = Some (oft i) \<and>
      candle_after time price volume (oft i) = Inr (d i, oft' i)"
  shows "\<exists>s'. act_iter (os_step key name time price volume) is s = (Inr (), s') \<and>
     (\<forall>i. map_of (os_intervals s' key) i =
        (if i \<in> set is then Some (oft' i) else map_of (os_intervals s key) i)) \<and>
     (\<forall>other. other \<noteq> key \<longrightarrow> os_intervals s' other = os_intervals s other) \<and>
     os_client s' = os_client s @ map (\<lambda>i. (name, i, d i)) is"
  using assms
proof (induction "is" arbitrary: s)
  case Nil
  then show ?case by simp
next
  case (Cons i "is")
  obtain s1 where s1: "os_step key name time price volume i s = (Inr (), s1)"
      "map_of (os_intervals s1 key) = (map_of (os_intervals s key))(i \<mapsto> oft' i)"
      "\<forall>other. other \<noteq> key \<longrightarrow> os_intervals s1 other = os_intervals s other"
      "os_client s1 = os_client s @ [(name, i, d i)]"
    using os_step_ok [of s key i "oft i" time price volume "d i" "oft' i" name] Cons.prems(2) by auto
  have "\<forall>j \<in> set is. map_of (os_intervals s1 key) j = Some (oft j) \<and>
      candle_after time price volume (oft j) = Inr (d j, oft' j)"
    using Cons.prems s1(2) by auto
  from Cons.IH [OF _ this] Cons.prems(1) obtain s' where
      "act_iter (os_step key name time price volume) is s1 = (Inr (), s')"
      "\<forall>j. map_of (os_intervals s' key) j =
         (if j \<in> set is then Some (oft' j) else map_of (os_intervals s1 key) j)"
      "\<forall>other. other \<noteq> key \<longrightarrow> os_intervals s' other = os_intervals s1 other"
      "os_client s' = os_client s1 @ map (\<lambda>i. (name, i, d i)) is"
    by auto
  with s1 show ?case by (intro exI [of _ s']) (auto simp: act_bind_def)
qed

lemma os_update_ohlcv_steps:
  "map_of (os_subscriptions s) (c_str name) = Some m \<Longrightarrow>
   os_update_ohlcv log_ohlcv name time price volume s =
     act_iter (os_step (c_str name) name time price volume) (map fst m) s"
  by (simp add: os_update_ohlcv_def os_step_def [abs_def] act_simps Let_def)

text \<open>
  C28: a trade of a subscribed pair is added to the candle of each of its intervals and each
  resulting candle is passed on once; other pairs keep theirs. A trade of a pair that is not
  subscribed is refused and changes nothing.
\<close>

theorem os_update_ohlcv_spec:
  assumes "map_of (os_subscriptions s) (c_str name) = Some m" "distinct (map fst m)"
    and "\<And>i oft. (i, oft) \<in> set m \<Longrightarrow> candle_after time price volume oft = Inr (d i, oft' i)"
    and "map_of (os_subscriptions s) (c_str unknown) = None"
  shows "(\<exists>s'. os_update_ohlcv log_ohlcv name time price volume s = (Inr (), s') \<and>
     (\<forall>i. map_of (os_intervals s' (c_str name)) i =
        (if i \<in> fst ` set m then Some (oft' i) else None)) \<and>
     (\<forall>other. other \<noteq> c_str name \<longrightarrow> os_intervals s' other = os_intervals s other) \<and>
     os_client s' = os_client s @ map (\<lambda>i. (name, i, d i)) (map fst m))
   \<and> os_update_ohlcv log_ohlcv unknown time price volume s =
       (Inl (Mb_exception (''OHLCV is not subscribed for pair '' @ unknown)), s)"
proof
  have iv: "os_intervals s (c_str name) = m" using assms(1) by (simp add: os_intervals_def)
  have "\<forall>i \<in> set (map fst m). map_of (os_intervals s (c_str name)) i = Some (the (map_of m i)) \<and>
      candle_after time price volume (the (map_of m i)) = Inr (d i, oft' i)"
    using assms(2,3) by (auto simp: iv)
  from os_steps_ok [OF assms(2) this, of name] obtain s' where s':
      "act_iter (os_step (c_str name) name time price volume) (map fst m) s = (Inr (), s')"
      "\<forall>i. map_of (os_intervals s' (c_str name)) i =
        (if i \<in> set (map fst m) then Some (oft' i) else map_of (os_intervals s (c_str name)) i)"
      "\<forall>other. other \<noteq> c_str name \<longrightarrow> os_intervals s' other = os_intervals s other"
      "os_client s' = os_client s @ map (\<lambda>i. (name, i, d i)) (map fst m)"
    by blast
  have "map_of m i = None" if "i \<notin> fst ` set m" for i
    using that by (simp add: map_of_eq_None_iff)
  with s' show "\<exists>s'. os_update_ohlcv log_ohlcv name time price volume s = (Inr (), s') \<and>
     (\<forall>i. map_of (os_intervals s' (c_str name)) i =
        (if i \<in> fst ` set m then Some (oft' i) else None)) \<and>
     (\<forall>other. other \<noteq> c_str name \<longrightarrow> os_intervals s' other = os_intervals s other) \<and>
     os_client s' = os_client s @ map (\<lambda>i. (name, i, d i)) (map fst m)"
    by (intro exI [of _ s']) (simp add: os_update_ohlcv_steps [OF assms(1)] iv)
  show "os_update_ohlcv log_ohlcv unknown time price volume s =
       (Inl (Mb_exception (''OHLCV is not subscribed for pair '' @ unknown)), s)"
    by (simp add: os_update_ohlcv_def assms(4) act_simps Let_def)
qed

theorem os_update_ohlcv_spec_witness:
  "let c = \<lparr>oh_timeStamp = 0, oh_open = Fin 1, oh_high = Fin 2, oh_low = Fin 1, oh_close = Fin 2, oh_volume = Fin 1\<rparr>;
       s = \<lparr>os_subscriptions = [(''A'', [(M1, create_ohlcv_from_trades c 60)])], os_pairSeparator = CHR ''/'',
            os_client = []\<rparr>
   in os_client (snd (os_update_ohlcv log_ohlcv ''A'' 5 (Fin 3) (Fin 1) s)) =
        [(''A'', M1, \<lparr>oh_timeStamp = 0, oh_open = Fin 1, oh_high = Fin 3, oh_low = Fin 1, oh_close = Fin 3, oh_volume = Fin 2\<rparr>)]"
proof -
  let ?c = "\<lparr>oh_timeStamp = 0, oh_open = Fin 1, oh_high = Fin 2, oh_low = Fin 1, oh_close = Fin 2, oh_volume = Fin 1\<rparr>"
  let ?f = "create_ohlcv_from_trades ?c 60"
  let ?s = "\<lparr>os_subscriptions = [(''A'', [(M1, ?f)])], os_pairSeparator = CHR ''/'',
            os_client = []\<rparr> :: (string \<times> ohlcv_interval \<times> ohlcv_data) list ohlcv_subscription_service"
  let ?d = "\<lparr>oh_timeStamp = 0, oh_open = Fin 1, oh_high = Fin 3, oh_low = Fin 1, oh_close = Fin 3, oh_volume = Fin 2\<rparr>"
  let ?g = "?f\<lparr>ft_high := Fin 3, ft_close := Fin 3, ft_volume := Fin 2, ft_lastTime := 5\<rparr>"
  have c: "c_str ''A'' = ''A''" "c_str ''B'' = ''B''" by (simp_all add: c_str_def)
  have a: "candle_after 5 (Fin 3) (Fin 1) ?f = Inr (?d, ?g)" by code_simp
  have "\<exists>s'. os_update_ohlcv log_ohlcv ''A'' 5 (Fin 3) (Fin 1) ?s = (Inr (), s') \<and>
      os_client s' = [(''A'', M1, ?d)]"
    using os_update_ohlcv_spec [of ?s "''A''" "[(M1, ?f)]" 5 "Fin 3" "Fin 1" "\<lambda>_. ?d" "\<lambda>_. ?g" "''B''"]
    by (auto simp: c a)
  then show ?thesis by auto
qed

end
