(* ===== verification/PaperTrading.thy ===== *)
theory PaperTrading
  imports WebsocketStream
begin

text \<open>
  \<^verbatim>\<open>testing/paper_trading/\<close>: the simulated trading account (\<^verbatim>\<open>paper_trade_api.cpp\<close>)
  and its configuration. The account keeps balances as 64-bit integers in units of 1e-10,
  open orders by id and by pair, and the closed orders; it fills orders at the last trade of a
  market stream, which it uses through the interface \<open>price_feed\<close>. Operations are on the
  state and keep what they did before an exception.
\<close>

section \<open>State\<close>

type_synonym volume_t = "64 word"

record paper_trading_config =
  pc_fee :: double
  pc_balances :: "(string \<times> double) list"

definition default_paper_trading_config :: paper_trading_config where
  "default_paper_trading_config = \<lparr>pc_fee = 0, pc_balances = []\<rparr>"

text \<open>The virtual functions of the market stream and the clock the account is given.\<close>

record 'w stream_ops =
  so_get_last_trade :: "tradable_pair \<Rightarrow> ('w, trade_update) action"
  so_get_subscription_status :: "unique_websocket_subscription \<Rightarrow> ('w, subscription_status) action"
  so_subscribe :: "websocket_subscription \<Rightarrow> ('w, unit) action"
  so_get_time :: "'w \<Rightarrow> time_t"

record 'w paper_trade_api =
  pt_stream :: 'w
  pt_fee :: double
  pt_trailingOrderLimits :: "string \<rightharpoonup> double"
  pt_balances :: "(string \<times> volume_t) list"
  pt_openOrders :: "(string \<times> order_request) list"
  pt_openOrdersByPair :: "tradable_pair \<Rightarrow> string list"
  pt_closedOrders :: "order_description list"
  pt_nextOrderNumber :: int

type_synonym ('w, 'a) pt_action = "('w paper_trade_api, 'a) action"

definition on_stream :: "('w, 'a) action \<Rightarrow> ('w, 'a) pt_action" where
  "on_stream m s = (case m (pt_stream s) of (r, w) \<Rightarrow> (r, s\<lparr>pt_stream := w\<rparr>))"

section \<open>Conversions and fill conditions\<close>

definition VolumeModifier :: double where
  "VolumeModifier = lit 10000000000"

text \<open>
  The conversion of a double to \<^verbatim>\<open>unsigned long long\<close> drops the fraction; it is undefined
  when the result does not fit.
\<close>

definition to_u64 :: "double \<Rightarrow> volume_t res" where
  "to_u64 x = (if is_finite x \<and> - 1 < dval x \<and> dval x < 2 ^ 64
     then Inr (word_of_int (if dval x < 0 then 0 else \<lfloor>dval x\<rfloor>))
     else Inl (Undefined_behaviour ''double to unsigned long long''))"

definition to_integer_volume :: "double \<Rightarrow> volume_t res" where
  "to_integer_volume volume = to_u64 (volume * VolumeModifier)"

definition create_initialised_balances ::
    "(string \<times> double) list \<Rightarrow> (string \<times> volume_t) list res" where
  "create_initialised_balances initialBalances =
     res_bind (res_traverse (\<lambda>(a, v). res_bind (to_integer_volume v) (\<lambda>w. Inr (a, w))) initialBalances)
       (\<lambda>ps. Inr (to_unordered_map ps fst snd))"

definition should_close_limit_order :: "order_request \<Rightarrow> double \<Rightarrow> bool" where
  "should_close_limit_order request currentPrice =
     (let orderPrice = rq_get request ASSET_PRICE in
      rq_action request = BUY \<and> currentPrice \<le> orderPrice \<or>
      rq_action request = SELL \<and> orderPrice \<le> currentPrice)"

definition should_close_stop_loss_order :: "order_request \<Rightarrow> double \<Rightarrow> bool" where
  "should_close_stop_loss_order request currentPrice =
     (let orderPrice = rq_get request STOP_PRICE in
      rq_action request = BUY \<and> orderPrice \<le> currentPrice \<or>
      rq_action request = SELL \<and> currentPrice \<le> orderPrice)"

text \<open>The result and the new value of the reference argument \<^verbatim>\<open>maxOrMin\<close>.\<close>

definition should_close_trailing_stop_loss_order ::
    "order_request \<Rightarrow> double \<Rightarrow> double \<Rightarrow> bool \<times> double" where
  "should_close_trailing_stop_loss_order request currentPrice maxOrMin =
     (let delta = rq_get request TRAILING_DELTA in
      if rq_action request = BUY
      then let m = dmin maxOrMin currentPrice in (m * (of_int_d 1 + delta) \<le> currentPrice, m)
      else let m = dmax maxOrMin currentPrice in (currentPrice \<le> m * (of_int_d 1 - delta), m))"

definition to_order_description ::
    "string \<Rightarrow> double \<Rightarrow> time_t \<Rightarrow> order_request \<Rightarrow> order_description" where
  "to_order_description orderId fillPrice time request =
     \<lparr>od_timeStamp = time, od_orderId = orderId, od_orderType = rq_orderType request,
      od_pairName = pair_name (rq_pair request), od_action = rq_action request,
      od_price = fillPrice, od_volume = rq_get request VOLUME\<rparr>"

section \<open>The account\<close>

definition create_paper_trade_api :: "paper_trading_config \<Rightarrow> 'w \<Rightarrow> 'w paper_trade_api res" where
  "create_paper_trade_api config stream =
     res_bind (create_initialised_balances (pc_balances config)) (\<lambda>balances. Inr
       \<lparr>pt_stream = stream, pt_fee = pc_fee config, pt_trailingOrderLimits = Map.empty,
        pt_balances = balances, pt_openOrders = [], pt_openOrdersByPair = (\<lambda>_. []),
        pt_closedOrders = [], pt_nextOrderNumber = 1\<rparr>)"

definition has_sufficient_funds :: "'w paper_trade_api \<Rightarrow> string \<Rightarrow> volume_t \<Rightarrow> bool" where
  "has_sufficient_funds s asset amount =
     (case map_of (pt_balances s) asset of None \<Rightarrow> False | Some b \<Rightarrow> amount \<le> b)"

text \<open>\<^verbatim>\<open>_balances[asset]\<close> value-initialises an entry that is not there.\<close>

definition balance :: "'w paper_trade_api \<Rightarrow> string \<Rightarrow> volume_t" where
  "balance s asset = (case map_of (pt_balances s) asset of None \<Rightarrow> 0 | Some b \<Rightarrow> b)"

definition set_balance :: "string \<Rightarrow> volume_t \<Rightarrow> 'w paper_trade_api \<Rightarrow> 'w paper_trade_api" where
  "set_balance asset v s = s\<lparr>pt_balances := AList.update asset v (pt_balances s)\<rparr>"

text \<open>The two legs of an order: gained asset and value, sold asset and value.\<close>

definition order_legs ::
    "double \<Rightarrow> order_request \<Rightarrow> double \<Rightarrow> (string \<times> double) \<times> (string \<times> double)" where
  "order_legs feeRate request fillPrice =
     (let volume = rq_get request VOLUME;
          cost = calculate_cost fillPrice volume;
          fee = cost * feeRate * lit (1 / 100)
      in if rq_action request = BUY
         then ((tp_asset (rq_pair request), volume), (tp_priceUnit (rq_pair request), cost + fee))
         else ((tp_priceUnit (rq_pair request), cost - fee), (tp_asset (rq_pair request), volume)))"

definition execute_order ::
    "'w stream_ops \<Rightarrow> string \<Rightarrow> order_request \<Rightarrow> double \<Rightarrow> ('w, unit) pt_action" where
  "execute_order ops orderId request fillPrice =
     act_bind (act_read (\<lambda>s. order_legs (pt_fee s) request fillPrice))
       (\<lambda>((gainedAsset, gainValue), (soldAsset, soldValue)).
     act_bind (act_res (\<lambda>_. to_integer_volume gainValue)) (\<lambda>gainVolume.
     act_bind (act_res (\<lambda>_. to_integer_volume soldValue)) (\<lambda>soldVolume.
     act_bind (act_read (\<lambda>s. has_sufficient_funds s soldAsset soldVolume)) (\<lambda>sufficient.
     if \<not> sufficient then act_throw (Mb_exception (''Insufficient funds ('' @ soldAsset @ '')''))
     else
       act_seq (act_modify (\<lambda>s. set_balance gainedAsset (balance s gainedAsset + gainVolume) s))
      (act_seq (act_modify (\<lambda>s. set_balance soldAsset (balance s soldAsset - soldVolume) s))
      (act_seq (act_modify (\<lambda>s. s\<lparr>pt_closedOrders := pt_closedOrders s @
          [to_order_description orderId fillPrice (so_get_time ops (pt_stream s)) request]\<rparr>))
      (act_modify (\<lambda>s. s\<lparr>pt_openOrders := AList.delete orderId (pt_openOrders s)\<rparr>))))))))"

text \<open>The switch over the order type: the fill price if the order is to be filled.\<close>

definition fill_decision ::
    "string \<Rightarrow> order_request \<Rightarrow> double \<Rightarrow> ('w, double option) pt_action" where
  "fill_decision orderId request price =
     (case rq_orderType request of
        MARKET \<Rightarrow> act_return (Some price)
      | LIMIT \<Rightarrow> act_return (if should_close_limit_order request price
                             then Some (rq_get request ASSET_PRICE) else None)
      | STOP_LOSS \<Rightarrow> act_return (if should_close_stop_loss_order request price
                             then Some (rq_get request STOP_PRICE) else None)
      | TRAILING_STOP_LOSS \<Rightarrow>
          act_seq (act_modify (\<lambda>s. if pt_trailingOrderLimits s orderId = None
              then s\<lparr>pt_trailingOrderLimits := (pt_trailingOrderLimits s)(orderId \<mapsto> price)\<rparr> else s))
          (act_bind (act_read (\<lambda>s. should_close_trailing_stop_loss_order request price
              (find_or_default 0 (pt_trailingOrderLimits s) orderId))) (\<lambda>(fill, m).
           act_seq (act_modify (\<lambda>s. s\<lparr>pt_trailingOrderLimits := (pt_trailingOrderLimits s)(orderId \<mapsto> m)\<rparr>))
           (if fill
            then act_seq (act_modify (\<lambda>s. s\<lparr>pt_trailingOrderLimits := (pt_trailingOrderLimits s)(orderId := None)\<rparr>))
                   (act_return (Some price))
            else act_return None)))
      | TAKE_PROFIT \<Rightarrow> act_return None)"

definition try_fill_order :: "'w stream_ops \<Rightarrow> string \<Rightarrow> ('w, bool) pt_action" where
  "try_fill_order ops orderIdView =
     (let orderId = c_str orderIdView in
      act_bind (act_res (\<lambda>s. case map_of (pt_openOrders s) orderId of
          None \<Rightarrow> Inl (Out_of_range ''unordered_map::at'') | Some r \<Rightarrow> Inr r)) (\<lambda>request.
      act_bind (on_stream (so_get_last_trade ops (rq_pair request))) (\<lambda>trade.
      let price = tu_price trade in
      if deq price 0 then act_return False
      else act_bind (fill_decision orderId request price) (\<lambda>fill. case fill of
             None \<Rightarrow> act_return False
           | Some fillPrice \<Rightarrow> act_seq (execute_order ops orderId request fillPrice) (act_return True)))))"

definition set_pair_orders :: "tradable_pair \<Rightarrow> string list \<Rightarrow> 'w paper_trade_api \<Rightarrow> 'w paper_trade_api" where
  "set_pair_orders pair ids s = s\<lparr>pt_openOrdersByPair := (pt_openOrdersByPair s)(pair := ids)\<rparr>"

definition erase_at :: "nat \<Rightarrow> 'a list \<Rightarrow> 'a list" where
  "erase_at i xs = take i xs @ drop (Suc i) xs"

fun fill_loop :: "'w stream_ops \<Rightarrow> tradable_pair \<Rightarrow> nat \<Rightarrow> nat \<Rightarrow> ('w, unit) pt_action" where
  "fill_loop ops pair 0 index s = (Inr (), s)"
| "fill_loop ops pair (Suc n) index s =
     act_bind (act_res (\<lambda>s. read_at ''iterator'' (pt_openOrdersByPair s pair) (int index))) (\<lambda>orderId.
     act_bind (act_read (\<lambda>s. \<not> contains (pt_openOrders s) orderId)) (\<lambda>gone.
     act_bind (if gone then act_return True else try_fill_order ops orderId) (\<lambda>done.
     if done
     then act_seq (act_modify (\<lambda>s. set_pair_orders pair (erase_at index (pt_openOrdersByPair s pair)) s))
            (fill_loop ops pair n index)
     else fill_loop ops pair n (Suc index)))) s"

definition trade_update_handler :: "'w stream_ops \<Rightarrow> trade_update_message \<Rightarrow> ('w, unit) pt_action" where
  "trade_update_handler ops message =
     act_bind (act_read (\<lambda>s. length (pt_openOrdersByPair s (tm_pair message)))) (\<lambda>orderCount.
     fill_loop ops (tm_pair message) orderCount 0)"

definition pt_get_fee :: "'w paper_trade_api \<Rightarrow> tradable_pair \<Rightarrow> double" where
  "pt_get_fee s tradablePair = pt_fee s"

definition get_balances :: "'w paper_trade_api \<Rightarrow> (string \<times> double) list" where
  "get_balances s = to_unordered_map (pt_balances s) fst (\<lambda>p. of_int_d (uint (snd p)) / VolumeModifier)"

definition get_open_orders :: "'w stream_ops \<Rightarrow> 'w paper_trade_api \<Rightarrow> order_description list" where
  "get_open_orders ops s = map (\<lambda>(orderId, trade).
     to_order_description orderId (rq_get trade ASSET_PRICE) (so_get_time ops (pt_stream s)) trade)
     (pt_openOrders s)"

definition get_closed_orders :: "'w paper_trade_api \<Rightarrow> order_description list" where
  "get_closed_orders s = pt_closedOrders s"

definition add_order :: "'w stream_ops \<Rightarrow> order_request \<Rightarrow> ('w, string) pt_action" where
  "add_order ops request =
     act_bind (act_read (\<lambda>s. show_int (pt_nextOrderNumber s))) (\<lambda>orderId.
     act_seq (act_modify (\<lambda>s. s\<lparr>pt_nextOrderNumber := pt_nextOrderNumber s + 1\<rparr>))
    (act_seq (act_modify (\<lambda>s. s\<lparr>pt_openOrders := emplace orderId request (pt_openOrders s)\<rparr>))
    (act_seq (act_modify (\<lambda>s. set_pair_orders (rq_pair request)
          (pt_openOrdersByPair s (rq_pair request) @ [orderId]) s))
    (act_bind (on_stream (so_get_subscription_status ops (create_trade_sub (rq_pair request)))) (\<lambda>status.
     act_seq (if status = UNSUBSCRIBED
              then on_stream (so_subscribe ops (create_trade_sub [rq_pair request])) else act_return ())
    (act_bind (try_fill_order ops orderId) (\<lambda>_.
     act_return orderId)))))))"

definition add_order_confirm :: "'w stream_ops \<Rightarrow> order_request \<Rightarrow> ('w, order_confirmation) pt_action" where
  "add_order_confirm ops request =
     act_bind (add_order ops request) (\<lambda>orderId.
     act_bind (on_stream (so_get_last_trade ops (rq_pair request))) (\<lambda>trade.
     act_return \<lparr>oc_orderId = orderId, oc_orderStatus = CLOSED, oc_originalQty = rq_get request VOLUME,
       oc_filledQty = rq_get request VOLUME, oc_price = tu_price trade\<rparr>))"

definition cancel_order :: "string \<Rightarrow> ('w, unit) pt_action" where
  "cancel_order orderId =
     act_bind (act_read (\<lambda>s. contains (pt_openOrders s) (c_str orderId))) (\<lambda>found.
     if \<not> found then act_throw (Mb_exception (''Could not find order with id = '' @ orderId))
     else act_modify (\<lambda>s. s\<lparr>pt_openOrders := AList.delete (c_str orderId) (pt_openOrders s)\<rparr>))"

definition get_order_status :: "'w paper_trade_api \<Rightarrow> string \<Rightarrow> order_status" where
  "get_order_status s orderId =
     (if contains (pt_openOrders s) (c_str orderId) then OPEN else CLOSED)"

section \<open>What one order does\<close>

lemma c_str_show_int [simp]: "c_str (show_int i) = show_int i"
  by (rule c_str_id) (use show_int_chars [of "CHR 0x00" i] in \<open>auto simp: is_digit_def\<close>)

lemma map_of_delete: "map_of (AList.delete k m) j = (if j = k then None else map_of m j)"
  by (simp add: delete_conv')

lemma keys_delete: "fst ` set (AList.delete k m) = fst ` set m - {k}"
  using delete_keys [of k m] by (metis set_map set_removeAll)

lemma balance_set [simp]:
  "balance (set_balance a v s) b = (if b = a then v else balance s b)"
  by (simp add: balance_def set_balance_def update_conv')

lemma set_balance_simps [simp]:
  "pt_openOrders (set_balance a v s) = pt_openOrders s"
  "pt_openOrdersByPair (set_balance a v s) = pt_openOrdersByPair s"
  "pt_closedOrders (set_balance a v s) = pt_closedOrders s"
  "pt_nextOrderNumber (set_balance a v s) = pt_nextOrderNumber s"
  "pt_stream (set_balance a v s) = pt_stream s" "pt_fee (set_balance a v s) = pt_fee s"
  "pt_trailingOrderLimits (set_balance a v s) = pt_trailingOrderLimits s"
  by (simp_all add: set_balance_def)

lemma execute_order_eq:
  assumes "order_legs (pt_fee s) request fillPrice = ((g, gv), (a, sv))"
  shows "execute_order ops orderId request fillPrice s =
    (case to_integer_volume gv of Inl e \<Rightarrow> (Inl e, s) | Inr G \<Rightarrow>
    (case to_integer_volume sv of Inl e \<Rightarrow> (Inl e, s) | Inr S \<Rightarrow>
    (if has_sufficient_funds s a S
     then (Inr (), let s1 = set_balance g (balance s g + G) s; s2 = set_balance a (balance s1 a - S) s1 in
        s2\<lparr>pt_closedOrders := pt_closedOrders s @ [to_order_description orderId fillPrice (so_get_time ops (pt_stream s)) request],
           pt_openOrders := AList.delete orderId (pt_openOrders s)\<rparr>)
     else (Inl (Mb_exception (''Insufficient funds ('' @ a @ '')'')), s))))"
  by (auto simp: execute_order_def act_simps assms Let_def split: sum.split)

definition pt_core :: "'w paper_trade_api \<Rightarrow> (string \<times> order_request) list \<times> (tradable_pair \<Rightarrow> string list) \<times>
    order_description list \<times> int \<times> (string \<times> volume_t) list \<times> double" where
  "pt_core s = (pt_openOrders s, pt_openOrdersByPair s, pt_closedOrders s, pt_nextOrderNumber s,
     pt_balances s, pt_fee s)"

lemma pt_core_eq: "pt_core t = pt_core s \<longleftrightarrow>
    pt_openOrders t = pt_openOrders s \<and> pt_openOrdersByPair t = pt_openOrdersByPair s \<and>
    pt_closedOrders t = pt_closedOrders s \<and> pt_nextOrderNumber t = pt_nextOrderNumber s \<and>
    pt_balances t = pt_balances s \<and> pt_fee t = pt_fee s"
  by (auto simp: pt_core_def)

lemma core_on_stream: "on_stream m s = (r, t) \<Longrightarrow> pt_core t = pt_core s"
  by (auto simp: on_stream_def pt_core_def split: prod.splits)

lemma core_fill_decision:
  "fill_decision orderId request price s = (r, t) \<Longrightarrow> pt_core t = pt_core s"
  by (cases "rq_orderType request")
     (auto simp: fill_decision_def act_simps pt_core_def split: prod.splits if_splits)

lemma execute_order_cases:
  assumes "execute_order ops orderId request fillPrice s = (r, t)"
  shows "r = Inr () \<or> t = s \<and> (\<exists>e. r = Inl e)"
proof -
  obtain g gv a sv where "order_legs (pt_fee s) request fillPrice = ((g, gv), (a, sv))"
    by (metis prod.collapse)
  from execute_order_eq [OF this, of ops orderId] assms show ?thesis
    by (auto split: sum.splits if_splits)
qed

lemma try_fill_eq:
  assumes "map_of (pt_openOrders s) (c_str orderId) = Some request"
    and "on_stream (so_get_last_trade ops (rq_pair request)) s = (Inr trade, s1)"
    and "fill_decision (c_str orderId) request (tu_price trade) s1 = (rf, s2)"
  shows "try_fill_order ops orderId s =
    (if deq (tu_price trade) 0 then (Inr False, s1)
     else case rf of Inl e \<Rightarrow> (Inl e, s2) | Inr None \<Rightarrow> (Inr False, s2)
       | Inr (Some fp) \<Rightarrow> (case execute_order ops (c_str orderId) request fp s2 of
            (Inl e, s3) \<Rightarrow> (Inl e, s3) | (Inr _, s3) \<Rightarrow> (Inr True, s3)))"
  using assms by (auto simp: try_fill_order_def act_simps Let_def
      split: sum.splits option.splits prod.splits)

lemma try_fill_cases:
  assumes "try_fill_order ops orderId s = (r, t)"
  shows "r = Inr True \<and> (\<exists>request fillPrice s1. map_of (pt_openOrders s) (c_str orderId) = Some request \<and>
            pt_core s1 = pt_core s \<and> execute_order ops (c_str orderId) request fillPrice s1 = (Inr (), t))
       \<or> r \<noteq> Inr True \<and> pt_core t = pt_core s"
proof (cases "map_of (pt_openOrders s) (c_str orderId)")
  case None
  with assms show ?thesis by (auto simp: try_fill_order_def act_simps Let_def)
next
  case (Some request)
  obtain rt s1 where st: "on_stream (so_get_last_trade ops (rq_pair request)) s = (rt, s1)" by fastforce
  have c1: "pt_core s1 = pt_core s" by (rule core_on_stream [OF st])
  show ?thesis
  proof (cases rt)
    case (Inl e)
    with assms Some st c1 show ?thesis by (auto simp: try_fill_order_def act_simps Let_def)
  next
    case (Inr trade)
    obtain rf s2 where f: "fill_decision (c_str orderId) request (tu_price trade) s1 = (rf, s2)" by fastforce
    have c2: "pt_core s2 = pt_core s" using core_fill_decision [OF f] c1 by simp
    note run = try_fill_eq [OF Some st [unfolded Inr] f]
    show ?thesis
    proof (cases "\<exists>fp. \<not> deq (tu_price trade) 0 \<and> rf = Inr (Some fp)")
      case True
      then obtain fp where fp: "\<not> deq (tu_price trade) 0" "rf = Inr (Some fp)" by blast
      obtain re s3 where e: "execute_order ops (c_str orderId) request fp s2 = (re, s3)" by fastforce
      from execute_order_cases [OF e] show ?thesis
      proof
        assume re: "re = Inr ()"
        then have "r = Inr True" "t = s3" using run fp e assms by auto
        with Some c2 e re show ?thesis by blast
      next
        assume "s3 = s2 \<and> (\<exists>e. re = Inl e)"
        then show ?thesis using run fp e c2 assms by auto
      qed
    next
      case False
      then show ?thesis using run assms c1 c2 by (auto split: if_splits sum.splits option.splits)
    qed
  qed
qed

section \<open>The orders of an account\<close>

definition issued :: "'w paper_trade_api \<Rightarrow> string \<Rightarrow> bool" where
  "issued s orderId \<longleftrightarrow> (\<exists>k. orderId = show_int k \<and> 1 \<le> k \<and> k < pt_nextOrderNumber s)"

definition open_ids :: "'w paper_trade_api \<Rightarrow> string set" where
  "open_ids s = fst ` set (pt_openOrders s)"

text \<open>
  The invariant of the account: order ids are issued numbers, an id is open or closed at most
  once and never both, and the queue of a pair holds each open order of the pair exactly once.
\<close>

definition pt_inv :: "'w paper_trade_api \<Rightarrow> bool" where
  "pt_inv s \<longleftrightarrow> 1 \<le> pt_nextOrderNumber s \<and>
     distinct (map fst (pt_openOrders s)) \<and> distinct (map od_orderId (pt_closedOrders s)) \<and>
     (\<forall>i \<in> open_ids s. issued s i) \<and>
     (\<forall>d \<in> set (pt_closedOrders s). issued s (od_orderId d) \<and> od_orderId d \<notin> open_ids s) \<and>
     (\<forall>p. distinct (pt_openOrdersByPair s p) \<and> (\<forall>i \<in> set (pt_openOrdersByPair s p). issued s i)) \<and>
     (\<forall>i r. map_of (pt_openOrders s) i = Some r \<longrightarrow>
        (\<forall>p. i \<in> set (pt_openOrdersByPair s p) \<longleftrightarrow> p = rq_pair r))"

lemma issued_core: "pt_core t = pt_core s \<Longrightarrow> issued t = issued s"
  by (simp add: issued_def pt_core_def fun_eq_iff)

lemma pt_inv_core: "pt_core t = pt_core s \<Longrightarrow> pt_inv t = pt_inv s"
  using issued_core [of t s] by (simp add: pt_inv_def pt_core_def open_ids_def)

lemma c_str_issued: "issued s i \<Longrightarrow> c_str i = i"
  by (auto simp: issued_def)

lemma execute_order_state:
  assumes "execute_order ops orderId request fillPrice s = (Inr (), t)"
  shows "pt_openOrders t = AList.delete orderId (pt_openOrders s)"
    and "pt_openOrdersByPair t = pt_openOrdersByPair s"
    and "pt_nextOrderNumber t = pt_nextOrderNumber s"
    and "pt_fee t = pt_fee s"
    and "pt_closedOrders t = pt_closedOrders s @
           [to_order_description orderId fillPrice (so_get_time ops (pt_stream s)) request]"
proof -
  obtain g gv a sv where "order_legs (pt_fee s) request fillPrice = ((g, gv), (a, sv))"
    by (metis prod.collapse)
  from execute_order_eq [OF this, of ops orderId] assms
  show "pt_openOrders t = AList.delete orderId (pt_openOrders s)"
    and "pt_openOrdersByPair t = pt_openOrdersByPair s"
    and "pt_nextOrderNumber t = pt_nextOrderNumber s"
    and "pt_fee t = pt_fee s"
    and "pt_closedOrders t = pt_closedOrders s @
           [to_order_description orderId fillPrice (so_get_time ops (pt_stream s)) request]"
    by (auto split: sum.splits if_splits simp: Let_def)
qed

lemma distinct_delete: "distinct (map fst m) \<Longrightarrow> distinct (map fst (AList.delete k m))"
  by (simp add: delete_keys distinct_removeAll)

lemma pt_inv_execute:
  assumes "pt_inv s" "map_of (pt_openOrders s) orderId = Some request"
    and "execute_order ops orderId request fillPrice s = (Inr (), t)"
  shows "pt_inv t"
proof -
  note st = execute_order_state [OF assms(3)]
  have o: "orderId \<in> open_ids s" using assms(2) by (force simp: open_ids_def dest: map_of_SomeD)
  have i: "issued t = issued s" using st by (simp add: issued_def fun_eq_iff)
  have k: "open_ids t = open_ids s - {orderId}" using st by (simp add: open_ids_def keys_delete)
  have "distinct (map od_orderId (pt_closedOrders t))"
    using assms(1) o st(5) by (auto simp: pt_inv_def to_order_description_def)
  moreover have "distinct (map fst (pt_openOrders t))"
    using assms(1) st(1) by (simp add: pt_inv_def distinct_delete)
  ultimately show ?thesis
    using assms(1) o by (auto simp: pt_inv_def st i k map_of_delete to_order_description_def split: if_splits)
qed

lemma pt_inv_try_fill:
  assumes "pt_inv s" "try_fill_order ops orderId s = (r, t)"
  shows "pt_inv t"
  using try_fill_cases [OF assms(2)] assms(1) pt_inv_execute pt_inv_core
  by (metis pt_core_eq)

lemma erase_at_split: "erase_at (length ys) (ys @ x # zs) = ys @ zs"
  by (simp add: erase_at_def)

lemma erase_at_distinct:
  assumes "distinct xs" "i < length xs"
  shows "distinct (erase_at i xs)" "set (erase_at i xs) = set xs - {xs ! i}"
proof -
  obtain ys x zs where xs: "xs = ys @ x # zs" "i = length ys"
    using id_take_nth_drop [OF assms(2)] assms(2) by (metis length_take min.absorb4)
  with assms show "distinct (erase_at i xs)" "set (erase_at i xs) = set xs - {xs ! i}"
    by (auto simp: erase_at_split)
qed

lemma pt_inv_erase:
  assumes "pt_inv s" "pt_openOrdersByPair s pair ! index \<notin> open_ids s"
    and "index < length (pt_openOrdersByPair s pair)"
  shows "pt_inv (set_pair_orders pair (erase_at index (pt_openOrdersByPair s pair)) s)"
proof -
  let ?ids = "pt_openOrdersByPair s pair" and ?new = "erase_at index (pt_openOrdersByPair s pair)"
  have "distinct ?ids" using assms(1) by (simp add: pt_inv_def)
  note d = erase_at_distinct [OF this assms(3)]
  have "map_of (pt_openOrders s) (?ids ! index) = None"
    using assms(2) by (simp add: open_ids_def map_of_eq_None_iff)
  with assms(1) d show ?thesis
    by (auto simp: pt_inv_def set_pair_orders_def issued_def open_ids_def)
qed

lemma try_fill_True:
  assumes "try_fill_order ops orderId s = (Inr True, t)" "c_str orderId = orderId"
  shows "open_ids t = open_ids s - {orderId}" "orderId \<in> open_ids s"
    and "pt_openOrdersByPair t = pt_openOrdersByPair s"
    and "\<exists>d. pt_closedOrders t = pt_closedOrders s @ [d] \<and> od_orderId d = orderId"
proof -
  from try_fill_cases [OF assms(1)] assms(2) obtain request fp s1 where
      r: "map_of (pt_openOrders s) orderId = Some request" and c: "pt_core s1 = pt_core s"
      and e: "execute_order ops orderId request fp s1 = (Inr (), t)"
    by auto
  from execute_order_state [OF e] c
  show "open_ids t = open_ids s - {orderId}"
    and "pt_openOrdersByPair t = pt_openOrdersByPair s"
    and "\<exists>d. pt_closedOrders t = pt_closedOrders s @ [d] \<and> od_orderId d = orderId"
    by (auto simp: pt_core_eq open_ids_def keys_delete to_order_description_def)
  show "orderId \<in> open_ids s" using r by (force simp: open_ids_def dest: map_of_SomeD)
qed

lemma try_fill_not_True:
  assumes "try_fill_order ops orderId s = (r, t)" "r \<noteq> Inr True"
  shows "pt_core t = pt_core s"
  using try_fill_cases [OF assms(1)] assms(2) by auto

text \<open>One turn of the loop, by what happens to the order at the index.\<close>

lemma fill_loop_step:
  assumes "pt_openOrdersByPair s pair = pre @ x # rest"
  shows "fill_loop ops pair (Suc n) (length pre) s =
    (if x \<notin> open_ids s
     then fill_loop ops pair n (length pre) (set_pair_orders pair (pre @ rest) s)
     else case try_fill_order ops x s of
            (Inl e, t) \<Rightarrow> (Inl e, t)
          | (Inr True, t) \<Rightarrow> fill_loop ops pair n (length pre)
               (set_pair_orders pair (erase_at (length pre) (pt_openOrdersByPair t pair)) t)
          | (Inr False, t) \<Rightarrow> fill_loop ops pair n (Suc (length pre)) t)"
  by (auto simp: act_simps assms read_at_def contains_iff open_ids_def erase_at_split
      split: prod.split sum.split bool.split)

lemma set_pair_orders_simps [simp]:
  "pt_openOrdersByPair (set_pair_orders p ids s) = (pt_openOrdersByPair s)(p := ids)"
  "pt_openOrders (set_pair_orders p ids s) = pt_openOrders s"
  "pt_closedOrders (set_pair_orders p ids s) = pt_closedOrders s"
  "open_ids (set_pair_orders p ids s) = open_ids s"
  by (simp_all add: set_pair_orders_def open_ids_def)

definition loop_result ::
    "tradable_pair \<Rightarrow> string list \<Rightarrow> string list \<Rightarrow> 'w paper_trade_api \<Rightarrow> 'w paper_trade_api \<Rightarrow> bool" where
  "loop_result pair pre rest s t \<longleftrightarrow>
     pt_openOrdersByPair t pair = pre @ filter (\<lambda>i. i \<in> open_ids t) rest \<and>
     (\<forall>p. p \<noteq> pair \<longrightarrow> pt_openOrdersByPair t p = pt_openOrdersByPair s p) \<and>
     (\<exists>filled. pt_closedOrders t = pt_closedOrders s @ filled \<and>
        map od_orderId filled = filter (\<lambda>i. i \<in> open_ids s \<and> i \<notin> open_ids t) rest \<and>
        open_ids t = open_ids s - od_orderId ` set filled)"

lemma loop_result_gone:
  assumes "loop_result pair pre rest (set_pair_orders pair (pre @ rest) s) t" "x \<notin> open_ids s"
  shows "loop_result pair pre (x # rest) s t"
  using assms by (auto simp: loop_result_def)

lemma loop_result_filled:
  assumes "loop_result pair pre rest (set_pair_orders pair (pre @ rest) s1) t"
    and "try_fill_order ops x s = (Inr True, s1)" "c_str x = x" "x \<notin> set rest"
  shows "loop_result pair pre (x # rest) s t"
proof -
  note f = try_fill_True [OF assms(2,3)]
  from f(4) obtain d where d: "pt_closedOrders s1 = pt_closedOrders s @ [d]" "od_orderId d = x" by blast
  from assms(1) obtain filled where fl: "pt_closedOrders t = pt_closedOrders s1 @ filled"
      "map od_orderId filled = filter (\<lambda>i. i \<in> open_ids s1 \<and> i \<notin> open_ids t) rest"
      "open_ids t = open_ids s1 - od_orderId ` set filled"
    by (auto simp: loop_result_def)
  have "filter (\<lambda>i. i \<in> open_ids s1 \<and> i \<notin> open_ids t) rest =
      filter (\<lambda>i. i \<in> open_ids s \<and> i \<notin> open_ids t) rest"
    using assms(4) f(1) by (intro filter_cong) auto
  then show ?thesis
    using assms(1) f fl d unfolding loop_result_def
    by (intro conjI exI [of _ "d # filled"]) auto
qed

lemma loop_result_kept:
  assumes "loop_result pair (pre @ [x]) rest s1 t" "pt_core s1 = pt_core s"
    and "x \<in> open_ids s" "x \<notin> set rest"
  shows "loop_result pair pre (x # rest) s t"
proof -
  from assms(1) obtain filled where fl: "pt_closedOrders t = pt_closedOrders s1 @ filled"
      "map od_orderId filled = filter (\<lambda>i. i \<in> open_ids s1 \<and> i \<notin> open_ids t) rest"
      "open_ids t = open_ids s1 - od_orderId ` set filled"
    by (auto simp: loop_result_def)
  have o: "open_ids s1 = open_ids s" using assms(2) by (simp add: pt_core_eq open_ids_def)
  have "set (map od_orderId filled) \<subseteq> set rest" unfolding fl(2) by auto
  with assms(3,4) fl(3) o have "x \<in> open_ids t" by auto
  then show ?thesis
    using assms(1,2) fl o unfolding loop_result_def
    by (intro conjI exI [of _ filled]) (auto simp: pt_core_eq)
qed

lemma loop_outcome_Cons:
  assumes "(r = Inr () \<and> P) \<or> (\<exists>e i u. r = Inl e \<and> i \<in> set rest \<and> F i u e)" and "P \<Longrightarrow> Q"
  shows "(r = Inr () \<and> Q) \<or> (\<exists>e i u. r = Inl e \<and> i \<in> set (x # rest) \<and> F i u e)"
  using assms set_subset_Cons [of rest x] by blast

lemma fill_loop_spec:
  assumes "pt_openOrdersByPair s pair = pre @ rest" "distinct (pre @ rest)"
    and "\<forall>i \<in> set rest. c_str i = i"
    and "fill_loop ops pair (length rest) (length pre) s = (r, t)"
  shows "(r = Inr () \<and> loop_result pair pre rest s t)
       \<or> (\<exists>e i u. r = Inl e \<and> i \<in> set rest \<and> try_fill_order ops i u = (Inl e, t))"
  using assms
proof (induction rest arbitrary: pre s)
  case Nil
  then show ?case by (simp add: loop_result_def)
next
  case (Cons x rest)
  note step = fill_loop_step [OF Cons.prems(1), of ops "length rest"]
  have x: "x \<notin> set rest" "c_str x = x" and rest: "distinct (pre @ rest)"
      "\<forall>i \<in> set rest. c_str i = i" "distinct ((pre @ [x]) @ rest)"
    using Cons.prems(2,3) by auto
  obtain rx s1 where tf: "try_fill_order ops x s = (rx, s1)" by fastforce
  consider "x \<notin> open_ids s" | e where "x \<in> open_ids s" "rx = Inl e"
    | "x \<in> open_ids s" "rx = Inr True" | "x \<in> open_ids s" "rx = Inr False"
    by (cases rx) auto
  then show ?case
  proof cases
    case 1
    then have "fill_loop ops pair (length rest) (length pre) (set_pair_orders pair (pre @ rest) s) = (r, t)"
      using step Cons.prems(4) by simp
    from loop_outcome_Cons [OF Cons.IH [OF _ rest(1,2) this] loop_result_gone [OF _ 1]]
    show ?thesis by simp
  next
    case (2 e)
    then show ?thesis using step Cons.prems(4) tf by auto
  next
    case 3
    note f = try_fill_True [OF tf [unfolded 3(2)] x(2)]
    have "fill_loop ops pair (length rest) (length pre) (set_pair_orders pair (pre @ rest) s1) = (r, t)"
      using step Cons.prems(1,4) tf 3 f(3) by (simp add: erase_at_split)
    from loop_outcome_Cons [OF Cons.IH [OF _ rest(1,2) this] loop_result_filled [OF _ tf [unfolded 3(2)] x(2,1)]]
    show ?thesis by simp
  next
    case 4
    have c: "pt_core s1 = pt_core s" using try_fill_not_True [OF tf] 4 by simp
    then have ids: "pt_openOrdersByPair s1 pair = (pre @ [x]) @ rest"
      using Cons.prems(1) by (simp add: pt_core_eq)
    have "fill_loop ops pair (length rest) (length (pre @ [x])) s1 = (r, t)"
      using step Cons.prems(4) tf 4 by simp
    from loop_outcome_Cons [OF Cons.IH [OF ids rest(3,2) this] loop_result_kept [OF _ c 4(1) x(1)]]
    show ?thesis .
  qed
qed

section \<open>The loop as one walk over the queue\<close>

text \<open>
  What the handler is meant to do: walk over the ids that were queued when the message came, try
  each one that is still open once, keep in the queue those that were tried and not filled, and
  stop at the first exception, with the order that threw and what follows it still queued.
\<close>

fun visit_queue ::
    "'w stream_ops \<Rightarrow> string list \<Rightarrow> 'w paper_trade_api \<Rightarrow> (unit res \<times> string list) \<times> 'w paper_trade_api" where
  "visit_queue ops [] s = ((Inr (), []), s)"
| "visit_queue ops (i # ids) s =
    (if i \<notin> open_ids s then visit_queue ops ids s
     else case try_fill_order ops i s of
       (Inl e, t) \<Rightarrow> ((Inl e, i # ids), t)
     | (Inr filled, t) \<Rightarrow> (case visit_queue ops ids t of ((r, kept), u) \<Rightarrow>
          ((r, if filled then kept else i # kept), u)))"

text \<open>Trying an order neither reads nor writes the queues.\<close>

lemma on_stream_queue:
  "on_stream m (set_pair_orders p q s) = map_prod id (set_pair_orders p q) (on_stream m s)"
  by (simp add: on_stream_def set_pair_orders_def split: prod.split)

lemma fill_decision_queue:
  "fill_decision i request price (set_pair_orders p q s) =
    map_prod id (set_pair_orders p q) (fill_decision i request price s)"
  by (cases "rq_orderType request")
     (auto simp: fill_decision_def act_simps set_pair_orders_def split: prod.split)

lemma execute_order_queue:
  "execute_order ops i request fillPrice (set_pair_orders p q s) =
    map_prod id (set_pair_orders p q) (execute_order ops i request fillPrice s)"
proof -
  obtain g gv a sv where l: "order_legs (pt_fee s) request fillPrice = ((g, gv), (a, sv))"
    by (metis prod.collapse)
  moreover from l have "order_legs (pt_fee (set_pair_orders p q s)) request fillPrice = ((g, gv), (a, sv))"
    by (simp add: set_pair_orders_def)
  ultimately show ?thesis
    by (simp only: execute_order_eq)
       (simp add: set_pair_orders_def set_balance_def balance_def has_sufficient_funds_def Let_def
        split: sum.split)
qed

lemma try_fill_queue:
  "try_fill_order ops i (set_pair_orders p q s) = map_prod id (set_pair_orders p q) (try_fill_order ops i s)"
  by (auto simp: try_fill_order_def act_simps Let_def on_stream_queue fill_decision_queue execute_order_queue
      split: prod.split sum.split option.split)

lemma visit_queue_queue:
  "visit_queue ops ids (set_pair_orders p q s) = map_prod id (set_pair_orders p q) (visit_queue ops ids s)"
  by (induction ids arbitrary: s) (auto simp: try_fill_queue split: prod.split sum.split)

lemma try_fill_keeps_queue:
  "try_fill_order ops i s = (r, t) \<Longrightarrow> pt_openOrdersByPair t = pt_openOrdersByPair s"
  using try_fill_cases [of ops i s r t] execute_order_state(2) by (fastforce simp: pt_core_eq)

lemma set_pair_orders_twice [simp]: "set_pair_orders p q (set_pair_orders p q' s) = set_pair_orders p q s"
  by (simp add: set_pair_orders_def)

lemma set_pair_orders_same: "pt_openOrdersByPair s p = q \<Longrightarrow> set_pair_orders p q s = s"
  by (auto simp: set_pair_orders_def fun_upd_idem)

lemma fill_loop_visits:
  assumes "pt_openOrdersByPair s pair = pre @ ids"
  shows "fill_loop ops pair (length ids) (length pre) s =
    (case visit_queue ops ids s of ((r, kept), t) \<Rightarrow> (r, set_pair_orders pair (pre @ kept) t))"
  using assms
proof (induction ids arbitrary: pre s)
  case Nil
  then show ?case by (simp add: set_pair_orders_same)
next
  case (Cons x ids)
  note step = fill_loop_step [OF Cons.prems, of ops "length ids"]
  obtain rx s1 where tf: "try_fill_order ops x s = (rx, s1)" by fastforce
  have q: "pt_openOrdersByPair s1 pair = pre @ x # ids" using try_fill_keeps_queue [OF tf] Cons.prems by simp
  have erased: "fill_loop ops pair (length ids) (length pre) (set_pair_orders pair (pre @ ids) u) =
      (case visit_queue ops ids u of ((r, kept), t) \<Rightarrow> (r, set_pair_orders pair (pre @ kept) t))" for u
    using Cons.IH [of "set_pair_orders pair (pre @ ids) u" pre]
    by (simp add: visit_queue_queue split: prod.split)
  show ?case
  proof (cases "x \<in> open_ids s")
    case False
    then show ?thesis using step erased by simp
  next
    case op: True
    show ?thesis
    proof (cases rx)
      case (Inl e)
      then show ?thesis using step tf op q by (simp add: set_pair_orders_same)
    next
      case (Inr filled)
      have "fill_loop ops pair (length ids) (length (pre @ [x])) s1 =
          (case visit_queue ops ids s1 of ((r, kept), t) \<Rightarrow> (r, set_pair_orders pair ((pre @ [x]) @ kept) t))"
        using q by (intro Cons.IH) simp
      with Inr show ?thesis using step tf op q erased [of s1]
        by (cases filled) (auto simp: erase_at_split split: prod.split)
    qed
  qed
qed

section \<open>The account over any sequence of operations\<close>

lemma pt_inv_fill_loop:
  "pt_inv s \<Longrightarrow> pt_inv (snd (fill_loop ops pair n index s))"
proof (induction n arbitrary: index s)
  case 0
  then show ?case by simp
next
  case (Suc n)
  show ?case
  proof (cases "index < length (pt_openOrdersByPair s pair)")
    case False
    then show ?thesis using Suc.prems by (simp add: act_simps read_at_def)
  next
    case True
    obtain pre x rest where ids: "pt_openOrdersByPair s pair = pre @ x # rest" "index = length pre"
      using id_take_nth_drop [OF True] True by (metis length_take min.absorb4)
    note step = fill_loop_step [OF ids(1), of ops n]
    have "x \<in> set (pt_openOrdersByPair s pair)" by (simp add: ids(1))
    with Suc.prems have cx: "c_str x = x" unfolding pt_inv_def by (meson c_str_issued)
    have erase: "pt_inv (set_pair_orders pair (pre @ rest) u)"
      if "pt_inv u" "x \<notin> open_ids u" "pt_openOrdersByPair u pair = pre @ x # rest" for u
      using pt_inv_erase [of u pair "length pre"] that by (simp add: erase_at_split)
    obtain rx s1 where tf: "try_fill_order ops x s = (rx, s1)" by fastforce
    have i1: "pt_inv s1" by (rule pt_inv_try_fill [OF Suc.prems tf])
    show ?thesis
    proof (cases "rx = Inr True")
      case True
      note f = try_fill_True [OF tf [unfolded True] cx]
      have "pt_openOrdersByPair s1 pair = pre @ x # rest" using f(3) ids(1) by simp
      moreover from this f(1) have "pt_inv (set_pair_orders pair (pre @ rest) s1)"
        by (intro erase i1) simp_all
      ultimately show ?thesis
        using step tf ids(2) Suc.IH True f(2) by (simp add: erase_at_split del: fill_loop.simps)
    next
      case False
      have "pt_inv (set_pair_orders pair (pre @ rest) s)" if "x \<notin> open_ids s"
        by (rule erase [OF Suc.prems that ids(1)])
      with False show ?thesis
        using step tf ids(2) Suc.IH i1
        by (cases rx) (auto split: bool.splits simp del: fill_loop.simps)
    qed
  qed
qed

definition queue_order :: "order_request \<Rightarrow> 'w paper_trade_api \<Rightarrow> 'w paper_trade_api" where
  "queue_order request s = set_pair_orders (rq_pair request)
     (pt_openOrdersByPair s (rq_pair request) @ [show_int (pt_nextOrderNumber s)])
     (s\<lparr>pt_nextOrderNumber := pt_nextOrderNumber s + 1,
        pt_openOrders := emplace (show_int (pt_nextOrderNumber s)) request (pt_openOrders s)\<rparr>)"

lemma fresh_id:
  assumes "pt_inv s"
  shows "show_int (pt_nextOrderNumber s) \<notin> open_ids s"
    and "show_int (pt_nextOrderNumber s) \<notin> od_orderId ` set (pt_closedOrders s)"
    and "show_int (pt_nextOrderNumber s) \<notin> set (pt_openOrdersByPair s p)"
    and "map_of (pt_openOrders s) (show_int (pt_nextOrderNumber s)) = None"
proof -
  let ?i = "show_int (pt_nextOrderNumber s)"
  have fresh: "\<not> issued s ?i" by (auto simp: issued_def show_int_inject)
  with assms show o: "?i \<notin> open_ids s" and "?i \<notin> od_orderId ` set (pt_closedOrders s)"
    and "?i \<notin> set (pt_openOrdersByPair s p)"
    by (auto simp: pt_inv_def)
  from o show "map_of (pt_openOrders s) ?i = None" by (simp add: open_ids_def map_of_eq_None_iff)
qed

lemma queue_order_simps:
  assumes "pt_inv s"
  shows "pt_openOrders (queue_order r s) = pt_openOrders s @ [(show_int (pt_nextOrderNumber s), r)]"
    and "pt_closedOrders (queue_order r s) = pt_closedOrders s"
    and "open_ids (queue_order r s) = insert (show_int (pt_nextOrderNumber s)) (open_ids s)"
    and "pt_openOrdersByPair (queue_order r s) p = (if p = rq_pair r
           then pt_openOrdersByPair s p @ [show_int (pt_nextOrderNumber s)] else pt_openOrdersByPair s p)"
    and "issued (queue_order r s) i \<longleftrightarrow> issued s i \<or> i = show_int (pt_nextOrderNumber s)"
    and "map_of (pt_openOrders (queue_order r s)) i = (if i = show_int (pt_nextOrderNumber s)
           then Some r else map_of (pt_openOrders s) i)"
proof -
  have n: "1 \<le> pt_nextOrderNumber s" using assms by (simp add: pt_inv_def)
  show o: "pt_openOrders (queue_order r s) = pt_openOrders s @ [(show_int (pt_nextOrderNumber s), r)]"
    by (simp add: queue_order_def emplace_def fresh_id(4) [OF assms])
  show "pt_closedOrders (queue_order r s) = pt_closedOrders s"
    and "pt_openOrdersByPair (queue_order r s) p = (if p = rq_pair r
           then pt_openOrdersByPair s p @ [show_int (pt_nextOrderNumber s)] else pt_openOrdersByPair s p)"
    by (simp_all add: queue_order_def)
  show "open_ids (queue_order r s) = insert (show_int (pt_nextOrderNumber s)) (open_ids s)"
    by (auto simp: open_ids_def o)
  show "map_of (pt_openOrders (queue_order r s)) i = (if i = show_int (pt_nextOrderNumber s)
           then Some r else map_of (pt_openOrders s) i)"
    using fresh_id(4) [OF assms] by (auto simp: o map_add_def split: option.splits)
  have "pt_nextOrderNumber (queue_order r s) = pt_nextOrderNumber s + 1"
    by (simp add: queue_order_def set_pair_orders_def)
  with n show "issued (queue_order r s) i \<longleftrightarrow> issued s i \<or> i = show_int (pt_nextOrderNumber s)"
    unfolding issued_def by (metis add1_zle_eq order_le_less zle_add1_eq_le)
qed

lemma pt_inv_queue_order:
  assumes "pt_inv s"
  shows "pt_inv (queue_order r s)"
proof -
  note q = queue_order_simps [OF assms, of r] and f = fresh_id [OF assms]
  have n: "pt_nextOrderNumber (queue_order r s) = pt_nextOrderNumber s + 1"
    by (simp add: queue_order_def set_pair_orders_def)
  have "distinct (map fst (pt_openOrders (queue_order r s)))"
    using assms f(1) by (auto simp: q pt_inv_def open_ids_def image_iff)
  moreover have "\<forall>p. distinct (pt_openOrdersByPair (queue_order r s) p) \<and>
      (\<forall>i \<in> set (pt_openOrdersByPair (queue_order r s) p). issued (queue_order r s) i)"
    using assms f(3) by (auto simp: q pt_inv_def)
  moreover have "\<forall>i x. map_of (pt_openOrders (queue_order r s)) i = Some x \<longrightarrow>
      (\<forall>p. i \<in> set (pt_openOrdersByPair (queue_order r s) p) \<longleftrightarrow> p = rq_pair x)"
    using assms f(3) by (simp add: q(4,6) pt_inv_def)
  moreover have "\<forall>d \<in> set (pt_closedOrders (queue_order r s)).
      issued (queue_order r s) (od_orderId d) \<and> od_orderId d \<notin> open_ids (queue_order r s)"
    using assms f(2) by (auto simp: q(2,3,5) pt_inv_def image_iff)
  ultimately show ?thesis using assms unfolding pt_inv_def by (simp add: n q(2,3,5))
qed

lemma add_order_eq:
  "add_order ops request s =
    (let i = show_int (pt_nextOrderNumber s) in
     act_bind (on_stream (so_get_subscription_status ops (create_trade_sub (rq_pair request)))) (\<lambda>status.
     act_seq (if status = UNSUBSCRIBED
              then on_stream (so_subscribe ops (create_trade_sub [rq_pair request])) else act_return ())
    (act_bind (try_fill_order ops i) (\<lambda>_. act_return i))) (queue_order request s))"
  by (simp add: add_order_def queue_order_def act_simps Let_def set_pair_orders_def)

lemma add_order_cases:
  assumes "add_order ops request s = (r, t)"
  shows "pt_core t = pt_core (queue_order request s) \<and> (\<exists>e. r = Inl e) \<or>
    (\<exists>u rf. pt_core u = pt_core (queue_order request s) \<and>
       try_fill_order ops (show_int (pt_nextOrderNumber s)) u = (rf, t) \<and>
       r = (case rf of Inl e \<Rightarrow> Inl e | Inr _ \<Rightarrow> Inr (show_int (pt_nextOrderNumber s))))"
proof -
  let ?q = "queue_order request s" and ?i = "show_int (pt_nextOrderNumber s)"
  obtain r1 s1 where 1: "on_stream (so_get_subscription_status ops (create_trade_sub (rq_pair request))) ?q = (r1, s1)"
    by fastforce
  note c1 = core_on_stream [OF 1]
  show ?thesis
  proof (cases r1)
    case (Inl e)
    then show ?thesis using assms 1 c1 by (auto simp: add_order_eq act_simps Let_def)
  next
    case (Inr status)
    obtain r2 s2 where 2: "(if status = UNSUBSCRIBED
        then on_stream (so_subscribe ops (create_trade_sub [rq_pair request])) else act_return ()) s1 = (r2, s2)"
      by fastforce
    have c2: "pt_core s2 = pt_core ?q"
    proof (cases "status = UNSUBSCRIBED")
      case True
      with 2 have "on_stream (so_subscribe ops (create_trade_sub [rq_pair request])) s1 = (r2, s2)" by simp
      from core_on_stream [OF this] c1 show ?thesis by simp
    qed (use 2 c1 in \<open>simp add: act_return_def\<close>)
    obtain r3 s3 where 3: "try_fill_order ops ?i s2 = (r3, s3)" by fastforce
    have "add_order ops request s = (case r2 of Inl e \<Rightarrow> (Inl e, s2)
        | Inr _ \<Rightarrow> (case r3 of Inl e \<Rightarrow> Inl e | Inr _ \<Rightarrow> Inr ?i, s3))"
      unfolding add_order_eq Let_def act_bind_def [of _ _ ?q] 1 Inr
      by (simp add: act_bind_def [of _ _ s1] 2 3 act_bind_def [of _ _ s2] act_return_def
          split: sum.splits)
    with assms c2 3 show ?thesis by (cases r2) auto
  qed
qed

lemma pt_inv_add_order:
  assumes "pt_inv s"
  shows "pt_inv (snd (add_order ops request s))"
proof -
  obtain r t where a: "add_order ops request s = (r, t)" by fastforce
  have q: "pt_inv u" if "pt_core u = pt_core (queue_order request s)" for u
    using pt_inv_core [OF that] pt_inv_queue_order [OF assms] by simp
  from add_order_cases [OF a] pt_inv_try_fill q have "pt_inv t" by blast
  with a show ?thesis by simp
qed

lemma open_ids_delete:
  "open_ids (s\<lparr>pt_openOrders := AList.delete i (pt_openOrders s)\<rparr>) = open_ids s - {i}"
  by (simp add: open_ids_def keys_delete)

lemma pt_inv_cancel: "pt_inv s \<Longrightarrow> pt_inv (snd (cancel_order i s))"
  by (auto simp: cancel_order_def act_simps pt_inv_def issued_def open_ids_delete
      map_of_delete distinct_delete simp del: map_of_eq_Some_iff split: if_splits)

datatype account_op =
    Add_order order_request
  | Add_order_confirm order_request
  | Cancel_order string
  | Trade_message trade_update_message

text \<open>The state an operation leaves, whether it returns or throws.\<close>

fun account_step :: "'w stream_ops \<Rightarrow> account_op \<Rightarrow> 'w paper_trade_api \<Rightarrow> 'w paper_trade_api" where
  "account_step ops (Add_order r) s = snd (add_order ops r s)"
| "account_step ops (Add_order_confirm r) s = snd (add_order_confirm ops r s)"
| "account_step ops (Cancel_order i) s = snd (cancel_order i s)"
| "account_step ops (Trade_message m) s = snd (trade_update_handler ops m s)"

lemma pt_inv_step:
  assumes "pt_inv s"
  shows "pt_inv (account_step ops op s)"
proof (cases op)
  case (Add_order r)
  then show ?thesis using pt_inv_add_order [OF assms] by simp
next
  case (Add_order_confirm r)
  obtain ra t where a: "add_order ops r s = (ra, t)" by fastforce
  have t: "pt_inv t" using pt_inv_add_order [OF assms, of ops r] a by simp
  obtain rl u where l: "on_stream (so_get_last_trade ops (rq_pair r)) t = (rl, u)" by fastforce
  have "pt_inv u" using pt_inv_core [OF core_on_stream [OF l]] t by simp
  with t Add_order_confirm a l show ?thesis
    by (simp add: add_order_confirm_def act_bind_def act_return_def split: sum.splits)
next
  case (Cancel_order i)
  then show ?thesis using pt_inv_cancel [OF assms] by simp
next
  case (Trade_message m)
  then show ?thesis
    using pt_inv_fill_loop [OF assms] by (simp add: trade_update_handler_def act_simps)
qed

lemma pt_inv_create: "create_paper_trade_api config stream = Inr s \<Longrightarrow> pt_inv s"
  by (auto simp: create_paper_trade_api_def res_bind_Inr_iff pt_inv_def open_ids_def)

lemma pt_inv_run: "pt_inv s \<Longrightarrow> pt_inv (fold (account_step ops) os s)"
  by (induction os arbitrary: s) (simp_all add: pt_inv_step)

lemma distinct_count_list: "distinct xs \<Longrightarrow> count_list xs i = (if i \<in> set xs then 1 else 0)"
  by (induction xs) auto

text \<open>
  C1: after any sequence of operations, successful or not, no order has been executed twice,
  none is both open and closed, and every open order waits exactly once, in the queue of its
  own pair; all ids are numbers the account has issued.
\<close>

theorem account_invariant:
  assumes "create_paper_trade_api config stream = Inr s0"
    and "s = fold (account_step ops) os s0"
  shows "distinct (map od_orderId (pt_closedOrders s)) \<and> distinct (map fst (pt_openOrders s))
    \<and> od_orderId ` set (pt_closedOrders s) \<inter> fst ` set (pt_openOrders s) = {}
    \<and> (\<forall>i r p. map_of (pt_openOrders s) i = Some r \<longrightarrow>
          count_list (pt_openOrdersByPair s p) i = (if p = rq_pair r then 1 else 0))
    \<and> (\<forall>i \<in> od_orderId ` set (pt_closedOrders s) \<union> fst ` set (pt_openOrders s).
          \<exists>k. i = show_int k \<and> 1 \<le> k \<and> k < pt_nextOrderNumber s)"
proof -
  have inv: "pt_inv s" using pt_inv_run [OF pt_inv_create [OF assms(1)]] assms(2) by simp
  have "count_list (pt_openOrdersByPair s p) i = (if p = rq_pair r then 1 else 0)"
    if "map_of (pt_openOrders s) i = Some r" for i r p
  proof -
    have "distinct (pt_openOrdersByPair s p)" "i \<in> set (pt_openOrdersByPair s p) \<longleftrightarrow> p = rq_pair r"
      using inv that by (simp_all add: pt_inv_def)
    then show ?thesis by (simp add: distinct_count_list)
  qed
  with inv show ?thesis by (auto simp: pt_inv_def open_ids_def issued_def)
qed

definition demo_ops :: "trade_update stream_ops" where
  "demo_ops = \<lparr>so_get_last_trade = (\<lambda>_. act_read (\<lambda>w. w)),
     so_get_subscription_status = (\<lambda>_. act_return UNSUBSCRIBED),
     so_subscribe = (\<lambda>_. act_return ()), so_get_time = tu_timeStamp\<rparr>"

theorem account_invariant_witness:
  "let pair = \<lparr>tp_asset = ''A'', tp_priceUnit = ''B''\<rparr>;
       w = \<lparr>tu_timeStamp = 7, tu_price = Fin 2, tu_volume = Fin 1\<rparr>;
       s0 = \<lparr>pt_stream = w, pt_fee = 0, pt_trailingOrderLimits = Map.empty,
             pt_balances = [(''B'', 50000000000)], pt_openOrders = [], pt_openOrdersByPair = (\<lambda>_. []),
             pt_closedOrders = [], pt_nextOrderNumber = 1\<rparr>;
       s = fold (account_step demo_ops) [Add_order (create_market_order pair BUY (Fin 1)),
             Add_order (create_limit_order pair BUY (Fin 1) (Fin 1)), Cancel_order ''9''] s0
   in create_paper_trade_api \<lparr>pc_fee = 0, pc_balances = [(''B'', Fin 5)]\<rparr> w = Inr s0
    \<and> distinct (map od_orderId (pt_closedOrders s))
    \<and> od_orderId ` set (pt_closedOrders s) \<inter> fst ` set (pt_openOrders s) = {}"
proof -
  let ?w = "\<lparr>tu_timeStamp = 7, tu_price = Fin 2, tu_volume = Fin 1\<rparr>"
  let ?c = "\<lparr>pc_fee = 0, pc_balances = [(''B'', Fin 5)]\<rparr>"
  let ?s0 = "\<lparr>pt_stream = ?w, pt_fee = 0, pt_trailingOrderLimits = Map.empty,
             pt_balances = [(''B'', 50000000000)], pt_openOrders = [], pt_openOrdersByPair = (\<lambda>_. []),
             pt_closedOrders = [], pt_nextOrderNumber = 1\<rparr>"
  let ?p = "\<lparr>tp_asset = ''A'', tp_priceUnit = ''B''\<rparr>"
  let ?os = "[Add_order (create_market_order ?p BUY (Fin 1)),
             Add_order (create_limit_order ?p BUY (Fin 1) (Fin 1)), Cancel_order ''9'']"
  have v: "to_integer_volume (Fin 5) = Inr 50000000000" by code_simp
  have c: "create_paper_trade_api ?c ?w = Inr ?s0"
    by (simp add: create_paper_trade_api_def create_initialised_balances_def v to_unordered_map_def emplace_def)
  from account_invariant [OF c refl, of demo_ops ?os] c show ?thesis unfolding Let_def by blast
qed

text \<open>
  C4: a trade message goes through the queue of its pair once, in order, although the loop
  erases from it: the handler does what \<open>visit_queue\<close> does, which tries every queued order that
  is still open once, on the state the orders before it left, and stops at the first exception.
  When the handler returns, the queue is what is still open of it, the orders closed are those
  of the queue that were open and no longer are, in queue order, and the other queues are
  untouched. When it throws, the exception is the one of filling some queued order.
\<close>

theorem trade_update_handler_spec:
  assumes "pt_inv s" "trade_update_handler ops m s = (r, t)"
    and "ids = pt_openOrdersByPair s (tm_pair m)"
  shows "(\<exists>kept u. visit_queue ops ids s = ((r, kept), u) \<and> t = set_pair_orders (tm_pair m) kept u) \<and>
    (r = Inr ()
      \<and> pt_openOrdersByPair t (tm_pair m) = filter (\<lambda>i. i \<in> open_ids t) ids
      \<and> (\<forall>p. p \<noteq> tm_pair m \<longrightarrow> pt_openOrdersByPair t p = pt_openOrdersByPair s p)
      \<and> (\<exists>filled. pt_closedOrders t = pt_closedOrders s @ filled
          \<and> map od_orderId filled = filter (\<lambda>i. i \<in> open_ids s \<and> i \<notin> open_ids t) ids
          \<and> open_ids t = open_ids s - od_orderId ` set filled)
    \<or> (\<exists>e i u. r = Inl e \<and> i \<in> set ids \<and> try_fill_order ops i u = (Inl e, t)))"
proof (intro conjI)
  from fill_loop_visits [of s "tm_pair m" "[]" ids ops] assms(2,3)
  show "\<exists>kept u. visit_queue ops ids s = ((r, kept), u) \<and> t = set_pair_orders (tm_pair m) kept u"
    by (auto simp: trade_update_handler_def act_simps split: prod.splits)
next
  have "distinct ids" "\<forall>i \<in> set ids. c_str i = i"
    using assms(1) c_str_issued unfolding assms(3) pt_inv_def by blast+
  then show "r = Inr ()
      \<and> pt_openOrdersByPair t (tm_pair m) = filter (\<lambda>i. i \<in> open_ids t) ids
      \<and> (\<forall>p. p \<noteq> tm_pair m \<longrightarrow> pt_openOrdersByPair t p = pt_openOrdersByPair s p)
      \<and> (\<exists>filled. pt_closedOrders t = pt_closedOrders s @ filled
          \<and> map od_orderId filled = filter (\<lambda>i. i \<in> open_ids s \<and> i \<notin> open_ids t) ids
          \<and> open_ids t = open_ids s - od_orderId ` set filled)
    \<or> (\<exists>e i u. r = Inl e \<and> i \<in> set ids \<and> try_fill_order ops i u = (Inl e, t))"
    using fill_loop_spec [of s "tm_pair m" "[]" ids ops r t] assms(2,3)
    by (simp add: trade_update_handler_def act_simps loop_result_def)
qed

text \<open>Instances of the account for the examples.\<close>

definition demo_pair :: tradable_pair where
  "demo_pair = \<lparr>tp_asset = ''A'', tp_priceUnit = ''B''\<rparr>"

definition demo_account :: "(string \<times> order_request) list \<Rightarrow> rat \<Rightarrow> trade_update paper_trade_api" where
  "demo_account orders price = \<lparr>pt_stream = \<lparr>tu_timeStamp = 7, tu_price = Fin price, tu_volume = Fin 1\<rparr>,
     pt_fee = 0, pt_trailingOrderLimits = Map.empty, pt_balances = [(''B'', 50000000000)],
     pt_openOrders = orders, pt_openOrdersByPair = (\<lambda>p. if p = demo_pair then map fst orders else []),
     pt_closedOrders = [], pt_nextOrderNumber = 3\<rparr>"

lemma demo_inv:
  assumes "orders = [] \<or> (\<exists>r. rq_pair r = demo_pair \<and> orders = [(''1'', r)]) \<or>
    (\<exists>r r'. rq_pair r = demo_pair \<and> rq_pair r' = demo_pair \<and> orders = [(''1'', r), (''2'', r')])"
  shows "pt_inv (demo_account orders price)"
proof -
  have "show_int 1 = ''1''" "show_int 2 = ''2''" by code_simp+
  then have "issued (demo_account orders price) ''1''" "issued (demo_account orders price) ''2''"
    by (auto simp: issued_def demo_account_def intro: exI [of _ 1] exI [of _ 2])
  with assms show ?thesis
    by (auto simp: pt_inv_def demo_account_def open_ids_def split: if_splits)
qed

theorem trade_update_handler_spec_witness:
  "let s = demo_account [(''1'', create_limit_order demo_pair BUY (Fin 1) (Fin 1))] 2;
       (r, t) = trade_update_handler demo_ops \<lparr>tm_pair = demo_pair, tm_trade = empty_trade_update\<rparr> s
   in pt_inv s \<and> visit_queue demo_ops [''1''] s = ((r, [''1'']), t) \<and> r = Inr () \<and>
      pt_openOrdersByPair t demo_pair = [''1''] \<and> pt_closedOrders t = []"
proof -
  let ?r = "create_limit_order demo_pair BUY (Fin 1) (Fin 1)"
  let ?s = "demo_account [(''1'', ?r)] 2"
  let ?m = "\<lparr>tm_pair = demo_pair, tm_trade = empty_trade_update\<rparr>"
  have i: "pt_inv ?s" by (rule demo_inv) (simp add: create_limit_order_def)
  obtain r t where h: "trade_update_handler demo_ops ?m ?s = (r, t)" by fastforce
  have p: "deq (Fin 2) 0 = False" "Fin 2 \<le> Fin 1 \<longleftrightarrow> False" by code_simp+
  have c: "c_str ''1'' = ''1''" by (simp add: c_str_def)
  have f: "try_fill_order demo_ops ''1'' ?s = (Inr False, ?s)"
    by (simp add: try_fill_order_def c act_simps demo_account_def demo_ops_def on_stream_def
        fill_decision_def create_limit_order_def should_close_limit_order_def rq_get_def p Let_def)
  have q: "pt_openOrdersByPair ?s demo_pair = [''1'']" "open_ids ?s = {''1''}" "pt_closedOrders ?s = []"
    by (simp_all add: demo_account_def open_ids_def)
  have "(r, t) = (Inr (), ?s)"
    using h fill_loop_step [of ?s demo_pair "[]" "''1''" "[]" demo_ops 0]
    by (simp add: trade_update_handler_def act_simps q f)
  moreover have "visit_queue demo_ops [''1''] ?s = ((Inr (), [''1'']), ?s)" by (simp add: q f)
  ultimately show ?thesis
    using trade_update_handler_spec [OF i h refl] i h q by (simp add: Let_def)
qed

text \<open>
  C5: an execution either succeeds and moves exactly the two amounts, in units of 1e-10 and
  rounded down, without the sold balance wrapping around, or it leaves the account as it was:
  with an insufficient balance it throws, and an amount that does not fit in 64 bits has no
  meaning. The other balances are never touched.
\<close>

theorem execute_order_balances:
  assumes "order_legs (pt_fee s) request fillPrice = ((g, gv), (a, sv))" "g \<noteq> a"
    and "execute_order ops orderId request fillPrice s = (r, t)"
  shows "(\<exists>G S. r = Inr () \<and> to_integer_volume gv = Inr G \<and> to_integer_volume sv = Inr S
        \<and> unat (balance t a) + unat S = unat (balance s a)
        \<and> balance t g = balance s g + G
        \<and> (\<forall>other. other \<noteq> g \<longrightarrow> other \<noteq> a \<longrightarrow> balance t other = balance s other)
        \<and> pt_closedOrders t = pt_closedOrders s @
            [to_order_description orderId fillPrice (so_get_time ops (pt_stream s)) request]
        \<and> map_of (pt_openOrders t) = (map_of (pt_openOrders s))(orderId := None))
    \<or> t = s \<and> (\<exists>G S. to_integer_volume gv = Inr G \<and> to_integer_volume sv = Inr S
        \<and> \<not> has_sufficient_funds s a S
        \<and> r = Inl (Mb_exception (''Insufficient funds ('' @ a @ '')'')))
    \<or> t = s \<and> r = Inl (Undefined_behaviour ''double to unsigned long long'')
        \<and> (isl (to_integer_volume gv) \<or> isl (to_integer_volume sv))"
proof (cases "to_integer_volume gv")
  case (Inl e)
  then have "e = Undefined_behaviour ''double to unsigned long long''"
    by (auto simp: to_integer_volume_def to_u64_def split: if_splits)
  with Inl assms(3) show ?thesis by (simp add: execute_order_eq [OF assms(1)])
next
  case G: (Inr G)
  show ?thesis
  proof (cases "to_integer_volume sv")
    case (Inl e)
    then have "e = Undefined_behaviour ''double to unsigned long long''"
      by (auto simp: to_integer_volume_def to_u64_def split: if_splits)
    with G Inl assms(3) show ?thesis by (simp add: execute_order_eq [OF assms(1)])
  next
    case S: (Inr S)
    show ?thesis
    proof (cases "has_sufficient_funds s a S")
      case False
      with G S assms(3) show ?thesis by (simp add: execute_order_eq [OF assms(1)])
    next
      case True
      then have le: "S \<le> balance s a"
        by (auto simp: has_sufficient_funds_def balance_def split: option.splits)
      have b: "balance (u\<lparr>pt_closedOrders := c, pt_openOrders := x\<rparr>) y = balance u y" for u c x y
        by (simp add: balance_def)
      have "unat (balance s a - S) + unat S = unat (balance s a)"
        using le by (simp add: unat_sub word_le_nat_alt)
      with True G S assms(2,3) show ?thesis
        by (auto simp: execute_order_eq [OF assms(1)] Let_def b fun_eq_iff map_of_delete)
    qed
  qed
qed

theorem execute_order_balances_witness:
  "let s = demo_account [(''1'', create_market_order demo_pair BUY (Fin 1))] 2;
       (r, t) = execute_order demo_ops ''1'' (create_market_order demo_pair BUY (Fin 1)) (Fin 2) s
   in r = Inr () \<and> balance t ''A'' = 10000000000 \<and> unat (balance t ''B'') + 20000000000 = unat (balance s ''B'')"
proof -
  let ?r = "create_market_order demo_pair BUY (Fin 1)"
  let ?s = "demo_account [(''1'', ?r)] 2"
  obtain r t where e: "execute_order demo_ops ''1'' ?r (Fin 2) ?s = (r, t)" by fastforce
  have cost: "calculate_cost (Fin 2) (Fin 1) = Fin 2" "Fin 2 * 0 * lit (1 / 100) = Fin 0" "Fin 2 + Fin 0 = Fin 2"
    by code_simp+
  have l: "order_legs (pt_fee ?s) ?r (Fin 2) = ((''A'', Fin 1), (''B'', Fin 2))"
    by (simp add: order_legs_def demo_account_def cost Let_def) (simp add: create_market_order_def demo_pair_def)
  have v: "to_integer_volume (Fin 1) = Inr 10000000000" "to_integer_volume (Fin 2) = Inr 20000000000"
    by code_simp+
  have f: "has_sufficient_funds ?s ''B'' 20000000000"
    by (simp add: has_sufficient_funds_def demo_account_def)
  have b: "balance ?s ''A'' = 0" by (simp add: balance_def demo_account_def)
  from execute_order_balances [OF l _ e] v f b show ?thesis by (auto simp: e)
qed

section \<open>Fill rules over a market stream\<close>

text \<open>
  What the account relies on: while the invariant of the stream holds, asking for the last trade
  gives the price of the stream's view of the market, and changes neither the view nor the
  invariant.
\<close>

locale price_feed =
  fixes ops :: "'w stream_ops" and price :: "'w \<Rightarrow> tradable_pair \<Rightarrow> double" and stream_inv :: "'w \<Rightarrow> bool"
  assumes last_trade: "stream_inv w \<Longrightarrow> so_get_last_trade ops p w = (Inr t, w') \<Longrightarrow> tu_price t = price w p"
    and last_trade_view: "stream_inv w \<Longrightarrow> so_get_last_trade ops p w = (r, w') \<Longrightarrow>
      price w' = price w \<and> stream_inv w'"

text \<open>The rule that an order of a type is filled by, at a price of the market.\<close>

definition fill_rule :: "order_request \<Rightarrow> double option \<Rightarrow> double \<Rightarrow> double \<Rightarrow> bool" where
  "fill_rule request limit price fillPrice =
     (case rq_orderType request of
        MARKET \<Rightarrow> fillPrice = price
      | LIMIT \<Rightarrow> fillPrice = rq_get request ASSET_PRICE \<and>
          (if rq_action request = BUY then price \<le> fillPrice else fillPrice \<le> price)
      | STOP_LOSS \<Rightarrow> fillPrice = rq_get request STOP_PRICE \<and>
          (if rq_action request = BUY then fillPrice \<le> price else price \<le> fillPrice)
      | TRAILING_STOP_LOSS \<Rightarrow> fillPrice = price \<and>
          (let m = (case limit of None \<Rightarrow> price | Some l \<Rightarrow> l); delta = rq_get request TRAILING_DELTA in
           if rq_action request = BUY then dmin m price * (of_int_d 1 + delta) \<le> price
           else price \<le> dmax m price * (of_int_d 1 - delta))
      | TAKE_PROFIT \<Rightarrow> False)"

lemma trade_action_not_BUY [simp]: "a \<noteq> BUY \<longleftrightarrow> a = SELL"
  by (cases a) simp_all

lemma fill_decision_rule:
  assumes "fill_decision i request p s = (Inr d, t)"
  shows "case d of
      Some fp \<Rightarrow> fill_rule request (pt_trailingOrderLimits s i) p fp
    | None \<Rightarrow> \<forall>fp. \<not> fill_rule request (pt_trailingOrderLimits s i) p fp"
proof (cases "rq_orderType request")
  case TRAILING_STOP_LOSS
  with assms show ?thesis
    by (cases "pt_trailingOrderLimits s i"; cases "rq_action request")
       (auto simp: fill_decision_def fill_rule_def act_simps Let_def
         should_close_trailing_stop_loss_order_def split: if_splits)
qed (use assms in \<open>auto simp: fill_decision_def fill_rule_def act_simps should_close_limit_order_def
       should_close_stop_loss_order_def Let_def split: if_splits\<close>)

lemma fill_decision_stream:
  "fill_decision i request p s = (r, t) \<Longrightarrow> pt_stream t = pt_stream s"
  by (cases "rq_orderType request")
     (auto simp: fill_decision_def act_simps split: prod.splits if_splits)

lemma execute_order_stream:
  assumes "execute_order ops orderId request fillPrice s = (r, t)"
  shows "pt_stream t = pt_stream s"
proof -
  obtain g gv a sv where "order_legs (pt_fee s) request fillPrice = ((g, gv), (a, sv))"
    by (metis prod.collapse)
  from execute_order_eq [OF this, of ops orderId] assms show ?thesis
    by (auto simp: Let_def split: sum.splits if_splits)
qed

text \<open>Trying to fill an order does nothing to the stream but ask for the last trade.\<close>

lemma try_fill_stream:
  assumes "try_fill_order ops i s = (r, t)"
  shows "pt_stream t = pt_stream s \<or> (\<exists>p r'. so_get_last_trade ops p (pt_stream s) = (r', pt_stream t))"
proof (cases "map_of (pt_openOrders s) (c_str i)")
  case None
  with assms show ?thesis by (auto simp: try_fill_order_def act_simps Let_def)
next
  case (Some request)
  obtain rt w where lt: "so_get_last_trade ops (rq_pair request) (pt_stream s) = (rt, w)" by fastforce
  then have st: "on_stream (so_get_last_trade ops (rq_pair request)) s = (rt, s\<lparr>pt_stream := w\<rparr>)"
    by (simp add: on_stream_def)
  obtain rf s2 where f: "\<And>trade. rt = Inr trade \<Longrightarrow>
      fill_decision (c_str i) request (tu_price trade) (s\<lparr>pt_stream := w\<rparr>) = (rf, s2)"
    by (cases rt) (auto, metis surj_pair)
  have "pt_stream t = w"
  proof (cases rt)
    case (Inl e)
    with assms Some st show ?thesis by (auto simp: try_fill_order_def act_simps Let_def)
  next
    case (Inr trade)
    from fill_decision_stream [OF f [OF Inr]] have "pt_stream s2 = w" by simp
    with assms try_fill_eq [OF Some st [unfolded Inr] f [OF Inr]] show ?thesis
      by (auto dest: execute_order_stream split: if_splits sum.splits option.splits prod.splits)
  qed
  with lt show ?thesis by blast
qed

context price_feed begin

lemma try_fill_view:
  "stream_inv (pt_stream s) \<Longrightarrow> try_fill_order ops i s = (r, t) \<Longrightarrow>
    price (pt_stream t) = price (pt_stream s) \<and> stream_inv (pt_stream t)"
  using try_fill_stream last_trade_view by metis

lemma try_fill_rule:
  assumes "stream_inv (pt_stream s)" "try_fill_order ops i s = (Inr b, t)"
  shows "\<exists>request. map_of (pt_openOrders s) (c_str i) = Some request \<and>
    (let p = price (pt_stream s) (rq_pair request);
         rule = fill_rule request (pt_trailingOrderLimits s (c_str i)) p
     in if b then \<not> deq p 0 \<and> (\<exists>d. pt_closedOrders t = pt_closedOrders s @ [d] \<and>
               od_orderId d = c_str i \<and> od_volume d = rq_get request VOLUME \<and> rule (od_price d))
        else pt_closedOrders t = pt_closedOrders s \<and> (deq p 0 \<or> (\<forall>fp. \<not> rule fp)))"
proof (cases "map_of (pt_openOrders s) (c_str i)")
  case None
  with assms show ?thesis by (simp add: try_fill_order_def act_simps Let_def)
next
  case (Some request)
  obtain rt w where lt: "so_get_last_trade ops (rq_pair request) (pt_stream s) = (rt, w)" by fastforce
  show ?thesis
  proof (cases rt)
    case (Inl e)
    with assms Some lt show ?thesis by (simp add: try_fill_order_def act_simps Let_def on_stream_def)
  next
    case (Inr trade)
    let ?s1 = "s\<lparr>pt_stream := w\<rparr>"
    have p: "tu_price trade = price (pt_stream s) (rq_pair request)" using last_trade assms(1) lt Inr by blast
    obtain rf s2 where f: "fill_decision (c_str i) request (tu_price trade) ?s1 = (rf, s2)" by fastforce
    have "on_stream (so_get_last_trade ops (rq_pair request)) s = (Inr trade, ?s1)"
      using lt Inr by (simp add: on_stream_def)
    note run = try_fill_eq [OF Some this f]
    have c: "pt_closedOrders s2 = pt_closedOrders s" using core_fill_decision [OF f] by (simp add: pt_core_eq)
    have rule: "rf = Inr d \<Longrightarrow> (case d of
        Some fp \<Rightarrow> fill_rule request (pt_trailingOrderLimits s (c_str i)) (tu_price trade) fp
      | None \<Rightarrow> \<forall>fp. \<not> fill_rule request (pt_trailingOrderLimits s (c_str i)) (tu_price trade) fp)" for d
      using fill_decision_rule [of "c_str i" request "tu_price trade" ?s1 d s2] f by (cases d) auto
    show ?thesis
      using run assms(2) c rule Some
      by (auto simp: p to_order_description_def Let_def dest!: execute_order_state(5)
          split: if_splits sum.splits option.splits prod.splits)
  qed
qed

end

text \<open>The market stream of an exchange, as the account sees it.\<close>

definition exchange_stream_ops ::
    "(websocket_subscription \<Rightarrow> ('h, 'c, 'w, unit) ws_action) \<Rightarrow> ('w \<Rightarrow> time_t) \<Rightarrow>
     ('h, 'c, 'w) websocket_stream stream_ops" where
  "exchange_stream_ops send_subscribe getTime =
     \<lparr>so_get_last_trade = (\<lambda>p. act_read (\<lambda>s. get_last_trade s p)),
      so_get_subscription_status = (\<lambda>sub. act_res (\<lambda>s. get_subscription_status s sub)),
      so_subscribe = ws_subscribe send_subscribe,
      so_get_time = (\<lambda>s. getTime (ws_client s))\<rparr>"

interpretation exchange_feed: price_feed "exchange_stream_ops send_subscribe getTime"
    "\<lambda>s p. tu_price (get_last_trade s p)" "\<lambda>_. True"
  by unfold_locales (auto simp: exchange_stream_ops_def act_simps)

text \<open>
  C6: an order is filled exactly when the rule of its type holds at the last price of the
  exchange stream: a market order at that price, a limit order at its limit once the price is
  at least as good, a stop order at its stop once the price has reached it, a trailing order
  once the price has turned by its delta from the extreme seen so far, and a take-profit order
  never. Without a last trade nothing is filled.
\<close>

theorem fill_at_stream_price:
  assumes "try_fill_order (exchange_stream_ops send_subscribe getTime) i s = (Inr b, t)"
  shows "\<exists>request. map_of (pt_openOrders s) (c_str i) = Some request \<and>
    (let p = tu_price (get_last_trade (pt_stream s) (rq_pair request));
         rule = fill_rule request (pt_trailingOrderLimits s (c_str i)) p
     in if b then \<not> deq p 0 \<and> (\<exists>d. pt_closedOrders t = pt_closedOrders s @ [d] \<and>
               od_orderId d = c_str i \<and> od_volume d = rq_get request VOLUME \<and> rule (od_price d))
        else pt_closedOrders t = pt_closedOrders s \<and> (deq p 0 \<or> (\<forall>fp. \<not> rule fp)))"
  by (rule exchange_feed.try_fill_rule [OF TrueI assms])

definition demo_stream :: "rat \<Rightarrow> (unit, unit, unit) websocket_stream" where
  "demo_stream price = (create_websocket_stream ''wss'' (CHR ''/'') ())
     \<lparr>ws_trades := [''A/B'' \<mapsto> \<lparr>tu_timeStamp = 7, tu_price = Fin price, tu_volume = Fin 1\<rparr>]\<rparr>"

definition demo_exchange_account ::
    "(string \<times> order_request) list \<Rightarrow> rat \<Rightarrow> (unit, unit, unit) websocket_stream paper_trade_api" where
  "demo_exchange_account orders price = \<lparr>pt_stream = demo_stream price, pt_fee = 0,
     pt_trailingOrderLimits = Map.empty, pt_balances = [(''B'', 50000000000)],
     pt_openOrders = orders, pt_openOrdersByPair = (\<lambda>_. []), pt_closedOrders = [], pt_nextOrderNumber = 3\<rparr>"

definition demo_exchange_ops :: "(unit, unit, unit) websocket_stream stream_ops" where
  "demo_exchange_ops = exchange_stream_ops (\<lambda>_. act_return ()) (\<lambda>_. 0)"

theorem fill_at_stream_price_witness:
  "let s = demo_exchange_account [(''1'', create_limit_order demo_pair BUY (Fin 1) (Fin 1))] 2;
       (r, t) = try_fill_order demo_exchange_ops ''1'' s
   in r = Inr False \<and> pt_closedOrders t = pt_closedOrders s"
proof -
  let ?r = "create_limit_order demo_pair BUY (Fin 1) (Fin 1)"
  let ?s = "demo_exchange_account [(''1'', ?r)] 2"
  have p: "deq (Fin 2) 0 = False" "Fin 2 \<le> Fin 1 \<longleftrightarrow> False" by code_simp+
  have c: "c_str ''1'' = ''1''" by (simp add: c_str_def)
  have l: "tu_price (get_last_trade (demo_stream 2) demo_pair) = Fin 2"
    by (simp add: get_last_trade_def demo_stream_def create_websocket_stream_def pair_to_string_def
        demo_pair_def)
  have f: "try_fill_order demo_exchange_ops ''1'' ?s = (Inr False, ?s)"
    by (simp add: try_fill_order_def c act_simps demo_exchange_account_def demo_exchange_ops_def
        exchange_stream_ops_def on_stream_def fill_decision_def create_limit_order_def
        should_close_limit_order_def rq_get_def l p Let_def)
  show ?thesis
    using fill_at_stream_price [OF f [unfolded demo_exchange_ops_def]] f by simp
qed

section \<open>Trailing stops\<close>

text \<open>The price at which a trailing order triggers, over the prices it has seen.\<close>

definition trailing_triggered :: "order_request \<Rightarrow> double list \<Rightarrow> bool" where
  "trailing_triggered request ps =
     (let delta = rq_get request TRAILING_DELTA in
      if rq_action request = BUY
      then foldl dmin (hd ps) (tl ps) * (of_int_d 1 + delta) \<le> last ps
      else last ps \<le> foldl dmax (hd ps) (tl ps) * (of_int_d 1 - delta))"

fun decisions ::
    "string \<Rightarrow> order_request \<Rightarrow> double list \<Rightarrow> 'w paper_trade_api \<Rightarrow> double option list \<times> 'w paper_trade_api" where
  "decisions i request [] s = ([], s)"
| "decisions i request (p # ps) s =
     (case fill_decision i request p s of
        (Inl e, t) \<Rightarrow> ([], t)
      | (Inr d, t) \<Rightarrow> (case decisions i request ps t of (ds, u) \<Rightarrow> (d # ds, u)))"

lemma dmin_self [simp]: "dmin p p = p" and dmax_self [simp]: "dmax p p = p"
  by (simp_all add: dmin_def dmax_def)

lemma trailing_step:
  assumes "rq_orderType request = TRAILING_STOP_LOSS"
    and "pt_trailingOrderLimits s i = (if ps = [] then None else
      Some (foldl (if rq_action request = BUY then dmin else dmax) (hd ps) (tl ps)))"
  shows "\<exists>t. fill_decision i request p s =
      (Inr (if trailing_triggered request (ps @ [p]) then Some p else None), t) \<and>
    (\<not> trailing_triggered request (ps @ [p]) \<longrightarrow> pt_trailingOrderLimits t i =
      Some (foldl (if rq_action request = BUY then dmin else dmax) (hd (ps @ [p])) (tl (ps @ [p]))))"
  using assms
  by (cases ps; cases "rq_action request")
     (auto simp: fill_decision_def act_simps should_close_trailing_stop_loss_order_def
       trailing_triggered_def Let_def)

text \<open>
  C23: a trailing stop compares each price with the lowest price since it was placed (the
  highest, for a sale): it is filled at the first price that has turned by its delta from that
  extreme, and not before.
\<close>

theorem trailing_stop_tracks:
  assumes "rq_orderType request = TRAILING_STOP_LOSS" "pt_trailingOrderLimits s i = None"
    and "\<And>k. k < length ps \<Longrightarrow> \<not> trailing_triggered request (take (Suc k) ps)"
  shows "fst (decisions i request (ps @ [p]) s) =
    replicate (length ps) None @ [if trailing_triggered request (ps @ [p]) then Some p else None]"
proof -
  have "\<forall>k < length qs. \<not> trailing_triggered request (seen @ take (Suc k) qs) \<Longrightarrow>
      pt_trailingOrderLimits s i = (if seen = [] then None else
        Some (foldl (if rq_action request = BUY then dmin else dmax) (hd seen) (tl seen))) \<Longrightarrow>
      fst (decisions i request (qs @ [p]) s) = replicate (length qs) None @
        [if trailing_triggered request (seen @ qs @ [p]) then Some p else None]" for qs seen s
  proof (induction qs arbitrary: seen s)
    case Nil
    obtain t where "fill_decision i request p s =
        (Inr (if trailing_triggered request (seen @ [p]) then Some p else None), t)"
      using trailing_step [OF assms(1) Nil(2), of p] by blast
    then show ?case by simp
  next
    case (Cons q qs)
    have nt: "\<not> trailing_triggered request (seen @ [q])" using Cons.prems(1) by force
    obtain t where t: "fill_decision i request q s = (Inr None, t)" "pt_trailingOrderLimits t i =
        Some (foldl (if rq_action request = BUY then dmin else dmax) (hd (seen @ [q])) (tl (seen @ [q])))"
      using trailing_step [OF assms(1) Cons.prems(2), of q] nt by auto
    have "\<forall>k < length qs. \<not> trailing_triggered request ((seen @ [q]) @ take (Suc k) qs)"
    proof (intro allI impI)
      fix k assume "k < length qs"
      then show "\<not> trailing_triggered request ((seen @ [q]) @ take (Suc k) qs)"
        using Cons.prems(1) [rule_format, of "Suc k"] by simp
    qed
    from Cons.IH [OF this, of t] t show ?case by (simp add: case_prod_beta)
  qed
  from this [of ps "[]" s] assms show ?thesis by simp
qed

theorem trailing_stop_tracks_witness:
  "fst (decisions ''1'' (create_trailing_stop_loss_order demo_pair SELL (Fin (1 / 2)) (Fin 1) (Fin 0))
      ([Fin 4, Fin 8] @ [Fin 4]) (demo_account [] 1)) = [None, None, Some (Fin 4)]"
proof -
  let ?r = "create_trailing_stop_loss_order demo_pair SELL (Fin (1 / 2)) (Fin 1) (Fin 0)"
  have a: "rq_orderType ?r = TRAILING_STOP_LOSS" "pt_trailingOrderLimits (demo_account [] 1) ''1'' = None"
    by (simp_all add: create_trailing_stop_loss_order_def demo_account_def)
  have d: "rq_get ?r TRAILING_DELTA = Fin (1 / 2)" "rq_action ?r = SELL"
    by simp (simp add: create_trailing_stop_loss_order_def)
  have c: "\<not> Fin 4 \<le> Fin 4 * (of_int_d 1 - Fin (1 / 2))" "\<not> Fin 8 \<le> Fin 8 * (of_int_d 1 - Fin (1 / 2))"
    "Fin 4 \<le> Fin 8 * (of_int_d 1 - Fin (1 / 2))" by code_simp+
  have n: "\<not> trailing_triggered ?r (take (Suc k) [Fin 4, Fin 8])" if "k < length [Fin 4, Fin 8]" for k
    using that c by (cases k) (auto simp: trailing_triggered_def d Let_def dmax_def)
  from trailing_stop_tracks [OF a n, of "Fin 4"] c show ?thesis
    by (simp add: trailing_triggered_def d Let_def dmax_def numeral_2_eq_2)
qed

section \<open>What can go wrong\<close>

text \<open>
  The asset an order sells, and an order that is triggered at a price and then costs more of
  that asset than the account has.
\<close>

definition sold_asset :: "order_request \<Rightarrow> string" where
  "sold_asset request = (if rq_action request = BUY
     then tp_priceUnit (rq_pair request) else tp_asset (rq_pair request))"

definition unaffordable :: "'w paper_trade_api \<Rightarrow> order_request \<Rightarrow> double \<Rightarrow> bool" where
  "unaffordable s request price \<longleftrightarrow> (\<exists>fillPrice g gv sv G S.
     fill_rule request None price fillPrice \<and>
     order_legs (pt_fee s) request fillPrice = ((g, gv), (sold_asset request, sv)) \<and>
     to_integer_volume gv = Inr G \<and> to_integer_volume sv = Inr S \<and>
     \<not> has_sufficient_funds s (sold_asset request) S)"

text \<open>The trade messages of a pair, each with the stream as it is when the message comes.\<close>

fun deliver_trades ::
    "'w stream_ops \<Rightarrow> tradable_pair \<Rightarrow> (trade_update \<times> 'w) list \<Rightarrow> 'w paper_trade_api \<Rightarrow> unit res list \<times> 'w paper_trade_api" where
  "deliver_trades ops pair [] s = ([], s)"
| "deliver_trades ops pair ((trade, w) # ms) s =
    (case trade_update_handler ops \<lparr>tm_pair = pair, tm_trade = trade\<rparr> (s\<lparr>pt_stream := w\<rparr>) of (r, t) \<Rightarrow>
       (case deliver_trades ops pair ms t of (rs, u) \<Rightarrow> (r # rs, u)))"

lemma fill_decision_at:
  assumes "rq_orderType request \<noteq> TRAILING_STOP_LOSS" "fill_rule request limit price fillPrice"
  shows "fill_decision i request price s = (Inr (Some fillPrice), s)"
  using assms by (cases "rq_orderType request"; cases "rq_action request")
    (auto simp: fill_decision_def fill_rule_def act_simps should_close_limit_order_def
      should_close_stop_loss_order_def Let_def)

lemma sold_leg: "order_legs f request fillPrice = ((g, gv), (a, sv)) \<Longrightarrow> a = sold_asset request"
  by (auto simp: order_legs_def sold_asset_def Let_def split: if_splits)

lemma unaffordable_handler_throws:
  assumes "pt_inv s" "pt_openOrdersByPair s (tm_pair m) = i # behind"
    and "map_of (pt_openOrders s) i = Some request" "rq_orderType request \<noteq> TRAILING_STOP_LOSS"
    and "so_get_last_trade ops (rq_pair request) (pt_stream s) = (Inr trade, w)"
    and "\<not> deq (tu_price trade) 0" "unaffordable s request (tu_price trade)"
  shows "trade_update_handler ops m s =
    (Inl (Mb_exception (''Insufficient funds ('' @ sold_asset request @ '')'')), s\<lparr>pt_stream := w\<rparr>)"
proof -
  have "issued s i" using assms(1,2) unfolding pt_inv_def by (metis list.set_intros(1))
  then have c: "c_str i = i" by (rule c_str_issued)
  from assms(7) obtain fp g gv sv G S where u: "fill_rule request None (tu_price trade) fp"
      "order_legs (pt_fee s) request fp = ((g, gv), (sold_asset request, sv))"
      "to_integer_volume gv = Inr G" "to_integer_volume sv = Inr S"
      "\<not> has_sufficient_funds s (sold_asset request) S"
    unfolding unaffordable_def by blast
  have "order_legs (pt_fee (s\<lparr>pt_stream := w\<rparr>)) request fp = ((g, gv), (sold_asset request, sv))"
    using u(2) by simp
  note e = execute_order_eq [OF this]
  have "try_fill_order ops i s =
      (Inl (Mb_exception (''Insufficient funds ('' @ sold_asset request @ '')'')), s\<lparr>pt_stream := w\<rparr>)"
    using assms(3,5,6) u(3-5)
    by (simp add: try_fill_order_def c act_simps on_stream_def fill_decision_at [OF assms(4) u(1)] Let_def e
        has_sufficient_funds_def)
  moreover have "i \<in> open_ids s" using assms(3) by (force simp: open_ids_def dest: map_of_SomeD)
  ultimately show ?thesis
    using fill_loop_step [of s "tm_pair m" "[]" i behind ops "length behind"] assms(2)
    by (simp add: trade_update_handler_def act_simps)
qed

lemma unfunded_handler_throws:
  assumes "pt_inv s" "pt_openOrdersByPair s (tm_pair m) = i # behind"
    and "map_of (pt_openOrders s) i = Some request" "rq_orderType request = MARKET"
    and "so_get_last_trade ops (rq_pair request) (pt_stream s) = (Inr trade, w)"
    and "\<not> deq (tu_price trade) 0"
    and "order_legs (pt_fee s) request (tu_price trade) = ((g, gv), (a, sv))"
    and "to_integer_volume gv = Inr G" "to_integer_volume sv = Inr S" "\<not> has_sufficient_funds s a S"
  shows "trade_update_handler ops m s =
    (Inl (Mb_exception (''Insufficient funds ('' @ a @ '')'')), s\<lparr>pt_stream := w\<rparr>)"
proof -
  have a: "a = sold_asset request" by (rule sold_leg [OF assms(7)])
  have "fill_rule request None (tu_price trade) (tu_price trade)" using assms(4) by (simp add: fill_rule_def)
  with assms(7-10) have "unaffordable s request (tu_price trade)" unfolding unaffordable_def a by blast
  from unaffordable_handler_throws [OF assms(1-3) _ assms(5,6) this] assms(4) show ?thesis by (simp add: a)
qed

lemma pt_stream_only:
  "pt_inv (s\<lparr>pt_stream := w\<rparr>) = pt_inv s"
  "unaffordable (s\<lparr>pt_stream := w\<rparr>) request price = unaffordable s request price"
  by (rule pt_inv_core) (simp_all add: pt_core_def unaffordable_def has_sufficient_funds_def)

text \<open>
  C36: a market, limit or stop order that waits first in the queue of its pair blocks it for as
  long as it is triggered and cannot be paid: each of any number of trade messages that come in
  that time throws, the only thing asked of the stream is the last trade for this order, so no
  order behind it is tried, and orders, balances and queues stay as they are.
\<close>

theorem unfunded_order_blocks:
  assumes "pt_inv s" "pt_openOrdersByPair s pair = i # behind"
    and "map_of (pt_openOrders s) i = Some request" "rq_orderType request \<noteq> TRAILING_STOP_LOSS"
    and "list_all (\<lambda>(_, w). \<exists>trade w'. so_get_last_trade ops pair w = (Inr trade, w') \<and>
      \<not> deq (tu_price trade) 0 \<and> unaffordable s request (tu_price trade)) ms"
  shows "deliver_trades ops pair ms s =
    (replicate (length ms) (Inl (Mb_exception (''Insufficient funds ('' @ sold_asset request @ '')''))),
     s\<lparr>pt_stream := foldl (\<lambda>_ (_, w). snd (so_get_last_trade ops pair w)) (pt_stream s) ms\<rparr>)"
  using assms
proof (induction ms arbitrary: s)
  case (Cons m ms)
  obtain message w where m: "m = (message, w)" by fastforce
  with Cons.prems(5) obtain trade w' where t: "so_get_last_trade ops pair w = (Inr trade, w')"
      "\<not> deq (tu_price trade) 0" "unaffordable s request (tu_price trade)"
    by auto
  have "pair = rq_pair request" using Cons.prems(1-3) unfolding pt_inv_def by (metis list.set_intros(1))
  then have h: "trade_update_handler ops \<lparr>tm_pair = pair, tm_trade = message\<rparr> (s\<lparr>pt_stream := w\<rparr>) =
      (Inl (Mb_exception (''Insufficient funds ('' @ sold_asset request @ '')'')), s\<lparr>pt_stream := w'\<rparr>)"
    using unaffordable_handler_throws [of "s\<lparr>pt_stream := w\<rparr>" "\<lparr>tm_pair = pair, tm_trade = message\<rparr>" i behind
        request ops trade w'] Cons.prems(1-4) t by (simp add: pt_stream_only)
  from Cons.IH [of "s\<lparr>pt_stream := w'\<rparr>"] Cons.prems h t(1) show ?case
    by (simp add: m pt_stream_only)
qed simp

theorem unfunded_order_blocks_witness:
  "let s = demo_account [(''1'', create_limit_order demo_pair BUY (Fin 3) (Fin 9)),
                         (''2'', create_market_order demo_pair BUY (Fin 1))] 2;
       trade = (\<lambda>price. \<lparr>tu_timeStamp = 7, tu_price = Fin price, tu_volume = Fin 1\<rparr>)
   in deliver_trades demo_ops demo_pair [(trade 2, trade 2), (trade 1, trade 1)] s =
        (replicate 2 (Inl (Mb_exception ''Insufficient funds (B)'')), s\<lparr>pt_stream := trade 1\<rparr>)"
proof -
  let ?r = "create_limit_order demo_pair BUY (Fin 3) (Fin 9)" and ?q = "create_market_order demo_pair BUY (Fin 1)"
  let ?s = "demo_account [(''1'', ?r), (''2'', ?q)] 2"
  let ?t = "\<lambda>price. \<lparr>tu_timeStamp = 7, tu_price = Fin price, tu_volume = Fin 1\<rparr>"
  have i: "pt_inv ?s" by (rule demo_inv) (simp add: create_limit_order_def create_market_order_def)
  have q: "pt_openOrdersByPair ?s demo_pair = ''1'' # [''2'']" by (simp add: demo_account_def)
  have o: "map_of (pt_openOrders ?s) ''1'' = Some ?r" by (simp add: demo_account_def)
  have t: "rq_orderType ?r \<noteq> TRAILING_STOP_LOSS" "rq_orderType ?r = LIMIT" "rq_action ?r = BUY"
      "sold_asset ?r = ''B''"
    by (simp_all add: create_limit_order_def sold_asset_def demo_pair_def)
  have d: "\<not> deq (Fin 2) 0" "\<not> deq (Fin 1) 0" "Fin 2 \<le> Fin 3" "Fin 1 \<le> Fin 3" by code_simp+
  have cost: "calculate_cost (Fin 3) (Fin 9) = Fin 27" "Fin 27 * 0 * lit (1 / 100) = Fin 0" "Fin 27 + Fin 0 = Fin 27"
    by code_simp+
  have legs: "order_legs (pt_fee ?s) ?r (Fin 3) = ((''A'', Fin 9), (sold_asset ?r, Fin 27))"
    by (simp add: order_legs_def demo_account_def cost Let_def t) (simp add: create_limit_order_def demo_pair_def)
  have v: "to_integer_volume (Fin 9) = Inr 90000000000" "to_integer_volume (Fin 27) = Inr 270000000000"
    by code_simp+
  have f: "\<not> has_sufficient_funds ?s (sold_asset ?r) 270000000000"
    by (simp add: has_sufficient_funds_def demo_account_def t)
  have p: "rq_get ?r ASSET_PRICE = Fin 3" by simp
  have "unaffordable ?s ?r (Fin 2)" "unaffordable ?s ?r (Fin 1)"
    unfolding unaffordable_def using legs v f d p by (auto simp: fill_rule_def t)
  then show ?thesis
    using unfunded_order_blocks [OF i q o t(1), of demo_ops "[(?t 2, ?t 2), (?t 1, ?t 1)]"] d
    by (simp add: demo_ops_def act_simps Let_def t numeral_2_eq_2)
qed

lemma confirmation_of_open_order:
  "let r = create_limit_order demo_pair BUY (Fin 1) (Fin 1);
       (c, t) = add_order_confirm demo_ops r (demo_account [] 2)
   in (case c of Inr oc \<Rightarrow> oc_orderStatus oc = CLOSED \<and> get_order_status t (oc_orderId oc) = OPEN
               | Inl _ \<Rightarrow> False)"
  by code_simp

end
