(* ===== verification/Ledger.thy ===== *)
theory Ledger
  imports PaperTrading
begin

text \<open>
  What the account of \<^verbatim>\<open>testing/paper_trading/paper_trade_api.cpp\<close> promises, without its
  queues, maps and prices: a ledger of fills. Each fill is of one order that was placed, at one
  price; it moves the two legs of its order, and is only entered when the asset sold is there.
  The lemmas show that every operation of the account, whether it returns or throws, adds the
  fills of the orders it closes to the ledger and nothing else.
\<close>

section \<open>The ledger\<close>

record fill =
  fl_orderId :: string
  fl_request :: order_request
  fl_price :: double
  fl_time :: time_t

definition fill_description :: "fill \<Rightarrow> order_description" where
  "fill_description f = to_order_description (fl_orderId f) (fl_price f) (fl_time f) (fl_request f)"

text \<open>The balances after a fill, if its amounts are representable and the sold asset is there.\<close>

definition post :: "double \<Rightarrow> fill \<Rightarrow> (string \<Rightarrow> volume_t) \<Rightarrow> (string \<Rightarrow> volume_t) option" where
  "post feeRate f b =
     (let ((gainedAsset, gainValue), (soldAsset, soldValue)) = order_legs feeRate (fl_request f) (fl_price f) in
      case (to_integer_volume gainValue, to_integer_volume soldValue) of
        (Inr gain, Inr sold) \<Rightarrow>
          if sold \<le> b soldAsset
          then let b' = b(gainedAsset := b gainedAsset + gain) in Some (b'(soldAsset := b' soldAsset - sold))
          else None
      | _ \<Rightarrow> None)"

fun post_all :: "double \<Rightarrow> fill list \<Rightarrow> (string \<Rightarrow> volume_t) \<Rightarrow> (string \<Rightarrow> volume_t) option" where
  "post_all feeRate [] b = Some b"
| "post_all feeRate (f # fs) b = Option.bind (post feeRate f b) (post_all feeRate fs)"

lemma post_all_append:
  "post_all feeRate (fs @ gs) b = Option.bind (post_all feeRate fs b) (post_all feeRate gs)"
  by (induction fs arbitrary: b) (simp_all split: Option.bind_split)

text \<open>The orders placed, whose ids are their numbers.\<close>

fun placed :: "account_op \<Rightarrow> order_request list" where
  "placed (Add_order r) = [r]"
| "placed (Add_order_confirm r) = [r]"
| "placed _ = []"

definition order_number :: "order_request list \<Rightarrow> string \<Rightarrow> order_request \<Rightarrow> bool" where
  "order_number rs orderId request \<longleftrightarrow> (\<exists>k < length rs. orderId = show_int (1 + int k) \<and> request = rs ! k)"

lemma order_number_append: "order_number rs i r \<Longrightarrow> order_number (rs @ qs) i r"
  by (auto simp: order_number_def nth_append intro: exI)

lemma order_number_last: "order_number (rs @ [r]) (show_int (1 + int (length rs))) r"
  by (auto simp: order_number_def)

definition keeps_ledger ::
    "double \<Rightarrow> (string \<Rightarrow> volume_t) \<Rightarrow> order_request list \<Rightarrow> 'w paper_trade_api \<Rightarrow> bool" where
  "keeps_ledger feeRate b rs s \<longleftrightarrow> pt_fee s = feeRate \<and> pt_nextOrderNumber s = 1 + int (length rs) \<and>
     (\<forall>(i, r) \<in> set (pt_openOrders s). order_number rs i r) \<and>
     (\<exists>fills. pt_closedOrders s = map fill_description fills \<and> post_all feeRate fills b = Some (balance s) \<and>
        list_all (\<lambda>f. order_number rs (fl_orderId f) (fl_request f)) fills)"

section \<open>Every operation keeps the ledger\<close>

lemma balance_core: "pt_core t = pt_core s \<Longrightarrow> balance t = balance s"
  by (simp add: pt_core_eq balance_def fun_eq_iff)

lemma keeps_ledger_core: "pt_core t = pt_core s \<Longrightarrow> keeps_ledger feeRate b rs t = keeps_ledger feeRate b rs s"
  using balance_core [of t s] by (simp add: keeps_ledger_def pt_core_eq)

lemma balance_simps [simp]:
  "balance (s\<lparr>pt_openOrders := os\<rparr>) = balance s" "balance (s\<lparr>pt_closedOrders := cs\<rparr>) = balance s"
  "balance (set_pair_orders p ids s) = balance s" "balance (s\<lparr>pt_nextOrderNumber := n\<rparr>) = balance s"
  by (simp_all add: balance_def set_pair_orders_def fun_eq_iff)

lemma pair_orders_fields [simp]:
  "pt_fee (set_pair_orders p ids s) = pt_fee s" "pt_nextOrderNumber (set_pair_orders p ids s) = pt_nextOrderNumber s"
  "pt_openOrders (set_pair_orders p ids s) = pt_openOrders s"
  "pt_closedOrders (set_pair_orders p ids s) = pt_closedOrders s"
  by (simp_all add: set_pair_orders_def)

lemma keeps_ledger_pairs: "keeps_ledger feeRate b rs (set_pair_orders p ids s) = keeps_ledger feeRate b rs s"
  unfolding keeps_ledger_def by (simp only: balance_simps pair_orders_fields)

lemma execute_posts:
  assumes "execute_order ops orderId request fillPrice s = (Inr (), t)"
  shows "post (pt_fee s) \<lparr>fl_orderId = orderId, fl_request = request, fl_price = fillPrice,
    fl_time = so_get_time ops (pt_stream s)\<rparr> (balance s) = Some (balance t)"
proof -
  obtain g gv a sv where l: "order_legs (pt_fee s) request fillPrice = ((g, gv), (a, sv))"
    by (metis prod.collapse)
  from execute_order_eq [OF this, of ops orderId] assms obtain G S where v: "to_integer_volume gv = Inr G"
      "to_integer_volume sv = Inr S" "has_sufficient_funds s a S"
    and t: "balance t = balance (set_balance a (balance (set_balance g (balance s g + G) s) a - S)
        (set_balance g (balance s g + G) s))"
    by (auto split: sum.splits if_splits simp: Let_def)
  from v(3) have "S \<le> balance s a" by (auto simp: has_sufficient_funds_def balance_def split: option.splits)
  with l v(1,2) t show ?thesis by (auto simp: post_def fun_eq_iff)
qed

lemma keeps_ledger_execute:
  assumes k: "keeps_ledger feeRate b rs s" and r: "order_number rs orderId request"
    and e: "execute_order ops orderId request fillPrice s = (Inr (), t)"
  shows "keeps_ledger feeRate b rs t"
proof -
  let ?f = "\<lparr>fl_orderId = orderId, fl_request = request, fl_price = fillPrice, fl_time = so_get_time ops (pt_stream s)\<rparr>"
  note t = execute_order_state [OF e]
  from k obtain fills where f: "pt_closedOrders s = map fill_description fills"
      "post_all feeRate fills b = Some (balance s)" "pt_fee s = feeRate"
      "list_all (\<lambda>f. order_number rs (fl_orderId f) (fl_request f)) fills"
    by (auto simp: keeps_ledger_def)
  have "post_all feeRate (fills @ [?f]) b = Some (balance t)"
    using execute_posts [OF e] f(2,3) by (simp add: post_all_append)
  moreover have "pt_closedOrders t = map fill_description (fills @ [?f])"
    using f(1) t(5) by (simp add: fill_description_def)
  moreover have "list_all (\<lambda>f. order_number rs (fl_orderId f) (fl_request f)) (fills @ [?f])"
    using f(4) r by simp
  moreover have "set (pt_openOrders t) \<subseteq> set (pt_openOrders s)" by (auto simp: t(1) AList.delete_eq)
  ultimately show ?thesis using k t(3,4) unfolding keeps_ledger_def by (metis (no_types, lifting) subsetD)
qed

lemma keeps_ledger_try_fill:
  assumes "keeps_ledger feeRate b rs s" "try_fill_order ops orderId s = (r, t)"
  shows "keeps_ledger feeRate b rs t"
  using try_fill_cases [OF assms(2)]
proof
  assume "r = Inr True \<and> (\<exists>request fillPrice s1. map_of (pt_openOrders s) (c_str orderId) = Some request \<and>
      pt_core s1 = pt_core s \<and> execute_order ops (c_str orderId) request fillPrice s1 = (Inr (), t))"
  then obtain request fillPrice s1 where o: "map_of (pt_openOrders s) (c_str orderId) = Some request"
    and s1: "pt_core s1 = pt_core s" and e: "execute_order ops (c_str orderId) request fillPrice s1 = (Inr (), t)"
    by blast
  from o assms(1) have "order_number rs (c_str orderId) request"
    by (auto simp: keeps_ledger_def dest: map_of_SomeD)
  with assms(1) s1 e show ?thesis using keeps_ledger_execute keeps_ledger_core by blast
qed (use assms(1) keeps_ledger_core in blast)

lemma fill_loop_invariant:
  assumes "\<And>orderId s r t. I s \<Longrightarrow> try_fill_order ops orderId s = (r, t) \<Longrightarrow> I t"
    and "\<And>ids s. I s \<Longrightarrow> I (set_pair_orders pair ids s)"
  shows "I s \<Longrightarrow> I (snd (fill_loop ops pair n index s))"
proof (induction n arbitrary: index s)
  case (Suc n)
  show ?case
  proof (cases "index < length (pt_openOrdersByPair s pair)")
    case True
    obtain pre x rest where ids: "pt_openOrdersByPair s pair = pre @ x # rest" "index = length pre"
      using id_take_nth_drop [OF True] True by (metis length_take min.absorb4)
    obtain rx u where tf: "try_fill_order ops x s = (rx, u)" by fastforce
    have "I u" by (rule assms(1) [OF Suc.prems tf])
    then show ?thesis
      using fill_loop_step [OF ids(1), of ops n] tf ids(2) Suc.IH Suc.prems assms(2)
      by (cases rx) (auto split: bool.splits simp del: fill_loop.simps)
  qed (use Suc.prems in \<open>simp add: act_simps read_at_def\<close>)
qed simp

lemma keeps_ledger_queue:
  assumes "keeps_ledger feeRate b rs s"
  shows "keeps_ledger feeRate b (rs @ [request]) (queue_order request s)"
proof -
  from assms have n: "pt_nextOrderNumber s = 1 + int (length rs)" by (simp add: keeps_ledger_def)
  have "set (pt_openOrders (queue_order request s)) \<subseteq>
      insert (show_int (1 + int (length rs)), request) (set (pt_openOrders s))"
    by (auto simp: queue_order_def emplace_def n split: option.splits)
  moreover from assms have "\<forall>(i, r) \<in> set (pt_openOrders s). order_number (rs @ [request]) i r"
    by (auto simp: keeps_ledger_def intro: order_number_append)
  ultimately have "\<forall>(i, r) \<in> set (pt_openOrders (queue_order request s)). order_number (rs @ [request]) i r"
    using order_number_last [of rs request] by fastforce
  moreover have "pt_fee (queue_order request s) = pt_fee s" "pt_closedOrders (queue_order request s) = pt_closedOrders s"
    "pt_nextOrderNumber (queue_order request s) = pt_nextOrderNumber s + 1" "balance (queue_order request s) = balance s"
    by (simp_all add: queue_order_def)
  moreover have "list_all (\<lambda>f. order_number (rs @ [request]) (fl_orderId f) (fl_request f)) fills"
    if "list_all (\<lambda>f. order_number rs (fl_orderId f) (fl_request f)) fills" for fills
    using that by (auto simp: list_all_iff intro: order_number_append)
  ultimately show ?thesis using assms n unfolding keeps_ledger_def by auto
qed

lemma keeps_ledger_add:
  assumes "keeps_ledger feeRate b rs s" "add_order ops request s = (r, t)"
  shows "keeps_ledger feeRate b (rs @ [request]) t"
  using add_order_cases [OF assms(2)] keeps_ledger_queue [OF assms(1), of request]
    keeps_ledger_core keeps_ledger_try_fill by blast

lemma keeps_ledger_cancel: "keeps_ledger feeRate b rs s \<Longrightarrow> keeps_ledger feeRate b rs (snd (cancel_order i s))"
  by (auto simp: cancel_order_def act_simps keeps_ledger_def AList.delete_eq)

lemma keeps_ledger_step:
  assumes "keeps_ledger feeRate b rs s"
  shows "keeps_ledger feeRate b (rs @ placed op) (account_step ops op s)"
proof (cases op)
  case (Add_order r)
  obtain ra t where "add_order ops r s = (ra, t)" by fastforce
  with Add_order keeps_ledger_add [OF assms this] show ?thesis by simp
next
  case (Add_order_confirm r)
  obtain ra t where a: "add_order ops r s = (ra, t)" by fastforce
  obtain rl u where l: "on_stream (so_get_last_trade ops (rq_pair r)) t = (rl, u)" by fastforce
  note t = keeps_ledger_add [OF assms a]
  moreover from t have "keeps_ledger feeRate b (rs @ [r]) u"
    using keeps_ledger_core [OF core_on_stream [OF l]] by blast
  ultimately show ?thesis using Add_order_confirm a l
    by (simp add: add_order_confirm_def act_bind_def act_return_def split: sum.splits)
next
  case (Cancel_order i)
  with keeps_ledger_cancel [OF assms] show ?thesis by simp
next
  case (Trade_message m)
  with assms show ?thesis
    by (auto simp: trade_update_handler_def act_simps keeps_ledger_pairs
        intro: fill_loop_invariant keeps_ledger_try_fill)
qed

lemma keeps_ledger_run:
  "keeps_ledger feeRate b rs s \<Longrightarrow>
    keeps_ledger feeRate b (rs @ concat (map placed os)) (fold (account_step ops) os s)"
  by (induction os arbitrary: rs s) (simp_all add: keeps_ledger_step flip: append_assoc)

text \<open>
  C2: after any sequence of operations, successful or not, the balances are exactly what the
  closed orders make of the initial ones: they come from a ledger of fills, one for each closed
  order and in their order, each of an order that was placed under that number, and each paid
  from what was there at that point. Nothing else ever moves a balance.
\<close>

theorem account_refines_ledger:
  assumes "create_paper_trade_api config stream = Inr s0"
    and "s = fold (account_step ops) os s0"
  shows "\<exists>fills. pt_closedOrders s = map fill_description fills \<and>
    post_all (pc_fee config) fills (balance s0) = Some (balance s) \<and>
    list_all (\<lambda>f. order_number (concat (map placed os)) (fl_orderId f) (fl_request f)) fills"
proof -
  from assms(1) have "keeps_ledger (pc_fee config) (balance s0) [] s0"
    by (auto simp: create_paper_trade_api_def res_bind_Inr_iff keeps_ledger_def)
  from keeps_ledger_run [OF this, of os ops] assms(2) show ?thesis by (auto simp: keeps_ledger_def)
qed

theorem account_refines_ledger_witness:
  "let w = \<lparr>tu_timeStamp = 7, tu_price = Fin 2, tu_volume = Fin 1\<rparr>;
       s0 = \<lparr>pt_stream = w, pt_fee = 0, pt_trailingOrderLimits = Map.empty,
             pt_balances = [(''B'', 50000000000)], pt_openOrders = [], pt_openOrdersByPair = (\<lambda>_. []),
             pt_closedOrders = [], pt_nextOrderNumber = 1\<rparr>;
       s = fold (account_step demo_ops) [Add_order (create_market_order demo_pair BUY (Fin 1))] s0
   in balance s ''B'' = 30000000000 \<and>
    (\<exists>f. pt_closedOrders s = [fill_description f] \<and> post_all 0 [f] (balance s0) = Some (balance s))"
proof -
  let ?w = "\<lparr>tu_timeStamp = 7, tu_price = Fin 2, tu_volume = Fin 1\<rparr>"
  let ?c = "\<lparr>pc_fee = 0, pc_balances = [(''B'', Fin 5)]\<rparr>"
  let ?s0 = "\<lparr>pt_stream = ?w, pt_fee = 0, pt_trailingOrderLimits = Map.empty,
             pt_balances = [(''B'', 50000000000)], pt_openOrders = [], pt_openOrdersByPair = (\<lambda>_. []),
             pt_closedOrders = [], pt_nextOrderNumber = 1\<rparr>"
  let ?r = "create_market_order demo_pair BUY (Fin 1)"
  have v: "to_integer_volume (Fin 5) = Inr 50000000000" "to_integer_volume (Fin 1) = Inr 10000000000"
    "to_integer_volume (Fin 2) = Inr 20000000000" by code_simp+
  have c: "create_paper_trade_api ?c ?w = Inr ?s0"
    by (simp add: create_paper_trade_api_def create_initialised_balances_def v(1) to_unordered_map_def emplace_def)
  have cost: "calculate_cost (Fin 2) (Fin 1) = Fin 2" "Fin 2 * 0 * lit (1 / 100) = Fin 0" "Fin 2 + Fin 0 = Fin 2"
    "deq (Fin 2) 0 = False" "show_int 1 = ''1''" "c_str ''1'' = ''1''" by code_simp+
  have l: "order_legs 0 ?r (Fin 2) = ((''A'', Fin 1), (''B'', Fin 2))"
    by (simp add: order_legs_def cost Let_def) (simp add: create_market_order_def demo_pair_def)
  have m: "rq_orderType ?r = MARKET" "rq_pair ?r = demo_pair" by (simp_all add: create_market_order_def)
  let ?t = "snd (add_order demo_ops ?r ?s0)"
  have s: "length (pt_closedOrders ?t) = 1 \<and> balance ?t ''B'' = 30000000000"
    by (simp add: add_order_def act_simps demo_ops_def on_stream_def try_fill_order_def execute_order_def
        fill_decision_def cost l m v has_sufficient_funds_def balance_def set_balance_def set_pair_orders_def
        emplace_def Let_def)
  obtain fills where
    f: "pt_closedOrders ?t = map fill_description fills" "post_all 0 fills (balance ?s0) = Some (balance ?t)"
    using account_refines_ledger [OF c refl, of demo_ops "[Add_order ?r]",
      unfolded fold_simps account_step.simps paper_trading_config.select_convs]
    by (elim exE conjE) (rule that)
  with s obtain f1 where "fills = [f1]" by (metis length_map length_0_conv length_Suc_conv One_nat_def)
  with f s show ?thesis unfolding Let_def by auto
qed

end
