(* ===== verification/Json.thy ===== *)
theory Json
  imports StringUtils
begin

text \<open>
  \<^verbatim>\<open>common/json/\<close>, the wrapper around the JSON library, on the data model of JSON. The
  parser is the library's: where the program parses text, the parser is a parameter. Reading a
  value as a type and indexing it follow the library: a wrong type throws, an index or a member
  that is not there is undefined behaviour of the constant subscript operator. An object is the
  list of its members in the order the library iterates them.
\<close>

section \<open>Values\<close>

datatype json =
    JNull
  | JBool bool
  | JInt int
  | JDouble double
  | JString string
  | JArray "json list"
  | JObject "(string \<times> json) list"

datatype json_value_type = OBJECT | ARRAY | INT_type | DOUBLE | BOOL | STRING | UNKNOWN

text \<open>The type of a parsed document: the library has a type of its own for the integers that are not negative.\<close>

fun json_type :: "json \<Rightarrow> json_value_type" where
  "json_type (JObject _) = OBJECT"
| "json_type (JArray _) = ARRAY"
| "json_type (JInt i) = (if i < 0 then INT_type else UNKNOWN)"
| "json_type (JDouble _) = DOUBLE"
| "json_type (JBool _) = BOOL"
| "json_type (JString _) = STRING"
| "json_type JNull = UNKNOWN"

abbreviation type_error :: "'a res" where
  "type_error \<equiv> Inl (Json_exception ''type_error'')"

section \<open>Elements\<close>

fun json_element :: "json \<Rightarrow> string \<Rightarrow> json res" where
  "json_element (JObject m) paramName =
     (case map_of m paramName of Some v \<Rightarrow> Inr v | None \<Rightarrow> Inl (Undefined_behaviour ''missing member''))"
| "json_element _ paramName = type_error"

fun json_index :: "json \<Rightarrow> int \<Rightarrow> json res" where
  "json_index (JArray xs) index = read_at ''array index'' xs index"
| "json_index _ index = type_error"

fun has_member :: "json \<Rightarrow> string \<Rightarrow> bool" where
  "has_member (JObject m) paramName = (map_of m paramName \<noteq> None)"
| "has_member _ paramName = False"

fun json_size :: "json \<Rightarrow> nat" where
  "json_size (JObject m) = length m"
| "json_size (JArray xs) = length xs"
| "json_size JNull = 0"
| "json_size _ = 1"

section \<open>Reading a value as a type\<close>

fun get_string :: "json \<Rightarrow> string res" where
  "get_string (JString s) = Inr s"
| "get_string _ = type_error"

fun get_bool :: "json \<Rightarrow> bool res" where
  "get_bool (JBool b) = Inr b"
| "get_bool _ = type_error"

fun get_double :: "json \<Rightarrow> double res" where
  "get_double (JDouble d) = Inr d"
| "get_double (JInt i) = Inr (of_int_d i)"
| "get_double _ = type_error"

text \<open>
  A floating point number is truncated towards zero, undefined where the result does not fit;
  an integer is reduced to the width of the type.
\<close>

definition truncate_to :: "nat \<Rightarrow> double \<Rightarrow> int res" where
  "truncate_to w x =
     (let t = (if dval x < 0 then - \<lfloor>- dval x\<rfloor> else \<lfloor>dval x\<rfloor>) in
      if is_finite x \<and> - (2 ^ (w - 1)) \<le> t \<and> t < 2 ^ (w - 1) then Inr t
      else Inl (Undefined_behaviour ''double to integer''))"

fun get_time :: "json \<Rightarrow> time_t res" where
  "get_time (JInt i) = Inr (signed_take_bit 63 i)"
| "get_time (JDouble d) = truncate_to 64 d"
| "get_time _ = type_error"

fun get_int :: "json \<Rightarrow> int res" where
  "get_int (JInt i) = Inr (narrow32 i)"
| "get_int (JDouble d) = truncate_to 32 d"
| "get_int (JBool b) = Inr (of_bool b)"
| "get_int _ = type_error"

fun get_long_long :: "json \<Rightarrow> int res" where
  "get_long_long (JInt i) = Inr (signed_take_bit 63 i)"
| "get_long_long (JDouble d) = truncate_to 64 d"
| "get_long_long (JBool b) = Inr (of_bool b)"
| "get_long_long _ = type_error"

fun get_string_list :: "json \<Rightarrow> string list res" where
  "get_string_list (JArray xs) = res_traverse get_string xs"
| "get_string_list _ = type_error"

fun get_double_map :: "json \<Rightarrow> (string \<times> double) list res" where
  "get_double_map (JObject m) =
     res_map (\<lambda>ps. to_unordered_map ps fst snd)
       (res_traverse (\<lambda>(k, v). res_map (Pair k) (get_double v)) m)"
| "get_double_map _ = type_error"

text \<open>\<^verbatim>\<open>json.get<T>(name)\<close> and \<^verbatim>\<open>json.get<T>(index)\<close>.\<close>

definition member :: "(json \<Rightarrow> 'a res) \<Rightarrow> json \<Rightarrow> string \<Rightarrow> 'a res" where
  "member get json paramName = res_bind (json_element json paramName) get"

definition item :: "(json \<Rightarrow> 'a res) \<Rightarrow> json \<Rightarrow> int \<Rightarrow> 'a res" where
  "item get json index = res_bind (json_index json index) get"

text \<open>\<^verbatim>\<open>std::stod\<close> of a string that is read from a document.\<close>

definition get_stod :: "json \<Rightarrow> double res" where
  "get_stod json = res_bind (get_string json) stod"

section \<open>Iteration\<close>

text \<open>
  The keys and values from \<^verbatim>\<open>begin()\<close> to \<^verbatim>\<open>end()\<close>. A value that is no container is its only element.
  The key of an element of an array is a reference to a string that is gone.
\<close>

fun json_items :: "json \<Rightarrow> (string res \<times> json) list" where
  "json_items (JObject m) = map (\<lambda>(k, v). (Inr k, v)) m"
| "json_items (JArray xs) = map (\<lambda>v. (Inl (Undefined_behaviour ''key of an array element''), v)) xs"
| "json_items JNull = []"
| "json_items v = [(Inl (Undefined_behaviour ''key of a value''), v)]"

definition json_values :: "json \<Rightarrow> json list" where
  "json_values json = map snd (json_items json)"

text \<open>\<^verbatim>\<open>begin().value()\<close>.\<close>

fun first_value :: "json \<Rightarrow> json res" where
  "first_value JNull = Inl (Json_exception ''invalid_iterator'')"
| "first_value json = (case json_items json of [] \<Rightarrow> Inl (Undefined_behaviour ''end iterator'') | kv # _ \<Rightarrow> Inr (snd kv))"

text \<open>A reading loop that fills a vector, and one that fills an \<^verbatim>\<open>unordered_map\<close>.\<close>

definition read_vector :: "(json \<Rightarrow> 'a res) \<Rightarrow> json \<Rightarrow> 'a list res" where
  "read_vector read json = res_traverse read (json_values json)"

definition read_map :: "(string res \<times> json \<Rightarrow> ('k \<times> 'v) res) \<Rightarrow> json \<Rightarrow> ('k \<times> 'v) list res" where
  "read_map read json = res_map (\<lambda>ps. to_unordered_map ps fst snd) (res_traverse read (json_items json))"

section \<open>Writing\<close>

fun json_add :: "string \<Rightarrow> json \<Rightarrow> json \<Rightarrow> json" where
  "json_add propertyName value (JObject m) = JObject (AList.update propertyName value m)"
| "json_add propertyName value document = JObject [(propertyName, value)]"

definition json_object :: "(string \<times> json) list \<Rightarrow> json" where
  "json_object ps = fold (\<lambda>(k, v). json_add k v) ps JNull"

text \<open>\<^verbatim>\<open>from_json<T>(string)\<close>, with the parser of the library.\<close>

definition from_json_text :: "(string \<Rightarrow> json res) \<Rightarrow> (json \<Rightarrow> 'a res) \<Rightarrow> string \<Rightarrow> 'a res" where
  "from_json_text parse from_json text = res_bind (parse text) from_json"

section \<open>Reading what was written\<close>

named_theorems json_simps "evaluation of JSON documents"

lemmas json_defs [json_simps] = member_def item_def get_stod_def json_object_def json_values_def

lemma read_vector_length: "read_vector read json = Inr ys \<Longrightarrow> length ys = length (json_values json)"
  unfolding read_vector_def by (drule res_traverse_Inr) (simp add: list_all2_lengthD)

lemma traverse_strings [json_simps]: "res_traverse get_string (map JString xs) = Inr xs"
  by (induction xs) simp_all

lemma traverse_doubles [json_simps]: "res_traverse (\<lambda>(k, v). res_map (Pair k) (get_double v)) (map (\<lambda>(k, v). (k, JDouble v)) m) = Inr m"
  by (induction m) auto

end
