(* ===== verification/BackTestData.thy ===== *)
theory BackTestData
  imports WebsocketStream
begin

text \<open>
  \<^verbatim>\<open>testing/back_testing/back_testing_data.cpp\<close>: the candles of a back test, read at a
  data time that moves forward by steps. An iterator into the candles of a pair is an index;
  the cache remembers where the last search for a pair ended. The data source is the interface
  \<open>candle_source\<close>, whose law is that the candles it loads
  ascend in time. The lemmas give the
  search with the cache as the plain search, and the candles each answer is made of.
\<close>

section \<open>State\<close>

type_synonym iterator_cache = "tradable_pair \<rightharpoonup> nat"

type_synonym data_source = "tradable_pair \<Rightarrow> int \<Rightarrow> ohlcv_data list res"

record back_testing_data =
  bd_tradablePairs :: "tradable_pair list"
  bd_data :: "tradable_pair \<rightharpoonup> ohlcv_data list"
  bd_startTime :: time_t
  bd_endTime :: time_t
  bd_stepSize :: int
  bd_timeSteps :: int
  bd_dataSource :: "data_source option"
  bd_dataTime :: time_t
  bd_iteratorCache :: iterator_cache

type_synonym 'a bd_action = "(back_testing_data, 'a) action"

definition create_back_testing_data ::
    "tradable_pair list \<Rightarrow> (tradable_pair \<rightharpoonup> ohlcv_data list) \<Rightarrow> time_t \<Rightarrow> time_t \<Rightarrow> int \<Rightarrow> int \<Rightarrow>
     data_source option \<Rightarrow> back_testing_data" where
  "create_back_testing_data tradablePairs data startTime endTime stepSize timeSteps dataSource =
     \<lparr>bd_tradablePairs = tradablePairs, bd_data = data, bd_startTime = startTime,
      bd_endTime = endTime, bd_stepSize = stepSize, bd_timeSteps = timeSteps,
      bd_dataSource = dataSource, bd_dataTime = startTime, bd_iteratorCache = Map.empty\<rparr>"

section \<open>Helpers\<close>

text \<open>\<^verbatim>\<open>start\<close> is read before the loop, the candles after it up to \<^verbatim>\<open>end\<close> in the loop.\<close>

definition merge_ohlcv :: "ohlcv_data list \<Rightarrow> nat \<Rightarrow> nat \<Rightarrow> time_t \<Rightarrow> ohlcv_data res" where
  "merge_ohlcv data start end targetTime =
     res_bind (read_at ''merge_ohlcv'' data (int start)) (\<lambda>d.
       let rest = drop (Suc start) (take end data) in
       Inr \<lparr>oh_timeStamp = targetTime, oh_open = oh_open d,
            oh_high = foldl (\<lambda>h x. dmax h (oh_high x)) (oh_high d) rest,
            oh_low = foldl (\<lambda>l x. dmin l (oh_low x)) (oh_low d) rest,
            oh_close = foldl (\<lambda>c x. oh_close x) (oh_close d) rest,
            oh_volume = foldl (\<lambda>v x. v + oh_volume x) (oh_volume d) rest\<rparr>)"

text \<open>
  The loop of \<^verbatim>\<open>get_iterator\<close> from the cached position; decrementing the first iterator is
  undefined behaviour, and running to the end gives the end iterator.
\<close>

function seek :: "ohlcv_data list \<Rightarrow> time_t \<Rightarrow> nat \<Rightarrow> nat res" where
  "seek data time i =
     (if i \<ge> length data then Inr (length data)
      else if oh_timeStamp (data ! i) > time
           then (if i = 0 then Inl (Undefined_behaviour ''iterator before begin'') else Inr (i - 1))
      else if oh_timeStamp (data ! i) = time then Inr i
      else seek data time (Suc i))"
  by pat_completeness auto
termination
  by (relation "measure (\<lambda>(data, time, i). length data - i)") auto

declare seek.simps [simp del]

definition get_iterator ::
    "ohlcv_data list \<Rightarrow> tradable_pair \<Rightarrow> time_t \<Rightarrow> iterator_cache \<Rightarrow> (nat option \<times> iterator_cache) res" where
  "get_iterator data pair time cache =
     (if data = [] \<or> time < oh_timeStamp (hd data) then Inr (None, cache)
      else if time > oh_timeStamp (last data) then Inr (Some (length data - 1), cache)
      else res_bind (seek data time (case cache pair of None \<Rightarrow> 0 | Some i \<Rightarrow> i))
             (\<lambda>it. Inr (Some it, cache(pair \<mapsto> it))))"

fun back_start :: "ohlcv_data list \<Rightarrow> time_t \<Rightarrow> nat \<Rightarrow> nat" where
  "back_start data targetTime 0 = 0"
| "back_start data targetTime (Suc i) =
     (if oh_timeStamp (data ! Suc i) > targetTime then back_start data targetTime i else Suc i)"

section \<open>Operations\<close>

definition get_or_load_data :: "tradable_pair \<Rightarrow> ohlcv_data list bd_action" where
  "get_or_load_data pair s =
     (case bd_data s pair of
        Some data \<Rightarrow> (Inr data, s)
      | None \<Rightarrow> (case bd_dataSource s of
            None \<Rightarrow> (Inr [], s\<lparr>bd_data := (bd_data s)(pair \<mapsto> [])\<rparr>)
          | Some load \<Rightarrow> (case load pair (bd_stepSize s) of
                Inl e \<Rightarrow> (Inl e, s)
              | Inr data \<Rightarrow> (Inr data, s\<lparr>bd_data := (bd_data s)(pair \<mapsto> data)\<rparr>))))"

definition bd_increment :: "unit bd_action" where
  "bd_increment = act_modify (\<lambda>s. s\<lparr>bd_dataTime := bd_dataTime s + bd_stepSize s\<rparr>)"

definition find_candle :: "ohlcv_data list \<Rightarrow> tradable_pair \<Rightarrow> nat option bd_action" where
  "find_candle data pair s =
     (case get_iterator data pair (bd_dataTime s) (bd_iteratorCache s) of
        Inl e \<Rightarrow> (Inl e, s)
      | Inr (it, cache) \<Rightarrow> (Inr it, s\<lparr>bd_iteratorCache := cache\<rparr>))"

fun ohlcv_loop :: "ohlcv_data list \<Rightarrow> int \<Rightarrow> nat \<Rightarrow> time_t \<Rightarrow> nat \<Rightarrow> ohlcv_data list res" where
  "ohlcv_loop data interval 0 targetTime0 end = Inr []"
| "ohlcv_loop data interval (Suc n) targetTime0 end =
     (let startTime = oh_timeStamp (hd data);
          targetTime = max (targetTime0 - interval) startTime in
      res_bind (read_at ''end'' data (int end)) (\<lambda>e.
      let end1 = (if targetTime + interval > oh_timeStamp e then Suc end else end);
          start = back_start data targetTime end in
      res_bind (merge_ohlcv data start end1 targetTime) (\<lambda>mergedOhlcv.
      if targetTime = startTime \<and> start = 0 then Inr [mergedOhlcv]
      else res_bind (ohlcv_loop data interval n targetTime start) (\<lambda>rest. Inr (mergedOhlcv # rest)))))"

definition bd_get_ohlcv :: "tradable_pair \<Rightarrow> int \<Rightarrow> int \<Rightarrow> ohlcv_data list bd_action" where
  "bd_get_ohlcv pair interval count =
     act_bind (get_or_load_data pair) (\<lambda>pairData.
     if pairData = [] then act_return []
     else act_bind (find_candle pairData pair) (\<lambda>it. case it of
       None \<Rightarrow> act_return []
     | Some e \<Rightarrow> act_bind (act_read bd_dataTime) (\<lambda>dataTime.
         if e = 0 \<and> dataTime = oh_timeStamp (hd pairData) then act_return []
         else if count < 0 then act_throw (Length_error ''vector::reserve'')
         else act_res (\<lambda>_. ohlcv_loop pairData interval (nat count) dataTime e))))"

definition bd_get_trade :: "tradable_pair \<Rightarrow> trade_update bd_action" where
  "bd_get_trade pair =
     act_bind (get_or_load_data pair) (\<lambda>pairData.
     act_bind (find_candle pairData pair) (\<lambda>it. case it of
       None \<Rightarrow> act_return \<lparr>tu_timeStamp = 0, tu_price = 0, tu_volume = 0\<rparr>
     | Some i \<Rightarrow>
         act_bind (act_res (\<lambda>_. read_at ''get_trade'' pairData (int i))) (\<lambda>ohlcvData.
         act_bind (act_read bd_dataTime) (\<lambda>dataTime.
         let price = (if Suc i = length pairData \<and> dataTime > oh_timeStamp ohlcvData
                      then oh_close ohlcvData else oh_open ohlcvData) in
         act_return \<lparr>tu_timeStamp = oh_timeStamp ohlcvData, tu_price = price,
                     tu_volume = oh_volume ohlcvData\<rparr>))))"

text \<open>The depth is not used.\<close>

definition bd_get_order_book :: "tradable_pair \<Rightarrow> int \<Rightarrow> order_book_state bd_action" where
  "bd_get_order_book pair depth =
     act_bind (get_or_load_data pair) (\<lambda>pairData.
     act_bind (find_candle pairData pair) (\<lambda>it. case it of
       None \<Rightarrow> act_return \<lparr>ob_timeStamp = 0, ob_asks = [], ob_bids = []\<rparr>
     | Some i \<Rightarrow>
         act_bind (act_res (\<lambda>_. read_at ''get_order_book'' pairData (int i))) (\<lambda>ohlcvData.
         act_return \<lparr>ob_timeStamp = oh_timeStamp ohlcvData,
            ob_asks = [\<lparr>oe_price = oh_high ohlcvData, oe_volume = oh_volume ohlcvData, oe_side = ASK\<rparr>],
            ob_bids = [\<lparr>oe_price = oh_low ohlcvData, oe_volume = oh_volume ohlcvData, oe_side = BID\<rparr>]\<rparr>)))"

section \<open>The plain search\<close>

definition ascending :: "ohlcv_data list \<Rightarrow> bool" where
  "ascending data \<longleftrightarrow> sorted_wrt (\<lambda>x y. oh_timeStamp x < oh_timeStamp y) data"

text \<open>The index of the last candle that does not start after a time.\<close>

definition current_index :: "ohlcv_data list \<Rightarrow> time_t \<Rightarrow> nat option" where
  "current_index data time =
     (case length (takeWhile (\<lambda>d. oh_timeStamp d \<le> time) data) of 0 \<Rightarrow> None | Suc i \<Rightarrow> Some i)"

definition cursor_ok :: "ohlcv_data list \<Rightarrow> time_t \<Rightarrow> nat option \<Rightarrow> bool" where
  "cursor_ok data time c \<longleftrightarrow>
     (case c of None \<Rightarrow> True | Some i \<Rightarrow> i < length data \<and> oh_timeStamp (data ! i) \<le> time)"

lemma ascending_nth:
  "ascending data \<Longrightarrow> i < j \<Longrightarrow> j < length data \<Longrightarrow> oh_timeStamp (data ! i) < oh_timeStamp (data ! j)"
  by (simp add: ascending_def sorted_wrt_iff_nth_less)

lemma ascending_nth_le:
  "ascending data \<Longrightarrow> i \<le> j \<Longrightarrow> j < length data \<Longrightarrow> oh_timeStamp (data ! i) \<le> oh_timeStamp (data ! j)"
  using ascending_nth [of data i j] by (cases "i = j") auto

lemma current_index_eqI:
  assumes "ascending data" "j < length data" "oh_timeStamp (data ! j) \<le> time"
    and "Suc j < length data \<Longrightarrow> time < oh_timeStamp (data ! Suc j)"
  shows "current_index data time = Some j"
proof -
  have "takeWhile (\<lambda>d. oh_timeStamp d \<le> time) data = take (Suc j) data"
  proof (rule takeWhile_eq_take_P_nth)
    show "oh_timeStamp (data ! i) \<le> time" if "i < Suc j" "i < length data" for i
      using ascending_nth_le [OF assms(1), of i j] that assms(2,3) by simp
    show "\<not> oh_timeStamp (data ! Suc j) \<le> time" if "Suc j < length data"
      using assms(4) that by simp
  qed
  with assms(2) show ?thesis by (simp add: current_index_def)
qed

lemma current_index_Some:
  assumes "current_index data time = Some j"
  shows "j < length data" "oh_timeStamp (data ! j) \<le> time"
    and "Suc j < length data \<Longrightarrow> time < oh_timeStamp (data ! Suc j)"
proof -
  let ?t = "takeWhile (\<lambda>d. oh_timeStamp d \<le> time) data"
  have l: "length ?t = Suc j" using assms by (auto simp: current_index_def split: nat.splits)
  then show "j < length data" by (metis Suc_le_lessD length_takeWhile_le)
  show "oh_timeStamp (data ! j) \<le> time"
    using l by (metis lessI nth_mem set_takeWhileD takeWhile_nth)
  show "time < oh_timeStamp (data ! Suc j)" if "Suc j < length data"
    using nth_length_takeWhile [of "\<lambda>d. oh_timeStamp d \<le> time" data] l that by simp
qed

lemma current_index_None:
  "data = [] \<or> time < oh_timeStamp (hd data) \<Longrightarrow> current_index data time = None"
  by (cases data) (auto simp: current_index_def)

lemma seek_current:
  assumes "ascending data" "i < length data" "oh_timeStamp (data ! i) \<le> time"
    and "time \<le> oh_timeStamp (last data)"
  shows "\<exists>j. seek data time i = Inr j \<and> current_index data time = Some j"
  using assms
proof (induction data time i rule: seek.induct)
  case (1 data time i)
  have last: "oh_timeStamp (last data) = oh_timeStamp (data ! (length data - 1))"
    using "1.prems"(2) by (metis last_conv_nth length_0_conv not_less_zero)
  show ?case
  proof (cases "oh_timeStamp (data ! i) = time")
    case True
    have "current_index data time = Some i"
      using "1.prems" True ascending_nth [of data i "Suc i"] by (intro current_index_eqI) auto
    with "1.prems"(2) True show ?thesis by (subst seek.simps) simp
  next
    case False
    with "1.prems"(3) have lt: "oh_timeStamp (data ! i) < time" by simp
    have i: "Suc i < length data"
    proof (rule ccontr)
      assume "\<not> Suc i < length data"
      with "1.prems"(2) have "length data - 1 = i" by simp
      with last lt "1.prems"(4) show False by simp
    qed
    have step: "seek data time i = seek data time (Suc i)"
      using "1.prems"(2) lt by (subst seek.simps) simp
    show ?thesis
    proof (cases "oh_timeStamp (data ! Suc i) \<le> time")
      case True
      from "1.IH" [OF _ _ False "1.prems"(1) i True "1.prems"(4)] "1.prems"(2) lt step
      show ?thesis by simp
    next
      case past: False
      then have "current_index data time = Some i"
        using "1.prems" lt by (intro current_index_eqI) auto
      moreover have "seek data time (Suc i) = Inr i"
        using i past by (subst seek.simps) simp
      ultimately show ?thesis using step by simp
    qed
  qed
qed

lemma get_iterator_current:
  assumes "ascending data" "cursor_ok data time (cache pair)"
  shows "\<exists>cache'. get_iterator data pair time cache = Inr (current_index data time, cache') \<and>
    cursor_ok data time (cache' pair) \<and> (\<forall>p. p \<noteq> pair \<longrightarrow> cache' p = cache p)"
proof -
  consider "data = [] \<or> time < oh_timeStamp (hd data)" | "data \<noteq> []" "time > oh_timeStamp (last data)"
    | "data \<noteq> []" "oh_timeStamp (hd data) \<le> time" "time \<le> oh_timeStamp (last data)" by linarith
  then show ?thesis
  proof cases
    case 1
    then show ?thesis using current_index_None [OF 1] assms(2) by (auto simp: get_iterator_def)
  next
    case 2
    have "hd data = data ! 0" using 2(1) by (rule hd_conv_nth)
    with 2 ascending_nth_le [OF assms(1), of 0 "length data - 1"] have "\<not> time < oh_timeStamp (hd data)"
      by (simp add: last_conv_nth)
    moreover have "current_index data time = Some (length data - 1)"
      using 2 assms(1) by (intro current_index_eqI) (auto simp: last_conv_nth)
    ultimately show ?thesis using 2 assms(2) by (auto simp: get_iterator_def)
  next
    case 3
    define i where "i = (case cache pair of None \<Rightarrow> 0 | Some i \<Rightarrow> i)"
    have "i < length data" "oh_timeStamp (data ! i) \<le> time"
      using assms(2) 3 by (auto simp: i_def cursor_ok_def hd_conv_nth split: option.splits)
    from seek_current [OF assms(1) this 3(3)] obtain j where j: "seek data time i = Inr j"
        "current_index data time = Some j" by blast
    have "cursor_ok data time (Some j)" using current_index_Some [OF j(2)] by (simp add: cursor_ok_def)
    with 3 j show ?thesis by (simp add: get_iterator_def i_def)
  qed
qed

section \<open>The data source\<close>

text \<open>
  What the back test relies on: the candles loaded for a pair, none of them from before 1970,
  ascend in time.
\<close>

definition since_epoch :: "ohlcv_data list \<Rightarrow> bool" where
  "since_epoch data \<longleftrightarrow> (\<forall>d \<in> set data. 0 \<le> oh_timeStamp d)"

fun candles_ok :: "ohlcv_data list option \<Rightarrow> nat option \<Rightarrow> time_t \<Rightarrow> bool" where
  "candles_ok None cursor time = (cursor = None)"
| "candles_ok (Some data) cursor time = (ascending data \<and> cursor_ok data time cursor)"

definition bd_inv :: "data_source \<Rightarrow> back_testing_data \<Rightarrow> bool" where
  "bd_inv load s \<longleftrightarrow> 0 < bd_stepSize s \<and> (bd_dataSource s = None \<or> bd_dataSource s = Some load) \<and>
     (\<forall>pair data. load pair (bd_stepSize s) = Inr data \<longrightarrow> since_epoch data) \<and>
     (\<forall>pair. candles_ok (bd_data s pair) (bd_iteratorCache s pair) (bd_dataTime s))"

lemma candles_ok_later: "candles_ok d c t \<Longrightarrow> t \<le> u \<Longrightarrow> candles_ok d c u"
  by (cases d) (auto simp: cursor_ok_def split: option.splits)

lemma inv_candles: "bd_inv load s \<Longrightarrow> candles_ok (bd_data s p) (bd_iteratorCache s p) (bd_dataTime s)"
  by (simp add: bd_inv_def)

lemma inv_find:
  assumes "bd_inv load s" "bd_data s pair = Some data"
  shows "\<exists>t. find_candle data pair s = (Inr (current_index data (bd_dataTime s)), t) \<and> bd_inv load t \<and>
    bd_data t = bd_data s \<and> bd_dataTime t = bd_dataTime s \<and> bd_dataSource t = bd_dataSource s \<and>
    bd_stepSize t = bd_stepSize s"
proof -
  have "ascending data" "cursor_ok data (bd_dataTime s) (bd_iteratorCache s pair)"
    using inv_candles [OF assms(1), of pair] assms(2) by simp_all
  from get_iterator_current [of data "bd_dataTime s" "bd_iteratorCache s" pair, OF this] obtain cache where c:
      "get_iterator data pair (bd_dataTime s) (bd_iteratorCache s) =
         Inr (current_index data (bd_dataTime s), cache)"
      "cursor_ok data (bd_dataTime s) (cache pair)" "\<forall>p. p \<noteq> pair \<longrightarrow> cache p = bd_iteratorCache s p"
    by blast
  have "candles_ok (bd_data s p) (cache p) (bd_dataTime s)" for p
    using inv_candles [OF assms(1), of p] assms(2) c(2,3) by (cases "p = pair") simp_all
  with assms(1) c(1) show ?thesis by (simp add: find_candle_def bd_inv_def)
qed

lemma inv_increment:
  assumes "bd_inv load s"
  shows "bd_inv load (snd (bd_increment s))"
proof -
  have "0 < bd_stepSize s" using assms by (simp add: bd_inv_def)
  then have "candles_ok (bd_data s p) (bd_iteratorCache s p) (bd_dataTime s + bd_stepSize s)" for p
    by (intro candles_ok_later [OF inv_candles [OF assms]]) simp
  with assms show ?thesis by (simp add: bd_inv_def bd_increment_def act_simps)
qed

text \<open>The candles a pair has, loaded or not, and the trade read from them at a time.\<close>

definition bd_candles :: "back_testing_data \<Rightarrow> tradable_pair \<Rightarrow> ohlcv_data list" where
  "bd_candles s pair = (case bd_data s pair of Some data \<Rightarrow> data
     | None \<Rightarrow> (case bd_dataSource s of None \<Rightarrow> []
         | Some load \<Rightarrow> (case load pair (bd_stepSize s) of Inl _ \<Rightarrow> [] | Inr data \<Rightarrow> data)))"

definition plain_trade :: "ohlcv_data list \<Rightarrow> time_t \<Rightarrow> trade_update" where
  "plain_trade data time = (case current_index data time of
       None \<Rightarrow> \<lparr>tu_timeStamp = 0, tu_price = 0, tu_volume = 0\<rparr>
     | Some i \<Rightarrow> \<lparr>tu_timeStamp = oh_timeStamp (data ! i),
         tu_price = (if Suc i = length data \<and> oh_timeStamp (data ! i) < time
                     then oh_close (data ! i) else oh_open (data ! i)),
         tu_volume = oh_volume (data ! i)\<rparr>)"

locale candle_source =
  fixes load :: data_source
  assumes load_ascending: "0 < step \<Longrightarrow> load pair step = Inr data \<Longrightarrow> since_epoch data \<Longrightarrow>
      ascending data"
begin

lemma inv_load:
  assumes "bd_inv load s" "get_or_load_data pair s = (Inr data, t)"
  shows "bd_inv load t \<and> bd_data t pair = Some data \<and> ascending data \<and> bd_dataTime t = bd_dataTime s \<and>
    bd_dataSource t = bd_dataSource s \<and> bd_stepSize t = bd_stepSize s"
proof (cases "bd_data s pair")
  case (Some d)
  with assms inv_candles [OF assms(1), of pair] show ?thesis by (simp add: get_or_load_data_def)
next
  case None
  have c: "bd_iteratorCache s pair = None" using inv_candles [OF assms(1), of pair] None by simp
  have st: "0 < bd_stepSize s" "bd_dataSource s = None \<or> bd_dataSource s = Some load"
      "load pair (bd_stepSize s) = Inr data \<Longrightarrow> since_epoch data"
    using assms(1) by (simp_all add: bd_inv_def)
  have t: "t = s\<lparr>bd_data := (bd_data s)(pair \<mapsto> data)\<rparr>" and asc: "ascending data"
    using None assms(2) st(2) load_ascending [OF st(1), of pair data] st(3)
    by (auto simp: get_or_load_data_def ascending_def [of "[]"] split: option.splits sum.splits)
  have "candles_ok (bd_data t p) (bd_iteratorCache t p) (bd_dataTime t)" for p
    using inv_candles [OF assms(1), of p] c asc by (cases "p = pair") (simp_all add: t cursor_ok_def)
  with assms(1) asc show ?thesis by (simp add: bd_inv_def t)
qed

lemma load_error:
  "get_or_load_data pair s = (Inl e, t) \<Longrightarrow> t = s"
  by (auto simp: get_or_load_data_def split: option.splits sum.splits)

lemma same_candles:
  assumes "get_or_load_data pair s = (Inr data, t)"
  shows "bd_candles t = bd_candles s" "bd_candles s pair = data"
  using assms
  by (auto simp: get_or_load_data_def bd_candles_def fun_eq_iff split: option.splits sum.splits if_splits)

lemma get_trade_plain:
  assumes "bd_inv load s" "bd_get_trade pair s = (r, t)"
  shows "bd_inv load t \<and> bd_candles t = bd_candles s \<and> bd_dataTime t = bd_dataTime s \<and>
    (\<forall>tr. r = Inr tr \<longrightarrow> tr = plain_trade (bd_candles s pair) (bd_dataTime s))"
proof (cases "get_or_load_data pair s")
  case (Pair r1 s1)
  show ?thesis
  proof (cases r1)
    case (Inl e)
    with Pair load_error have "s1 = s" by blast
    with Pair Inl assms show ?thesis by (auto simp: bd_get_trade_def act_simps)
  next
    case (Inr data)
    with Pair have l: "get_or_load_data pair s = (Inr data, s1)" by simp
    note i = inv_load [OF assms(1) l]
    obtain s2 where f: "find_candle data pair s1 = (Inr (current_index data (bd_dataTime s1)), s2)"
        "bd_inv load s2" "bd_data s2 = bd_data s1" "bd_dataTime s2 = bd_dataTime s1"
        "bd_dataSource s2 = bd_dataSource s1" "bd_stepSize s2 = bd_stepSize s1"
      using inv_find [of load s1 pair data] i by blast
    have "bd_candles s2 = bd_candles s1" by (rule ext) (simp only: bd_candles_def f)
    then have c: "bd_candles s2 = bd_candles s" using same_candles(1) [OF l] by simp
    have "bd_get_trade pair s = (Inr (plain_trade data (bd_dataTime s)), s2)"
      using f i current_index_Some [of data "bd_dataTime s"]
      by (auto simp: bd_get_trade_def act_simps l plain_trade_def read_at_Inr Let_def split: option.split)
    with assms f i c same_candles(2) [OF l] show ?thesis by auto
  qed
qed

end

section \<open>Candles over an interval\<close>

lemma back_start_spec:
  "back_start data targetTime i \<le> i \<and>
   (oh_timeStamp (data ! i) > targetTime \<and> i \<noteq> 0 \<longrightarrow> back_start data targetTime i < i)"
  by (induction i) auto

lemma merge_ohlcv_Inr:
  "a < length data \<Longrightarrow> \<exists>c. merge_ohlcv data a b target = Inr c \<and> oh_timeStamp c = target"
  by (simp add: merge_ohlcv_def read_at_Inr Let_def)

text \<open>What a candle of the answer is made of: the candles from \<open>a\<close> up to \<open>b\<close>.\<close>

definition made_before :: "ohlcv_data list \<Rightarrow> nat \<Rightarrow> ohlcv_data \<Rightarrow> bool" where
  "made_before data limit c \<longleftrightarrow>
     (\<exists>a b. a < b \<and> b \<le> limit \<and> merge_ohlcv data a b (oh_timeStamp c) = Inr c)"

lemma ohlcv_step_range:
  assumes "ascending data" "end < length data" "0 < interval"
    and "target = max (target0 - interval) (oh_timeStamp (hd data))"
    and "end1 = (if target + interval > oh_timeStamp (data ! end) then Suc end else end)"
  shows "back_start data target end < end1"
proof (cases "target + interval > oh_timeStamp (data ! end)")
  case True
  with assms(5) back_start_spec [of data target "end"] show ?thesis by simp
next
  case False
  have "hd data = data ! 0" using assms(2) by (metis hd_conv_nth length_0_conv not_less_zero)
  with False assms(3,4) have "end \<noteq> 0" "oh_timeStamp (data ! end) > target"
    by (auto, cases "end") auto
  with False assms(5) back_start_spec [of data target "end"] show ?thesis by simp
qed

lemma ohlcv_loop_spec:
  assumes "ascending data" "limit \<le> length data" "0 < interval" "oh_timeStamp (hd data) \<le> target0"
    and "end < limit \<or> end = limit \<and> end < length data \<and> target0 \<le> oh_timeStamp (data ! end)
           \<and> oh_timeStamp (hd data) \<le> target0 - interval"
  shows "\<exists>cs. ohlcv_loop data interval n target0 end = Inr cs \<and> length cs \<le> n \<and>
    (\<forall>i < length cs. oh_timeStamp (cs ! i) =
        max (target0 - (int i + 1) * interval) (oh_timeStamp (hd data))) \<and>
    (\<forall>c \<in> set cs. made_before data limit c)"
  using assms(4,5)
proof (induction n arbitrary: target0 "end")
  case 0
  then show ?case by simp
next
  case (Suc n)
  let ?st = "oh_timeStamp (hd data)"
  define target where "target = max (target0 - interval) ?st"
  define end1 where "end1 = (if target + interval > oh_timeStamp (data ! end) then Suc end else end)"
  define start where "start = back_start data target end"
  have e: "end < length data" using Suc.prems(2) assms(2) by auto
  have range: "start < end1"
    unfolding start_def by (rule ohlcv_step_range [OF assms(1) e assms(3) target_def end1_def])
  have lim: "end1 \<le> limit" using Suc.prems(2) by (auto simp: end1_def target_def split: if_splits)
  obtain c where c: "merge_ohlcv data start end1 target = Inr c" "oh_timeStamp c = target"
    using merge_ohlcv_Inr [of start data end1 target] range lim assms(2) by auto
  have mc: "made_before data limit c" using range lim c unfolding made_before_def by blast
  have step: "ohlcv_loop data interval (Suc n) target0 end =
      (if target = ?st \<and> start = 0 then Inr [c]
       else res_bind (ohlcv_loop data interval n target start) (\<lambda>rest. Inr (c # rest)))"
    using e c(1) by (simp add: read_at_Inr target_def [symmetric] end1_def [symmetric] start_def [symmetric] Let_def)
  show ?case
  proof (cases "target = ?st \<and> start = 0")
    case True
    then show ?thesis using step c mc by (auto simp: target_def)
  next
    case False
    have "?st \<le> target" "start < limit" using range lim by (auto simp: target_def)
    from Suc.IH [OF this(1) disjI1, OF this(2)] obtain cs where cs:
        "ohlcv_loop data interval n target start = Inr cs" "length cs \<le> n"
        "\<forall>i < length cs. oh_timeStamp (cs ! i) = max (target - (int i + 1) * interval) ?st"
        "\<forall>c \<in> set cs. made_before data limit c" by blast
    have t: "max (target - x) ?st = max (target0 - (x + interval)) ?st" if "0 \<le> x" for x
      using that by (auto simp: target_def)
    have "oh_timeStamp ((c # cs) ! i) = max (target0 - (int i + 1) * interval) ?st"
      if "i < length (c # cs)" for i
    proof (cases i)
      case 0
      then show ?thesis using c(2) by (simp add: target_def)
    next
      case (Suc j)
      with that cs(3) t [of "(int j + 1) * interval"] assms(3) show ?thesis
        by (simp add: algebra_simps)
    qed
    with cs mc step False show ?thesis by (intro exI [of _ "c # cs"]) auto
  qed
qed

lemma before_count:
  assumes "ascending data" "current_index data time = Some e"
  shows "(oh_timeStamp (data ! e) < time \<longrightarrow> (\<forall>k \<le> e. oh_timeStamp (data ! k) < time)) \<and>
    (\<forall>k < e. oh_timeStamp (data ! k) < time)"
proof -
  note c = current_index_Some [OF assms(2)]
  show ?thesis
    using c(1,2) ascending_nth_le [OF assms(1) _ c(1)] ascending_nth [OF assms(1) _ c(1)]
    by (meson order_le_less_trans order_less_le_trans)
qed

text \<open>
  C10: asked for the candles of an interval while at least one whole interval of data lies
  behind the data time, the back test answers with at most as many candles as asked for, one
  interval apart and the oldest at the start of the data, and makes each of them, out of range
  nowhere, from data candles that started before the data time only.
\<close>

theorem back_test_ohlcv_no_lookahead:
  assumes "bd_data s pair = Some data" "ascending data" "data \<noteq> []" "0 < interval" "0 \<le> count"
    and "cursor_ok data (bd_dataTime s) (bd_iteratorCache s pair)"
    and "oh_timeStamp (hd data) \<le> bd_dataTime s - interval"
    and "limit = length (takeWhile (\<lambda>d. oh_timeStamp d < bd_dataTime s) data)"
  shows "\<exists>cs t. bd_get_ohlcv pair interval count s = (Inr cs, t) \<and> int (length cs) \<le> count \<and>
    (\<forall>i < length cs. oh_timeStamp (cs ! i) =
        max (bd_dataTime s - (int i + 1) * interval) (oh_timeStamp (hd data))) \<and>
    (\<forall>c \<in> set cs. made_before data limit c)"
proof -
  let ?t = "bd_dataTime s"
  obtain cache where it: "get_iterator data pair ?t (bd_iteratorCache s) =
      Inr (current_index data ?t, cache)"
    using get_iterator_current [of data ?t "bd_iteratorCache s" pair] assms(2,6) by blast
  have hd0: "hd data = data ! 0" using assms(3) by (rule hd_conv_nth)
  have "takeWhile (\<lambda>d. oh_timeStamp d \<le> ?t) data \<noteq> []"
    using assms(3,4,7) by (cases data) auto
  then obtain e where e: "current_index data ?t = Some e"
    by (cases "length (takeWhile (\<lambda>d. oh_timeStamp d \<le> ?t) data)") (auto simp: current_index_def)
  note ce = current_index_Some [OF e]
  have lim: "e < limit \<or> e = limit \<and> ?t \<le> oh_timeStamp (data ! e)"
  proof (cases "oh_timeStamp (data ! e) < ?t")
    case True
    then have "takeWhile (\<lambda>d. oh_timeStamp d < ?t) data = take (Suc e) data"
      using before_count [OF assms(2) e] ce by (intro takeWhile_eq_take_P_nth) auto
    then show ?thesis using assms(8) ce(1) by simp
  next
    case False
    then have "takeWhile (\<lambda>d. oh_timeStamp d < ?t) data = take e data"
      using before_count [OF assms(2) e] ce by (intro takeWhile_eq_take_P_nth) auto
    then show ?thesis using assms(8) ce(1) False by simp
  qed
  have start: "oh_timeStamp (hd data) \<le> ?t" using assms(4,7) by simp
  have "limit \<le> length data" using assms(8) length_takeWhile_le by auto
  from ohlcv_loop_spec [OF assms(2) this assms(4) start, of e "nat count"] lim ce(1) assms(7)
  obtain cs where cs: "ohlcv_loop data interval (nat count) ?t e = Inr cs" "length cs \<le> nat count"
      "\<forall>i < length cs. oh_timeStamp (cs ! i) = max (?t - (int i + 1) * interval) (oh_timeStamp (hd data))"
      "\<forall>c \<in> set cs. made_before data limit c" by blast
  have "bd_get_ohlcv pair interval count s = (Inr cs, s\<lparr>bd_iteratorCache := cache\<rparr>)"
    using assms(1,3,4,5,7) it e cs(1)
    by (simp add: bd_get_ohlcv_def get_or_load_data_def find_candle_def act_simps)
  with cs assms(5) show ?thesis by (intro exI [of _ cs] exI [of _ "s\<lparr>bd_iteratorCache := cache\<rparr>"]) simp
qed

definition demo_candle :: "int \<Rightarrow> rat \<Rightarrow> ohlcv_data" where
  "demo_candle t p = \<lparr>oh_timeStamp = t, oh_open = Fin p, oh_high = Fin (p + 1), oh_low = Fin p,
     oh_close = Fin (p + 1), oh_volume = Fin 1\<rparr>"

definition demo_data :: "ohlcv_data list \<Rightarrow> time_t \<Rightarrow> back_testing_data" where
  "demo_data candles time = (create_back_testing_data [] (\<lambda>_. Some candles) 0 600 60 11 None)
     \<lparr>bd_dataTime := time\<rparr>"

theorem back_test_ohlcv_no_lookahead_witness:
  "\<exists>c t. bd_get_ohlcv \<lparr>tp_asset = ''A'', tp_priceUnit = ''B''\<rparr> 60 1
      (demo_data [demo_candle 0 5, demo_candle 60 9] 60) = (Inr c, t)
    \<and> (\<forall>x \<in> set c. made_before [demo_candle 0 5, demo_candle 60 9] 1 x)"
proof -
  let ?d = "[demo_candle 0 5, demo_candle 60 9]" and ?p = "\<lparr>tp_asset = ''A'', tp_priceUnit = ''B''\<rparr>"
  let ?s = "demo_data ?d 60"
  have "bd_data ?s ?p = Some ?d" "ascending ?d" "?d \<noteq> []" "0 < (60 :: int)" "0 \<le> (1 :: int)"
      "cursor_ok ?d (bd_dataTime ?s) (bd_iteratorCache ?s ?p)"
      "oh_timeStamp (hd ?d) \<le> bd_dataTime ?s - 60"
      "1 = length (takeWhile (\<lambda>d. oh_timeStamp d < bd_dataTime ?s) ?d)"
    by (simp_all add: demo_data_def create_back_testing_data_def ascending_def demo_candle_def cursor_ok_def)
  from back_test_ohlcv_no_lookahead [OF this] show ?thesis by blast
qed

text \<open>
  With less than an interval of data behind the data time the answer looks ahead: the
  clipped interval reaches past the data time and takes in the candle that only starts there,
  so its close, high, low and volume are those of the future.
\<close>

lemma back_test_ohlcv_lookahead:
  "fst (bd_get_ohlcv \<lparr>tp_asset = ''A'', tp_priceUnit = ''B''\<rparr> 120 1
      (demo_data [demo_candle 0 5, demo_candle 60 9] 60)) =
    Inr [\<lparr>oh_timeStamp = 0, oh_open = Fin 5, oh_high = Fin 10, oh_low = Fin 5, oh_close = Fin 10,
         oh_volume = Fin 2\<rparr>]"
  by code_simp

lemma back_test_ohlcv_counted_twice:
  "fst (bd_get_ohlcv \<lparr>tp_asset = ''A'', tp_priceUnit = ''B''\<rparr> 180 2
      (demo_data (map (\<lambda>t. demo_candle t 5) [0, 60, 120, 180, 240]) 240)) =
    Inr [\<lparr>oh_timeStamp = 60, oh_open = Fin 5, oh_high = Fin 6, oh_low = Fin 5, oh_close = Fin 6, oh_volume = Fin 3\<rparr>,
         \<lparr>oh_timeStamp = 0, oh_open = Fin 5, oh_high = Fin 6, oh_low = Fin 5, oh_close = Fin 6, oh_volume = Fin 2\<rparr>]"
  by code_simp

end
