(* ===== verification/BackTesting.thy ===== *)
theory BackTesting
  imports BackTestData PaperTrading
begin

text \<open>
  The rest of \<^verbatim>\<open>testing/back_testing/\<close>: the csv data source and the loading of the
  candles (\<^verbatim>\<open>data_loading/\<close>), the configuration, the market api, and the market stream
  that replays the candles (\<^verbatim>\<open>backtest_websocket_stream.cpp\<close>). The csv source is an
  interpretation of \<open>candle_source\<close>, the stream one of \<open>price_feed\<close>, so the paper account can
  be run on it.
\<close>

section \<open>Configuration\<close>

record back_testing_config =
  bt_startTime :: time_t
  bt_endTime :: time_t
  bt_stepSize :: int
  bt_dataDirectory :: string
  bt_dynamicLoad :: bool

definition default_back_testing_config :: back_testing_config where
  "default_back_testing_config = \<lparr>bt_startTime = 0, bt_endTime = 0, bt_stepSize = 60,
     bt_dataDirectory = ''back_test_data'', bt_dynamicLoad = False\<rparr>"

definition bt_validate :: "back_testing_config \<Rightarrow> unit res" where
  "bt_validate c =
     res_bind (if bt_endTime c \<noteq> 0
               then assert_throw (bt_endTime c > bt_startTime c) ''End time must be greater than start time''
               else Inr ()) (\<lambda>_.
     res_bind (if bt_dynamicLoad c
               then res_bind (assert_throw (bt_startTime c \<noteq> 0)
                      ''Start time cannot be 0 when dynamic data load enabled'') (\<lambda>_.
                    assert_throw (bt_endTime c \<noteq> 0)
                      ''End time cannot be 0 when dynamic data load enabled'')
               else Inr ()) (\<lambda>_.
     assert_throw (bt_stepSize c > 0) ''Step size must be greater than zero''))"

definition create_back_testing_config ::
    "time_t \<Rightarrow> time_t \<Rightarrow> int \<Rightarrow> string \<Rightarrow> bool \<Rightarrow> back_testing_config res" where
  "create_back_testing_config startTime endTime stepSize dataDirectory dynamicLoad =
     (let c = \<lparr>bt_startTime = startTime, bt_endTime = endTime, bt_stepSize = stepSize,
               bt_dataDirectory = dataDirectory, bt_dynamicLoad = dynamicLoad\<rparr>
      in res_bind (bt_validate c) (\<lambda>_. Inr c))"

section \<open>The csv data source\<close>

text \<open>
  A directory as the file system shows it: the names of its entries in some order, whether each
  is a regular file, and the lines of a file; a file that cannot be opened has none.
\<close>

record data_directory =
  dd_entries :: "(string \<times> bool) list"
  dd_lines :: "string \<Rightarrow> string list"

text \<open>
  \<^verbatim>\<open>std::filesystem::path::extension\<close>: from the last dot of the name, unless that is its
  first character.
\<close>

definition split_extension :: "string \<Rightarrow> string \<times> string" where
  "split_extension name =
     (let r = rev name; e = takeWhile (\<lambda>c. c \<noteq> CHR ''.'') r
      in if name = ''..'' then (name, []) else
         (case dropWhile (\<lambda>c. c \<noteq> CHR ''.'') r of
            [] \<Rightarrow> (name, [])
          | _ # st \<Rightarrow> if st = [] then (name, []) else (rev st, CHR ''.'' # rev e)))"

text \<open>The selector keeps the time of the last candle it let through, \<open>-1\<close> before the first.\<close>

definition ohlcv_data_selector :: "int \<Rightarrow> time_t \<Rightarrow> ohlcv_data \<Rightarrow> bool \<times> time_t" where
  "ohlcv_data_selector stepSize lastTime data =
     (if lastTime \<noteq> - 1 \<and> oh_timeStamp data - lastTime < stepSize then (False, lastTime)
      else (True, oh_timeStamp data))"

definition csv_available_pairs :: "data_directory \<Rightarrow> tradable_pair list res" where
  "csv_available_pairs d =
     res_map concat (res_traverse (\<lambda>(name, regular).
       if \<not> regular \<or> snd (split_extension name) \<noteq> ''.csv'' then Inr []
       else (case parse_tradable_pair (fst (split_extension name)) (CHR ''_'') of
               Inl (Mb_exception _) \<Rightarrow> Inr []
             | Inl e \<Rightarrow> Inl e
             | Inr pair \<Rightarrow> Inr [pair])) (dd_entries d))"

definition csv_load_data :: "data_directory \<Rightarrow> data_source" where
  "csv_load_data d pair stepSize =
     res_map (sort_key oh_timeStamp)
       (read_csv_lines ohlcv_from_csv_row (ohlcv_data_selector stepSize) (- 1)
          (dd_lines d (pair_to_string pair (CHR ''_'') @ ''.csv'')))"

section \<open>Loading\<close>

definition calculate_time_steps :: "time_t \<Rightarrow> time_t \<Rightarrow> int \<Rightarrow> int" where
  "calculate_time_steps startTime endTime stepSize =
     narrow32 ((endTime - startTime) sdiv stepSize + 1)"

fun load_pairs ::
    "data_source \<Rightarrow> int \<Rightarrow> tradable_pair list \<Rightarrow> (tradable_pair \<rightharpoonup> ohlcv_data list) \<times> time_t \<times> time_t \<Rightarrow>
     ((tradable_pair \<rightharpoonup> ohlcv_data list) \<times> time_t \<times> time_t) res" where
  "load_pairs load step [] acc = Inr acc"
| "load_pairs load step (pair # pairs) (m, startTime, endTime) =
     res_bind (load pair step) (\<lambda>data.
       load_pairs load step pairs
         (if data = [] then (m, startTime, endTime)
          else (if m pair = None then m(pair \<mapsto> data) else m,
                min startTime (oh_timeStamp (hd data)), max endTime (oh_timeStamp (last data)))))"

definition load_all_data ::
    "data_source \<Rightarrow> back_testing_config \<Rightarrow> tradable_pair list \<Rightarrow>
     ((tradable_pair \<rightharpoonup> ohlcv_data list) \<times> time_t \<times> time_t) res" where
  "load_all_data load config pairs =
     res_bind (load_pairs load (bt_stepSize config) pairs (Map.empty, 2 ^ 63 - 1, 0))
       (\<lambda>(m, startTime, endTime). Inr (m,
          if bt_startTime config \<noteq> 0 then bt_startTime config else startTime,
          if bt_endTime config \<noteq> 0 then bt_endTime config else endTime))"

definition load_back_testing_data :: "data_directory \<Rightarrow> back_testing_config \<Rightarrow> back_testing_data res" where
  "load_back_testing_data d config =
     res_bind (csv_available_pairs d) (\<lambda>pairs.
     res_bind (if bt_dynamicLoad config
               then Inr ((Map.empty, bt_startTime config, bt_endTime config), Some (csv_load_data d))
               else res_bind (load_all_data (csv_load_data d) config pairs) (\<lambda>r. Inr (r, None)))
       (\<lambda>((m, startTime, endTime), source).
     Inr (create_back_testing_data pairs m startTime endTime (bt_stepSize config)
            (calculate_time_steps startTime endTime (bt_stepSize config)) source)))"

section \<open>The market api of a back test\<close>

datatype exchange_status = ONLINE | MAINTENANCE | CANCEL_ONLY | LIMIT_ONLY | POST_ONLY | OFFLINE

fun exchange_status_to_string :: "exchange_status \<Rightarrow> string" where
  "exchange_status_to_string ONLINE = ''Online''"
| "exchange_status_to_string MAINTENANCE = ''Maintenance''"
| "exchange_status_to_string CANCEL_ONLY = ''Cancel Only''"
| "exchange_status_to_string LIMIT_ONLY = ''Limit Only''"
| "exchange_status_to_string POST_ONLY = ''Post Only''"
| "exchange_status_to_string OFFLINE = ''Offline''"

definition bm_get_status :: "exchange_status bd_action" where
  "bm_get_status = act_return ONLINE"

definition bm_get_tradable_pairs :: "tradable_pair list bd_action" where
  "bm_get_tradable_pairs = act_read bd_tradablePairs"

definition bm_get_ohlcv :: "tradable_pair \<Rightarrow> ohlcv_interval \<Rightarrow> int \<Rightarrow> ohlcv_data list bd_action" where
  "bm_get_ohlcv pair interval count =
     act_bind (act_res (\<lambda>_. to_seconds interval)) (\<lambda>seconds. bd_get_ohlcv pair seconds count)"

definition bm_get_price :: "tradable_pair \<Rightarrow> double bd_action" where
  "bm_get_price pair = act_bind (bd_get_trade pair) (\<lambda>t. act_return (tu_price t))"

definition bm_get_order_book :: "tradable_pair \<Rightarrow> int \<Rightarrow> order_book_state bd_action" where
  "bm_get_order_book pair depth = bd_get_order_book pair depth"

section \<open>The replayed market stream\<close>

record 'h backtest_stream =
  bs_tradeUpdateHandlers :: "'h list"
  bs_ohlcvUpdateHandlers :: "'h list"
  bs_orderBookUpdateHandlers :: "'h list"
  bs_subscriptions :: "unique_websocket_subscription list"
  bs_data :: back_testing_data

type_synonym ('h, 'a) bs_action = "('h backtest_stream, 'a) action"

definition create_backtest_stream :: "back_testing_data \<Rightarrow> 'h backtest_stream" where
  "create_backtest_stream data = \<lparr>bs_tradeUpdateHandlers = [], bs_ohlcvUpdateHandlers = [],
     bs_orderBookUpdateHandlers = [], bs_subscriptions = [], bs_data = data\<rparr>"

definition on_data :: "'a bd_action \<Rightarrow> ('h, 'a) bs_action" where
  "on_data m s = (case m (bs_data s) of (r, d) \<Rightarrow> (r, s\<lparr>bs_data := d\<rparr>))"

text \<open>
  The subscriptions are an \<^verbatim>\<open>unordered_set\<close> whose hash reads the interval of a candle
  subscription; elements are compared with \<^verbatim>\<open>operator==\<close>.
\<close>

definition sub_hash :: "unique_websocket_subscription \<Rightarrow> unit res" where
  "sub_hash sub = (if sb_channel sub = OHLCV then res_map (\<lambda>_. ()) (get_ohlcv_interval sub) else Inr ())"

definition same_sub :: "unique_websocket_subscription \<Rightarrow> unique_websocket_subscription \<Rightarrow> bool" where
  "same_sub s t = (subscription_equal s t = Inr True)"

definition unique_sub :: "websocket_subscription \<Rightarrow> tradable_pair \<Rightarrow> unique_websocket_subscription" where
  "unique_sub sub pair = \<lparr>sb_channel = sb_channel sub, sb_pairItem = pair, sb_parameter = sb_parameter sub\<rparr>"

definition bs_subscribe :: "websocket_subscription \<Rightarrow> ('h, unit) bs_action" where
  "bs_subscribe subscription = act_iter (\<lambda>pair.
     act_seq (act_res (\<lambda>_. sub_hash (unique_sub subscription pair)))
       (act_modify (\<lambda>s. if \<exists>t \<in> set (bs_subscriptions s). same_sub t (unique_sub subscription pair) then s
          else s\<lparr>bs_subscriptions := bs_subscriptions s @ [unique_sub subscription pair]\<rparr>)))
     (sb_pairItem subscription)"

definition bs_unsubscribe :: "websocket_subscription \<Rightarrow> ('h, unit) bs_action" where
  "bs_unsubscribe subscription = act_iter (\<lambda>pair.
     act_seq (act_res (\<lambda>_. sub_hash (unique_sub subscription pair)))
       (act_modify (\<lambda>s. s\<lparr>bs_subscriptions :=
          filter (\<lambda>t. \<not> same_sub t (unique_sub subscription pair)) (bs_subscriptions s)\<rparr>)))
     (sb_pairItem subscription)"

definition bs_get_subscription_status :: "unique_websocket_subscription \<Rightarrow> ('h, subscription_status) bs_action" where
  "bs_get_subscription_status sub =
     act_seq (act_res (\<lambda>_. sub_hash sub)) (act_read (\<lambda>s.
       if \<exists>t \<in> set (bs_subscriptions s). same_sub t sub then SUBSCRIBED else UNSUBSCRIBED))"

definition bs_get_order_book :: "tradable_pair \<Rightarrow> int \<Rightarrow> ('h, order_book_state) bs_action" where
  "bs_get_order_book pair depth = on_data (bd_get_order_book pair depth)"

definition bs_get_last_trade :: "tradable_pair \<Rightarrow> ('h, trade_update) bs_action" where
  "bs_get_last_trade pair = on_data (bd_get_trade pair)"

definition bs_get_last_candle :: "tradable_pair \<Rightarrow> ohlcv_interval \<Rightarrow> ('h, ohlcv_data) bs_action" where
  "bs_get_last_candle pair interval =
     act_bind (act_res (\<lambda>_. to_seconds interval)) (\<lambda>seconds.
     act_bind (on_data (bd_get_ohlcv pair seconds 1)) (\<lambda>candles.
     act_return (case candles of [] \<Rightarrow> empty_ohlcv | c # _ \<Rightarrow> c)))"

text \<open>
  \<^verbatim>\<open>notify\<close>: the stream sits in a larger state, reached by \<open>get\<close> and \<open>put\<close>, on which the
  handlers work; \<open>call\<close> says what a handler does with a message.
\<close>

datatype update_message =
    Trade_update_message trade_update_message
  | Ohlcv_update_message ohlcv_update_message
  | Order_book_update_message order_book_update_message

definition in_state ::
    "('s \<Rightarrow> 'w) \<Rightarrow> ('w \<Rightarrow> 's \<Rightarrow> 's) \<Rightarrow> ('w, 'a) action \<Rightarrow> ('s, 'a) action" where
  "in_state get put m s = (case m (get s) of (r, w) \<Rightarrow> (r, put w s))"

definition notify_one ::
    "('s \<Rightarrow> 'h backtest_stream) \<Rightarrow> ('h backtest_stream \<Rightarrow> 's \<Rightarrow> 's) \<Rightarrow>
     ('h \<Rightarrow> update_message \<Rightarrow> ('s, unit) action) \<Rightarrow> unique_websocket_subscription \<Rightarrow> ('s, unit) action" where
  "notify_one get put call sub =
     (let pair = sb_pairItem sub in
      case sb_channel sub of
        TRADE \<Rightarrow> act_bind (act_read (\<lambda>s. bs_tradeUpdateHandlers (get s) \<noteq> [])) (\<lambda>has.
          if \<not> has then act_return ()
          else act_bind (in_state get put (on_data (bd_get_trade pair))) (\<lambda>t.
            fire_handlers call (\<lambda>s. bs_tradeUpdateHandlers (get s))
              (Trade_update_message \<lparr>tm_pair = pair, tm_trade = t\<rparr>)))
      | OHLCV \<Rightarrow> act_bind (act_read (\<lambda>s. bs_ohlcvUpdateHandlers (get s) \<noteq> [])) (\<lambda>has.
          if \<not> has then act_return ()
          else act_bind (act_res (\<lambda>_. get_ohlcv_interval sub)) (\<lambda>interval.
            act_bind (act_res (\<lambda>_. to_seconds interval)) (\<lambda>seconds.
            act_bind (in_state get put (on_data (bd_get_ohlcv pair seconds 1))) (\<lambda>candles.
            fire_handlers call (\<lambda>s. bs_ohlcvUpdateHandlers (get s))
              (Ohlcv_update_message \<lparr>om_pair = pair, om_interval = interval,
                 om_ohlcv = (case candles of [] \<Rightarrow> empty_ohlcv | c # _ \<Rightarrow> c)\<rparr>)))))
      | ORDER_BOOK \<Rightarrow> act_bind (act_read (\<lambda>s. bs_orderBookUpdateHandlers (get s) \<noteq> [])) (\<lambda>has.
          if \<not> has then act_return ()
          else act_bind (in_state get put (on_data (bd_get_order_book pair 0))) (\<lambda>book.
            act_bind (act_res (\<lambda>_. case ob_asks book of
                [] \<Rightarrow> Inl (Undefined_behaviour ''front of an empty vector'') | e # _ \<Rightarrow> Inr e)) (\<lambda>entry.
            fire_handlers call (\<lambda>s. bs_orderBookUpdateHandlers (get s))
              (Order_book_update_message \<lparr>bm_pair = pair, bm_entry = entry\<rparr>)))))"

text \<open>
  The loop of \<^verbatim>\<open>notify\<close> runs over the set of subscriptions itself, which a handler may change. A
  subscription another one's handler has erased is not met any more; one that is added may
  move the elements, and one that erases itself takes the iterator with it: both leave the loop
  without a defined next element.
\<close>

fun notify_loop ::
    "('s \<Rightarrow> 'h backtest_stream) \<Rightarrow> ('h backtest_stream \<Rightarrow> 's \<Rightarrow> 's) \<Rightarrow>
     ('h \<Rightarrow> update_message \<Rightarrow> ('s, unit) action) \<Rightarrow> unique_websocket_subscription list \<Rightarrow> ('s, unit) action" where
  "notify_loop get put call [] = act_return ()"
| "notify_loop get put call (sub # subs) =
     act_bind (act_read (\<lambda>s. bs_subscriptions (get s))) (\<lambda>before.
     if sub \<notin> set before then notify_loop get put call subs
     else act_seq (notify_one get put call sub)
       (act_bind (act_read (\<lambda>s. bs_subscriptions (get s))) (\<lambda>after.
        if sub \<in> set after \<and> set after \<subseteq> set before then notify_loop get put call subs
        else act_throw (Undefined_behaviour ''iterator of a set that was changed''))))"

definition bs_notify ::
    "('s \<Rightarrow> 'h backtest_stream) \<Rightarrow> ('h backtest_stream \<Rightarrow> 's \<Rightarrow> 's) \<Rightarrow>
     ('h \<Rightarrow> update_message \<Rightarrow> ('s, unit) action) \<Rightarrow> ('s, unit) action" where
  "bs_notify get put call =
     act_bind (act_read (\<lambda>s. bs_subscriptions (get s))) (\<lambda>subs. notify_loop get put call subs)"

definition backtest_stream_ops :: "'h backtest_stream stream_ops" where
  "backtest_stream_ops =
     \<lparr>so_get_last_trade = bs_get_last_trade,
      so_get_subscription_status = bs_get_subscription_status,
      so_subscribe = bs_subscribe,
      so_get_time = (\<lambda>s. bd_dataTime (bs_data s))\<rparr>"

section \<open>The candles of a csv file\<close>

text \<open>Candles a step or more apart, all of them a step or more after a time that is kept.\<close>

definition spaced :: "int \<Rightarrow> time_t \<Rightarrow> ohlcv_data list \<Rightarrow> bool" where
  "spaced step kept ds \<longleftrightarrow> sorted_wrt (\<lambda>x y. oh_timeStamp x + step \<le> oh_timeStamp y) ds \<and>
     (kept \<noteq> - 1 \<longrightarrow> (\<forall>d \<in> set ds. kept + step \<le> oh_timeStamp d))"

lemma selected_spaced:
  assumes "read_csv_lines f (ohlcv_data_selector step) kept ls = Inr ds" "0 < step" "since_epoch ds"
    and "- 1 \<le> kept"
  shows "spaced step kept ds"
  using assms(1,3,4)
proof (induction ls arbitrary: kept ds)
  case Nil
  then show ?case by (simp add: spaced_def)
next
  case (Cons l ls)
  obtain d where "f (parse_row l) = Inr d" using Cons.prems(1) by (auto simp: res_bind_Inr_iff)
  moreover obtain k st where "ohlcv_data_selector step kept d = (k, st)" by fastforce
  ultimately obtain rest where d: "ohlcv_data_selector step kept d = (k, st)"
      "read_csv_lines f (ohlcv_data_selector step) st ls = Inr rest" "ds = (if k then d # rest else rest)"
    using Cons.prems(1) by (auto simp: res_bind_Inr_iff)
  have rest: "since_epoch rest" using Cons.prems(2) d(3) by (auto simp: since_epoch_def split: if_splits)
  show ?case
  proof (cases k)
    case False
    with d(1) have "st = kept" by (auto simp: ohlcv_data_selector_def split: if_splits)
    with Cons.IH [OF d(2) rest] Cons.prems(3) d(3) False show ?thesis by simp
  next
    case True
    then have t: "st = oh_timeStamp d" "0 \<le> st" "kept \<noteq> - 1 \<longrightarrow> kept + step \<le> st"
      using d(1,3) Cons.prems(2) by (auto simp: ohlcv_data_selector_def since_epoch_def split: if_splits)
    with Cons.IH [OF d(2) rest] have "spaced step st rest" by simp
    with t d(3) True assms(2) show ?thesis by (fastforce simp: spaced_def)
  qed
qed

lemma spaced_ascending: "0 < step \<Longrightarrow> spaced step kept ds \<Longrightarrow> ascending ds"
  unfolding spaced_def ascending_def by (auto elim!: sorted_wrt_mono_rel [rotated])

lemma ascending_sort: "ascending ds \<Longrightarrow> sort_key oh_timeStamp ds = ds"
  by (rule sort_key_id_if_sorted)
     (auto simp: ascending_def sorted_wrt_map elim!: sorted_wrt_mono_rel [rotated])

lemma csv_load_spaced:
  assumes "csv_load_data d pair step = Inr data" "0 < step" "since_epoch data"
  shows "spaced step (- 1) data"
proof -
  obtain ds where r: "read_csv_lines ohlcv_from_csv_row (ohlcv_data_selector step) (- 1)
      (dd_lines d (pair_to_string pair (CHR ''_'') @ ''.csv'')) = Inr ds" "data = sort_key oh_timeStamp ds"
    using assms(1) by (auto simp: csv_load_data_def elim: res_map.elims)
  then have "since_epoch ds" using assms(3) by (simp add: since_epoch_def)
  from selected_spaced [OF r(1) assms(2) this] have s: "spaced step (- 1) ds" by simp
  with ascending_sort [OF spaced_ascending [OF assms(2) s]] r(2) show ?thesis by simp
qed

interpretation csv_source: candle_source "csv_load_data d"
  by unfold_locales (blast intro: spaced_ascending csv_load_spaced)

section \<open>The paper account on the replayed stream\<close>

definition back_test_price :: "'h backtest_stream \<Rightarrow> tradable_pair \<Rightarrow> double" where
  "back_test_price s p = tu_price (plain_trade (bd_candles (bs_data s) p) (bd_dataTime (bs_data s)))"

lemma bs_get_last_trade_view:
  assumes "bd_inv (csv_load_data d) (bs_data s)" "bs_get_last_trade p s = (r, t)"
  shows "bd_inv (csv_load_data d) (bs_data t) \<and> back_test_price t = back_test_price s \<and>
    (\<forall>tr. r = Inr tr \<longrightarrow> tu_price tr = back_test_price s p)"
proof -
  obtain u where u: "bd_get_trade p (bs_data s) = (r, u)" "t = s\<lparr>bs_data := u\<rparr>"
    using assms(2) by (auto simp: bs_get_last_trade_def on_data_def split: prod.splits)
  from csv_source.get_trade_plain [OF assms(1) u(1)] u(2) show ?thesis
    by (auto simp: back_test_price_def fun_eq_iff)
qed

interpretation backtest_feed: price_feed backtest_stream_ops back_test_price
    "\<lambda>s. bd_inv (csv_load_data d) (bs_data s)"
  by unfold_locales (auto simp: backtest_stream_ops_def dest: bs_get_last_trade_view)

text \<open>
  C11: run on a back test, the account fills an order exactly when the rule of its type holds at
  the price of the candle that is current at the data time (its open; the close of the last
  candle once the data time is past it), whatever was searched before: no fill depends on a
  candle that starts after the data time. The candles stay the ones they were.
\<close>

theorem fill_at_backtest_price:
  assumes "bd_inv (csv_load_data d) (bs_data (pt_stream s))"
    and "try_fill_order backtest_stream_ops i s = (Inr b, t)"
  shows "(\<exists>request. map_of (pt_openOrders s) (c_str i) = Some request \<and>
    (let p = back_test_price (pt_stream s) (rq_pair request);
         rule = fill_rule request (pt_trailingOrderLimits s (c_str i)) p
     in if b then \<not> deq p 0 \<and> (\<exists>c. pt_closedOrders t = pt_closedOrders s @ [c] \<and>
               od_orderId c = c_str i \<and> od_volume c = rq_get request VOLUME \<and> rule (od_price c))
        else pt_closedOrders t = pt_closedOrders s \<and> (deq p 0 \<or> (\<forall>fp. \<not> rule fp)))) \<and>
    back_test_price (pt_stream t) = back_test_price (pt_stream s)"
  using backtest_feed.try_fill_rule [OF assms] backtest_feed.try_fill_view [OF assms] by blast

definition demo_directory :: data_directory where
  "demo_directory = \<lparr>dd_entries = [(''A_B.csv'', True), (''notes.txt'', True), (''C_D.csv'', True)],
     dd_lines = (\<lambda>n. if n = ''A_B.csv'' then [''0,1,1,1,1,1'', ''30,1,1,1,1,1'', ''60,2,2,2,2,1'', ''130,3,3,3,3,1'']
       else [])\<rparr>"

definition empty_directory :: data_directory where
  "empty_directory = \<lparr>dd_entries = [], dd_lines = (\<lambda>_. [])\<rparr>"

definition demo_back_test :: "(string \<times> order_request) list \<Rightarrow> unit backtest_stream paper_trade_api" where
  "demo_back_test orders = \<lparr>pt_stream = create_backtest_stream (demo_data [demo_candle 0 5, demo_candle 60 9] 60),
     pt_fee = 0, pt_trailingOrderLimits = Map.empty, pt_balances = [(''B'', 50000000000)],
     pt_openOrders = orders, pt_openOrdersByPair = (\<lambda>_. []), pt_closedOrders = [], pt_nextOrderNumber = 3\<rparr>"

lemma demo_back_test_inv: "bd_inv (csv_load_data empty_directory) (bs_data (pt_stream (demo_back_test os)))"
  by (simp add: bd_inv_def demo_back_test_def create_backtest_stream_def demo_data_def
      create_back_testing_data_def csv_load_data_def empty_directory_def ascending_def demo_candle_def
      cursor_ok_def since_epoch_def)

theorem fill_at_backtest_price_witness:
  "let s = demo_back_test [(''1'', create_limit_order demo_pair BUY (Fin 1) (Fin 1))];
       (r, t) = try_fill_order backtest_stream_ops ''1'' s
   in r = Inr False \<and> pt_closedOrders t = [] \<and> back_test_price (pt_stream t) demo_pair = Fin 9"
proof -
  let ?s = "demo_back_test [(''1'', create_limit_order demo_pair BUY (Fin 1) (Fin 1))]"
  obtain r t where f: "try_fill_order backtest_stream_ops ''1'' ?s = (r, t)" by fastforce
  have "fst (try_fill_order backtest_stream_ops ''1'' ?s) = Inr False" by code_simp
  with f have r: "r = Inr False" by simp
  have p: "back_test_price (pt_stream ?s) demo_pair = Fin 9" by code_simp
  have c: "pt_closedOrders ?s = []" by (simp add: demo_back_test_def)
  from fill_at_backtest_price [OF demo_back_test_inv f [unfolded r]]
  have "pt_closedOrders t = pt_closedOrders ?s" "back_test_price (pt_stream t) = back_test_price (pt_stream ?s)"
    unfolding Let_def by auto
  then have "r = Inr False \<and> pt_closedOrders t = [] \<and> back_test_price (pt_stream t) demo_pair = Fin 9"
    by (simp only: r p c)
  then show ?thesis unfolding Let_def f by simp
qed

section \<open>The loaded back test\<close>

fun times_within :: "ohlcv_data list option \<Rightarrow> time_t \<Rightarrow> time_t \<Rightarrow> bool" where
  "times_within None a b = True"
| "times_within (Some data) a b = (\<forall>c \<in> set data. a \<le> oh_timeStamp c \<and> oh_timeStamp c \<le> b)"

fun loaded_ok :: "int \<Rightarrow> ohlcv_data list option \<Rightarrow> bool" where
  "loaded_ok step None = True"
| "loaded_ok step (Some data) = spaced step (- 1) data"

lemma times_within_mono: "times_within d a b \<Longrightarrow> a' \<le> a \<Longrightarrow> b \<le> b' \<Longrightarrow> times_within d a' b'"
  by (cases d) force+

lemma spaced_hd_last:
  assumes "0 < step" "spaced step (- 1) data" "data \<noteq> []"
  shows "times_within (Some data) (oh_timeStamp (hd data)) (oh_timeStamp (last data))"
proof -
  have a: "ascending data" by (rule spaced_ascending [OF assms(1,2)])
  have "oh_timeStamp (hd data) \<le> oh_timeStamp (data ! i)" "oh_timeStamp (data ! i) \<le> oh_timeStamp (last data)"
    if "i < length data" for i
    using ascending_nth_le [OF a, of 0 i] ascending_nth_le [OF a, of i "length data - 1"] that assms(3)
    by (simp_all add: hd_conv_nth last_conv_nth)
  then show ?thesis by (auto simp: in_set_conv_nth)
qed

lemma load_pairs_ok:
  assumes "load_pairs (csv_load_data d) step pairs (m, a, b) = Inr (m', a', b')" "0 < step"
    and "\<And>pair data. csv_load_data d pair step = Inr data \<Longrightarrow> since_epoch data"
    and "\<And>p. loaded_ok step (m p)" "\<And>p. times_within (m p) a b"
  shows "loaded_ok step (m' p) \<and> times_within (m' p) a' b'"
  using assms(1,4,5)
proof (induction pairs arbitrary: m a b)
  case Nil
  then show ?case by simp
next
  case (Cons pair pairs)
  obtain data where l: "csv_load_data d pair step = Inr data" using Cons.prems(1) by (auto simp: res_bind_Inr_iff)
  show ?case
  proof (cases "data = []")
    case True
    with Cons l show ?thesis by simp
  next
    case False
    define n where "n = (if m pair = None then m(pair \<mapsto> data) else m)"
    define a1 where "a1 = min a (oh_timeStamp (hd data))"
    define b1 where "b1 = max b (oh_timeStamp (last data))"
    have s: "spaced step (- 1) data" using csv_load_spaced [OF l assms(2)] assms(3) [OF l] .
    have "times_within (Some data) a1 b1"
      by (rule times_within_mono [OF spaced_hd_last [OF assms(2) s False]]) (simp_all add: a1_def b1_def)
    moreover have "times_within (m p) a1 b1" for p
      by (rule times_within_mono [OF Cons.prems(3)]) (simp_all add: a1_def b1_def)
    ultimately have "loaded_ok step (n p)" "times_within (n p) a1 b1" for p
      using Cons.prems(2) s by (auto simp: n_def simp del: times_within.simps)
    moreover have "load_pairs (csv_load_data d) step pairs (n, a1, b1) = Inr (m', a', b')"
      using Cons.prems(1) l False by (simp add: n_def a1_def b1_def)
    ultimately show ?thesis using Cons.IH by blast
  qed
qed

lemma load_all_data_ok:
  assumes "load_all_data (csv_load_data d) config pairs = Inr (m, a, b)" "0 < bt_stepSize config"
    and "\<And>pair data. csv_load_data d pair (bt_stepSize config) = Inr data \<Longrightarrow> since_epoch data"
  shows "loaded_ok (bt_stepSize config) (m p) \<and>
    (bt_startTime config = 0 \<and> bt_endTime config = 0 \<longrightarrow> times_within (m p) a b)"
proof -
  obtain a' b' where l: "load_pairs (csv_load_data d) (bt_stepSize config) pairs (Map.empty, 2 ^ 63 - 1, 0) =
      Inr (m, a', b')" and t: "bt_startTime config = 0 \<Longrightarrow> a = a'" "bt_endTime config = 0 \<Longrightarrow> b = b'"
    using assms(1) by (auto simp: load_all_data_def res_bind_Inr_iff split: if_splits)
  have "loaded_ok (bt_stepSize config) (m p) \<and> times_within (m p) a' b'"
    by (rule load_pairs_ok [OF l assms(2,3)]) simp_all
  with t show ?thesis by simp
qed

lemma created_step: "create_back_testing_config st en step dir dyn = Inr config \<Longrightarrow>
    bt_stepSize config = step \<and> 0 < step"
  by (auto simp: create_back_testing_config_def bt_validate_def res_bind_Inr_iff assert_throw_Inr Let_def)

lemma spaced_candles_ok: "0 < step \<Longrightarrow> loaded_ok step c \<Longrightarrow> candles_ok c None t"
  by (cases c) (auto simp: spaced_ascending cursor_ok_def)

text \<open>
  C24: loading a valid configuration gives a back test in which the search invariant holds, at
  the start time, and the candles of every loaded pair are at least a step apart.
\<close>

theorem load_back_testing_data_ok:
  assumes "create_back_testing_config st en step dir dyn = Inr config"
    and "load_back_testing_data d config = Inr data"
    and "\<And>pair cs. csv_load_data d pair step = Inr cs \<Longrightarrow> since_epoch cs"
  shows "bd_inv (csv_load_data d) data \<and> bd_dataTime data = bd_startTime data \<and>
    (\<forall>pair. loaded_ok step (bd_data data pair))"
proof -
  note step = created_step [OF assms(1)]
  obtain pairs m a b source where l: "(if bt_dynamicLoad config
       then Inr ((Map.empty, bt_startTime config, bt_endTime config), Some (csv_load_data d))
       else res_bind (load_all_data (csv_load_data d) config pairs) (\<lambda>r. Inr (r, None))) =
         Inr ((m, a, b), source)"
    and data: "data = create_back_testing_data pairs m a b (bt_stepSize config)
       (calculate_time_steps a b (bt_stepSize config)) source"
    using assms(2) by (auto simp: load_back_testing_data_def res_bind_Inr_iff)
  have ok: "loaded_ok step (m p)" for p
    using l load_all_data_ok [of d config pairs m a b p] step assms(3)
    by (auto simp: res_bind_Inr_iff split: if_splits)
  have "source = None \<or> source = Some (csv_load_data d)"
    using l by (auto simp: res_bind_Inr_iff split: if_splits)
  with ok data step assms(3) show ?thesis
    by (auto simp: bd_inv_def create_back_testing_data_def intro!: spaced_candles_ok [of step])
qed

lemma demo_directory_epoch:
  assumes "csv_load_data demo_directory pair 60 = Inr cs"
  shows "since_epoch cs"
proof (cases "pair_to_string pair (CHR ''_'') @ ''.csv'' = ''A_B.csv''")
  case True
  have "read_csv_lines ohlcv_from_csv_row (ohlcv_data_selector 60) (- 1) (dd_lines demo_directory ''A_B.csv'') =
      Inr (map (\<lambda>(t, p). \<lparr>oh_timeStamp = t, oh_open = Fin p, oh_high = Fin p, oh_low = Fin p,
        oh_close = Fin p, oh_volume = Fin 1\<rparr>) [(0, 1), (60, 2), (130, 3)])" by code_simp
  with assms True show ?thesis by (auto simp: csv_load_data_def since_epoch_def)
next
  case False
  with assms show ?thesis by (simp add: csv_load_data_def since_epoch_def demo_directory_def)
qed

definition demo_config :: back_testing_config where
  "demo_config = \<lparr>bt_startTime = 0, bt_endTime = 0, bt_stepSize = 60, bt_dataDirectory = ''x'',
     bt_dynamicLoad = False\<rparr>"

lemma demo_config_created: "create_back_testing_config 0 0 60 ''x'' False = Inr demo_config"
  by code_simp

lemma demo_load: "\<exists>data cs. load_back_testing_data demo_directory demo_config = Inr data \<and>
    bd_data data demo_pair = Some cs \<and> map oh_timeStamp cs = [0, 60, 130] \<and>
    bd_startTime data = 0 \<and> bd_endTime data = 130 \<and> bd_timeSteps data = 3"
proof -
  have "res_map (\<lambda>d. (map_option (map oh_timeStamp) (bd_data d demo_pair), bd_startTime d, bd_endTime d,
      bd_timeSteps d)) (load_back_testing_data demo_directory demo_config) =
      Inr (Some [0, 60, 130], 0, 130, 3)" by code_simp
  then show ?thesis by (cases "load_back_testing_data demo_directory demo_config") auto
qed

theorem load_back_testing_data_ok_witness:
  "\<exists>data. load_back_testing_data demo_directory demo_config = Inr data \<and>
    bd_inv (csv_load_data demo_directory) data \<and> bd_data data demo_pair \<noteq> None"
proof -
  obtain data cs where l: "load_back_testing_data demo_directory demo_config = Inr data"
      "bd_data data demo_pair = Some cs" using demo_load by blast
  then have "bd_inv (csv_load_data demo_directory) data"
    using load_back_testing_data_ok [OF demo_config_created l(1)] demo_directory_epoch by blast
  with l show ?thesis by blast
qed

text \<open>
  C25: with the start and the end taken from the data, every loaded candle starts within the
  time steps of the run, of which there are enough and none too many, and the data time of the
  last step is not past the end.
\<close>

theorem time_steps_cover_data:
  assumes "create_back_testing_config 0 0 step dir False = Inr config"
    and "load_back_testing_data d config = Inr data"
    and "\<And>pair cs. csv_load_data d pair step = Inr cs \<Longrightarrow> since_epoch cs"
    and "bd_startTime data \<le> bd_endTime data" "bd_endTime data - bd_startTime data < 2147483647"
    and "bd_data data pair = Some cs" "c \<in> set cs"
  shows "bd_startTime data \<le> oh_timeStamp c \<and>
    oh_timeStamp c < bd_startTime data + bd_timeSteps data * step \<and>
    bd_startTime data + (bd_timeSteps data - 1) * step \<le> bd_endTime data \<and> 1 \<le> bd_timeSteps data"
proof -
  note step = created_step [OF assms(1)]
  have cfg: "bt_dynamicLoad config = False" "bt_startTime config = 0" "bt_endTime config = 0"
    using assms(1) by (auto simp: create_back_testing_config_def res_bind_Inr_iff Let_def)
  obtain pairs m a b where l: "load_all_data (csv_load_data d) config pairs = Inr (m, a, b)"
    and data: "data = create_back_testing_data pairs m a b step (calculate_time_steps a b step) None"
    using assms(2) step cfg by (auto simp: load_back_testing_data_def res_bind_Inr_iff)
  have "times_within (m pair) a b"
    using load_all_data_ok [OF l, of pair] step cfg assms(3) by auto
  with data assms(6,7) have c: "a \<le> oh_timeStamp c" "oh_timeStamp c \<le> b"
    by (simp_all add: create_back_testing_data_def)
  have ab: "0 \<le> b - a" "b - a < 2147483647" using assms(4,5) data by (simp_all add: create_back_testing_data_def)
  have "(b - a) div step \<le> b - a" using zdiv_mono2 [of "b - a" 1 step] ab(1) step by simp
  moreover have q: "0 \<le> (b - a) div step" using ab(1) step by (simp add: pos_imp_zdiv_nonneg_iff)
  ultimately have n: "calculate_time_steps a b step = (b - a) div step + 1"
    using ab step by (simp add: calculate_time_steps_def sdiv_nonneg narrow32_id)
  have r: "b - a = (b - a) div step * step + (b - a) mod step" "0 \<le> (b - a) mod step" "(b - a) mod step < step"
    using step by (simp_all add: mult.commute)
  define k where "k = (b - a) div step"
  have "k * step \<le> b - a" "b - a < (k + 1) * step"
    using r unfolding k_def [symmetric] by (simp_all add: algebra_simps)
  with c n q data show ?thesis by (simp add: create_back_testing_data_def k_def)
qed

theorem time_steps_cover_data_witness:
  "\<exists>data cs. load_back_testing_data demo_directory demo_config = Inr data \<and>
    bd_data data demo_pair = Some cs \<and> 130 \<in> oh_timeStamp ` set cs \<and> 130 < bd_timeSteps data * 60"
proof -
  obtain data cs where l: "load_back_testing_data demo_directory demo_config = Inr data"
      "bd_data data demo_pair = Some cs" "map oh_timeStamp cs = [0, 60, 130]"
      "bd_startTime data = 0" "bd_endTime data = 130" using demo_load by metis
  then have "130 \<in> oh_timeStamp ` set cs" by (metis image_set list.set_intros(1,2))
  then obtain c where c: "c \<in> set cs" "oh_timeStamp c = 130" by force
  have "0 \<le> oh_timeStamp c \<and> oh_timeStamp c < 0 + bd_timeSteps data * 60"
    using time_steps_cover_data [OF demo_config_created l(1) demo_directory_epoch _ _ l(2) c(1)] l(4,5)
    by simp
  with l c show ?thesis by force
qed

text \<open>A file in descending order of time: all rows but the first are dropped.\<close>

lemma descending_file_dropped:
  "read_csv_lines ohlcv_from_csv_row (ohlcv_data_selector 60) (- 1)
     [''240,1,1,1,1,1'', ''180,1,1,1,1,1'', ''120,2,2,2,2,1'', ''60,3,3,3,3,1''] =
   Inr [\<lparr>oh_timeStamp = 240, oh_open = Fin 1, oh_high = Fin 1, oh_low = Fin 1, oh_close = Fin 1, oh_volume = Fin 1\<rparr>]"
  by code_simp

section \<open>Subscriptions and notification\<close>

lemma sub_hash_ok: "sb_channel u \<noteq> OHLCV \<or> sb_parameter u \<noteq> None \<Longrightarrow> sub_hash u = Inr ()"
  by (auto simp: sub_hash_def get_ohlcv_interval_def)

lemma same_sub_iff: "sub_hash u = Inr () \<Longrightarrow> same_sub t u \<longleftrightarrow>
    sb_channel t = sb_channel u \<and> sb_pairItem t = sb_pairItem u \<and>
    (sb_channel u = OHLCV \<longrightarrow> sb_parameter t = sb_parameter u)"
  by (cases "sb_parameter t"; cases "sb_parameter u")
     (auto simp: same_sub_def sub_hash_def subscription_equal_def get_ohlcv_interval_def)

text \<open>Subscribing adds the subscriptions of its pairs, unsubscribing takes them away.\<close>

lemma subscribe_member:
  assumes "sb_channel sub \<noteq> OHLCV \<or> sb_parameter sub \<noteq> None" "sub_hash u = Inr ()"
  shows "\<exists>t. bs_subscribe sub s = (Inr (), t) \<and>
    ((\<exists>x \<in> set (bs_subscriptions t). same_sub x u) \<longleftrightarrow>
     (\<exists>x \<in> set (bs_subscriptions s). same_sub x u) \<or>
     (\<exists>p \<in> set (sb_pairItem sub). same_sub (unique_sub sub p) u))"
proof -
  have h: "sub_hash (unique_sub sub p) = Inr ()" for p
    using assms(1) by (intro sub_hash_ok) (simp add: unique_sub_def)
  define add where "add = (\<lambda>p (s :: 'a backtest_stream).
    if \<exists>t \<in> set (bs_subscriptions s). same_sub t (unique_sub sub p) then s
    else s\<lparr>bs_subscriptions := bs_subscriptions s @ [unique_sub sub p]\<rparr>)"
  have run: "bs_subscribe sub s = (Inr (), fold add (sb_pairItem sub) s)"
    by (simp only: bs_subscribe_def h act_res_Inr_seq act_iter_modify add_def)
  have "(\<exists>x \<in> set (bs_subscriptions (add p s)). same_sub x u) \<longleftrightarrow>
      (\<exists>x \<in> set (bs_subscriptions s). same_sub x u) \<or> same_sub (unique_sub sub p) u" for p s
    using same_sub_iff [OF h, of _ p] same_sub_iff [OF assms(2)] by (auto simp: add_def)
  then have "(\<exists>x \<in> set (bs_subscriptions (fold add ps s)). same_sub x u) \<longleftrightarrow>
      (\<exists>x \<in> set (bs_subscriptions s). same_sub x u) \<or> (\<exists>p \<in> set ps. same_sub (unique_sub sub p) u)" for ps
    by (induction ps arbitrary: s) auto
  with run show ?thesis by blast
qed

lemma unsubscribe_member:
  assumes "sb_channel sub \<noteq> OHLCV \<or> sb_parameter sub \<noteq> None" "sub_hash u = Inr ()"
  shows "\<exists>t. bs_unsubscribe sub s = (Inr (), t) \<and>
    ((\<exists>x \<in> set (bs_subscriptions t). same_sub x u) \<longleftrightarrow>
     (\<exists>x \<in> set (bs_subscriptions s). same_sub x u) \<and>
     \<not> (\<exists>p \<in> set (sb_pairItem sub). same_sub (unique_sub sub p) u))"
proof -
  have h: "sub_hash (unique_sub sub p) = Inr ()" for p
    using assms(1) by (intro sub_hash_ok) (simp add: unique_sub_def)
  define del where "del = (\<lambda>p (s :: 'a backtest_stream).
    s\<lparr>bs_subscriptions := filter (\<lambda>t. \<not> same_sub t (unique_sub sub p)) (bs_subscriptions s)\<rparr>)"
  have run: "bs_unsubscribe sub s = (Inr (), fold del (sb_pairItem sub) s)"
    by (simp only: bs_unsubscribe_def h act_res_Inr_seq act_iter_modify del_def)
  have "(\<exists>x \<in> set (bs_subscriptions (del p s)). same_sub x u) \<longleftrightarrow>
      (\<exists>x \<in> set (bs_subscriptions s). same_sub x u) \<and> \<not> same_sub (unique_sub sub p) u" for p s
    using same_sub_iff [OF h, of _ p] same_sub_iff [OF assms(2)] by (auto simp: del_def)
  then have "(\<exists>x \<in> set (bs_subscriptions (fold del ps s)). same_sub x u) \<longleftrightarrow>
      (\<exists>x \<in> set (bs_subscriptions s). same_sub x u) \<and> \<not> (\<exists>p \<in> set ps. same_sub (unique_sub sub p) u)" for ps
    by (induction ps arbitrary: s) auto
  with run show ?thesis by blast
qed

text \<open>
  A notified order book subscription needs a candle at the data time: before the first one the
  answer has no entries and its front is read.
\<close>

lemma notify_order_book_undefined:
  "fst (bs_notify (\<lambda>s. s) (\<lambda>w _. w) (\<lambda>_ _. act_return ())
      (create_backtest_stream (demo_data [demo_candle 60 9] 0)
        \<lparr>bs_orderBookUpdateHandlers := [()],
         bs_subscriptions := [create_order_book_sub demo_pair]\<rparr>)) =
    Inl (Undefined_behaviour ''front of an empty vector'')"
  by code_simp

text \<open>
  A handler that subscribes to another pair while it is notified changes the set the loop runs
  over. Placing an order on a pair that is not subscribed does so.
\<close>

lemma notify_subscribing_handler_undefined:
  "fst (bs_notify (\<lambda>s. s) (\<lambda>w _. w) (\<lambda>_ _. bs_subscribe (create_trade_sub [\<lparr>tp_asset = ''C'', tp_priceUnit = ''B''\<rparr>]))
      (create_backtest_stream (demo_data [demo_candle 60 9] 60)
        \<lparr>bs_tradeUpdateHandlers := [()], bs_subscriptions := [create_trade_sub demo_pair]\<rparr>)) =
    Inl (Undefined_behaviour ''iterator of a set that was changed'')"
  by code_simp

end
