(* ===== verification/Configs.thy ===== *)
theory Configs
  imports Json BackTesting
begin

text \<open>
  The configuration files: \<^verbatim>\<open>common/file/config_file_reader.h\<close>, the configuration of the
  runner (\<^verbatim>\<open>runner/runner_config.cpp\<close>), of the back test, of the paper account and of the
  exchanges, and how each is read from and written to a document. The files are a map from
  names to contents; the parser and the printer of the JSON library are parameters.
\<close>

section \<open>The runner\<close>

datatype run_mode = LIVE | LIVETEST | BACKTEST | UNKNOWN_MODE

fun run_mode_to_string :: "run_mode \<Rightarrow> string" where
  "run_mode_to_string LIVE = ''live''"
| "run_mode_to_string LIVETEST = ''live_test''"
| "run_mode_to_string BACKTEST = ''back_test''"
| "run_mode_to_string UNKNOWN_MODE = ''unknown''"

definition run_mode_from_string :: "string \<Rightarrow> run_mode" where
  "run_mode_from_string runMode =
     (if runMode = ''live'' then LIVE
      else if runMode = ''live_test'' then LIVETEST
      else if runMode = ''back_test'' then BACKTEST
      else UNKNOWN_MODE)"

record runner_config =
  rc_exchangeIds :: "string list"
  rc_runMode :: run_mode
  rc_websocketTimeout :: int
  rc_httpTimeout :: int
  rc_runInterval :: int
  rc_syncTime :: bool

definition rc_validate :: "runner_config \<Rightarrow> runner_config res" where
  "rc_validate c =
     (if rc_runMode c = UNKNOWN_MODE
      then Inl (Mb_exception ''Run mode not recognized. Options are: live, live_test, back_test'')
      else if rc_runInterval c < 0 then Inr (c\<lparr>rc_runInterval := 0\<rparr>) else Inr c)"

definition create_runner_config ::
    "string list \<Rightarrow> run_mode \<Rightarrow> int \<Rightarrow> int \<Rightarrow> int \<Rightarrow> bool \<Rightarrow> runner_config res" where
  "create_runner_config exchangeIds runMode websocketTimeout httpTimeout runInterval syncTime =
     rc_validate \<lparr>rc_exchangeIds = exchangeIds, rc_runMode = runMode, rc_websocketTimeout = websocketTimeout,
       rc_httpTimeout = httpTimeout, rc_runInterval = runInterval, rc_syncTime = syncTime\<rparr>"

definition default_runner_config :: "runner_config res" where
  "default_runner_config = create_runner_config [] LIVETEST 5000 5000 0 False"

definition runner_config_from_json :: "json \<Rightarrow> runner_config res" where
  "runner_config_from_json json =
     res_bind (member get_string_list json ''exchangeIds'') (\<lambda>exchangeIds.
     res_bind (member get_string json ''runMode'') (\<lambda>runMode.
     res_bind (member get_int json ''websocketTimeout'') (\<lambda>websocketTimeout.
     res_bind (member get_int json ''httpTimeout'') (\<lambda>httpTimeout.
     res_bind (member get_int json ''runInterval'') (\<lambda>runInterval.
     res_bind (member get_bool json ''syncTime'') (\<lambda>syncTime.
     create_runner_config exchangeIds (run_mode_from_string runMode) websocketTimeout httpTimeout
       runInterval syncTime))))))"

definition runner_config_to_json :: "runner_config \<Rightarrow> json" where
  "runner_config_to_json config = json_object
     [(''exchangeIds'', JArray (map JString (rc_exchangeIds config))),
      (''runMode'', JString (run_mode_to_string (rc_runMode config))),
      (''websocketTimeout'', JInt (rc_websocketTimeout config)),
      (''httpTimeout'', JInt (rc_httpTimeout config)),
      (''runInterval'', JInt (rc_runInterval config)),
      (''syncTime'', JBool (rc_syncTime config))]"

section \<open>The back test and the paper account\<close>

definition back_testing_config_from_json :: "json \<Rightarrow> back_testing_config res" where
  "back_testing_config_from_json json =
     res_bind (member get_time json ''startTime'') (\<lambda>startTime.
     res_bind (member get_time json ''endTime'') (\<lambda>endTime.
     res_bind (member get_int json ''stepSize'') (\<lambda>stepSize.
     res_bind (member get_string json ''dataDirectory'') (\<lambda>dataDirectory.
     res_bind (member get_bool json ''dynamicDataLoad'') (\<lambda>dynamicLoad.
     create_back_testing_config startTime endTime stepSize dataDirectory dynamicLoad)))))"

definition back_testing_config_to_json :: "back_testing_config \<Rightarrow> json" where
  "back_testing_config_to_json config = json_object
     [(''startTime'', JInt (bt_startTime config)), (''endTime'', JInt (bt_endTime config)),
      (''stepSize'', JInt (bt_stepSize config)), (''dataDirectory'', JString (bt_dataDirectory config)),
      (''dynamicDataLoad'', JBool (bt_dynamicLoad config))]"

definition paper_trading_config_from_json :: "json \<Rightarrow> paper_trading_config res" where
  "paper_trading_config_from_json json =
     res_bind (member get_double json ''fee'') (\<lambda>fee.
     res_bind (member get_double_map json ''balances'') (\<lambda>balances.
     Inr \<lparr>pc_fee = fee, pc_balances = balances\<rparr>))"

definition paper_trading_config_to_json :: "paper_trading_config \<Rightarrow> json" where
  "paper_trading_config_to_json config = json_object
     [(''fee'', JDouble (pc_fee config)),
      (''balances'', JObject (map (\<lambda>(k, v). (k, JDouble v)) (pc_balances config)))]"

section \<open>The exchanges\<close>

record kraken_config =
  kc_publicKey :: string
  kc_privateKey :: string

definition kraken_config_from_json :: "json \<Rightarrow> kraken_config res" where
  "kraken_config_from_json json =
     res_bind (member get_string json ''publicKey'') (\<lambda>publicKey.
     res_bind (member get_string json ''privateKey'') (\<lambda>privateKey.
     Inr \<lparr>kc_publicKey = publicKey, kc_privateKey = privateKey\<rparr>))"

definition kraken_config_to_json :: "kraken_config \<Rightarrow> json" where
  "kraken_config_to_json config = json_object
     [(''publicKey'', JString (kc_publicKey config)), (''privateKey'', JString (kc_privateKey config))]"

record coinbase_config =
  cc_apiKey :: string
  cc_apiSecret :: string
  cc_apiPassphrase :: string

definition coinbase_config_from_json :: "json \<Rightarrow> coinbase_config res" where
  "coinbase_config_from_json json =
     res_bind (member get_string json ''apiKey'') (\<lambda>apiKey.
     res_bind (member get_string json ''apiSecret'') (\<lambda>apiSecret.
     res_bind (member get_string json ''apiPassphrase'') (\<lambda>apiPassphrase.
     Inr \<lparr>cc_apiKey = apiKey, cc_apiSecret = apiSecret, cc_apiPassphrase = apiPassphrase\<rparr>)))"

definition coinbase_config_to_json :: "coinbase_config \<Rightarrow> json" where
  "coinbase_config_to_json config = json_object
     [(''apiKey'', JString (cc_apiKey config)), (''apiSecret'', JString (cc_apiSecret config)),
      (''apiPassphrase'', JString (cc_apiPassphrase config))]"

record bybit_config =
  yc_apiKey :: string
  yc_apiSecret :: string
  yc_fee :: double

definition bybit_config_from_json :: "json \<Rightarrow> bybit_config res" where
  "bybit_config_from_json json =
     res_bind (member get_string json ''apiKey'') (\<lambda>apiKey.
     res_bind (member get_string json ''apiSecret'') (\<lambda>apiSecret.
     res_bind (member get_double json ''fee'') (\<lambda>fee.
     Inr \<lparr>yc_apiKey = apiKey, yc_apiSecret = apiSecret, yc_fee = fee\<rparr>)))"

definition bybit_config_to_json :: "bybit_config \<Rightarrow> json" where
  "bybit_config_to_json config = json_object
     [(''apiKey'', JString (yc_apiKey config)), (''apiSecret'', JString (yc_apiSecret config)),
      (''fee'', JDouble (yc_fee config))]"

record digifinex_config =
  dc_apiKey :: string
  dc_apiSecret :: string

definition digifinex_config_from_json :: "json \<Rightarrow> digifinex_config res" where
  "digifinex_config_from_json json =
     res_bind (member get_string json ''apiKey'') (\<lambda>apiKey.
     res_bind (member get_string json ''apiSecret'') (\<lambda>apiSecret.
     Inr \<lparr>dc_apiKey = apiKey, dc_apiSecret = apiSecret\<rparr>))"

definition digifinex_config_to_json :: "digifinex_config \<Rightarrow> json" where
  "digifinex_config_to_json config = json_object
     [(''apiKey'', JString (dc_apiKey config)), (''apiSecret'', JString (dc_apiSecret config))]"

record binance_config =
  nc_apiKey :: string
  nc_secretKey :: string

definition binance_config_from_json :: "json \<Rightarrow> binance_config res" where
  "binance_config_from_json json =
     res_bind (member get_string json ''apiKey'') (\<lambda>apiKey.
     res_bind (member get_string json ''secretKey'') (\<lambda>secretKey.
     Inr \<lparr>nc_apiKey = apiKey, nc_secretKey = secretKey\<rparr>))"

definition binance_config_to_json :: "binance_config \<Rightarrow> json" where
  "binance_config_to_json config = json_object
     [(''apiKey'', JString (nc_apiKey config)), (''secretKey'', JString (nc_secretKey config))]"

section \<open>The files\<close>

type_synonym file_system = "string \<rightharpoonup> string"

text \<open>
  A file is opened for appending. The files of the configurations are taken to be writable: the
  code logs a write that fails and goes on with the configuration it has.
\<close>

definition write_to_file :: "string \<Rightarrow> string \<Rightarrow> file_system \<Rightarrow> file_system" where
  "write_to_file path content fs =
     fs(path \<mapsto> (case fs path of None \<Rightarrow> [] | Some old \<Rightarrow> old) @ content)"

definition config_path :: "string \<Rightarrow> string" where
  "config_path name = ''configs/'' @ name @ ''.json''"

definition save_config_file :: "(json \<Rightarrow> string) \<Rightarrow> string \<Rightarrow> json \<Rightarrow> file_system \<Rightarrow> file_system" where
  "save_config_file dump name json fs = write_to_file (config_path name) (dump json) fs"

text \<open>
  An exception other than a \<^verbatim>\<open>validation_exception\<close> is logged, and the default configuration is used.
\<close>

definition load_config_file ::
    "(string \<Rightarrow> json res) \<Rightarrow> (json \<Rightarrow> 'c res) \<Rightarrow> 'c \<Rightarrow> string \<Rightarrow> 'c res" where
  "load_config_file parse from_json dflt content =
     (case from_json_text parse from_json content of
        Inr config \<Rightarrow> Inr config
      | Inl (Validation_exception m) \<Rightarrow> Inl (Validation_exception m)
      | Inl (Undefined_behaviour w) \<Rightarrow> Inl (Undefined_behaviour w)
      | Inl _ \<Rightarrow> Inr dflt)"

definition load_or_create_config ::
    "(string \<Rightarrow> json res) \<Rightarrow> (json \<Rightarrow> string) \<Rightarrow> (json \<Rightarrow> 'c res) \<Rightarrow> ('c \<Rightarrow> json) \<Rightarrow> 'c \<Rightarrow> string \<Rightarrow>
     (file_system, 'c) action" where
  "load_or_create_config parse dump from_json to_json dflt name fs =
     (case fs (config_path name) of
        None \<Rightarrow> (Inr dflt, save_config_file dump name (to_json dflt) fs)
      | Some content \<Rightarrow> (load_config_file parse from_json dflt content, fs))"

section \<open>Round trips\<close>

lemma run_mode_roundtrip: "run_mode_from_string (run_mode_to_string m) = m"
  by (cases m) (simp_all add: run_mode_from_string_def)

definition int32 :: "int \<Rightarrow> bool" where
  "int32 i \<longleftrightarrow> - 2147483648 \<le> i \<and> i < 2147483648"

definition int64 :: "int \<Rightarrow> bool" where
  "int64 i \<longleftrightarrow> - (2 ^ 63) \<le> i \<and> i < 2 ^ 63"

lemma int32_narrow: "int32 i \<Longrightarrow> narrow32 i = i"
  by (simp add: int32_def narrow32_id)

lemma int64_narrow: "int64 i \<Longrightarrow> signed_take_bit 63 i = i"
  by (simp add: int64_def signed_take_bit_int_eq_self)

lemma runner_config_written:
  assumes "create_runner_config ids m w h i sy = Inr config" "int32 w" "int32 h" "int32 i"
  shows "runner_config_from_json (runner_config_to_json config) = Inr config"
proof -
  have "rc_runMode config \<noteq> UNKNOWN_MODE" "\<not> rc_runInterval config < 0"
    "int32 (rc_websocketTimeout config)" "int32 (rc_httpTimeout config)" "int32 (rc_runInterval config)"
    using assms by (auto simp: create_runner_config_def rc_validate_def int32_def split: if_splits)
  then show ?thesis
    by (simp add: runner_config_from_json_def runner_config_to_json_def json_simps run_mode_roundtrip
        int32_narrow create_runner_config_def rc_validate_def)
qed

lemma back_testing_config_written:
  assumes "create_back_testing_config st en step dir dyn = Inr config" "int64 st" "int64 en" "int32 step"
  shows "back_testing_config_from_json (back_testing_config_to_json config) = Inr config"
proof -
  have c: "config = \<lparr>bt_startTime = st, bt_endTime = en, bt_stepSize = step, bt_dataDirectory = dir, bt_dynamicLoad = dyn\<rparr>"
    using assms(1) by (auto simp: create_back_testing_config_def Let_def res_bind_Inr_iff)
  then show ?thesis
    using assms by (simp add: back_testing_config_from_json_def back_testing_config_to_json_def json_simps
        int32_narrow int64_narrow)
qed

lemma to_unordered_map_id: "distinct (map fst m) \<Longrightarrow> to_unordered_map m fst snd = m"
proof -
  have "distinct (map fst (acc @ m)) \<Longrightarrow>
      foldl (\<lambda>m item. emplace (fst item) (snd item) m) acc m = acc @ m" for acc :: "('a \<times> 'b) list"
  proof (induction m arbitrary: acc)
    case (Cons x m)
    then have "fst x \<notin> fst ` set acc" by auto
    then have "emplace (fst x) (snd x) acc = acc @ [x]"
      by (simp add: emplace_def map_of_eq_None_iff)
    with Cons.IH [of "acc @ [x]"] Cons.prems show ?case by simp
  qed simp
  from this [of "[]"] show "distinct (map fst m) \<Longrightarrow> ?thesis" by (simp add: to_unordered_map_def)
qed

lemma paper_trading_config_written:
  "distinct (map fst (pc_balances config)) \<Longrightarrow>
   paper_trading_config_from_json (paper_trading_config_to_json config) = Inr config"
  by (simp add: paper_trading_config_from_json_def paper_trading_config_to_json_def json_simps
      to_unordered_map_id)

lemma exchange_configs_written:
  "kraken_config_from_json (kraken_config_to_json k) = Inr k"
  "coinbase_config_from_json (coinbase_config_to_json c) = Inr c"
  "bybit_config_from_json (bybit_config_to_json y) = Inr y"
  "digifinex_config_from_json (digifinex_config_to_json d) = Inr d"
  "binance_config_from_json (binance_config_to_json n) = Inr n"
  by (simp_all add: kraken_config_from_json_def kraken_config_to_json_def coinbase_config_from_json_def
      coinbase_config_to_json_def bybit_config_from_json_def bybit_config_to_json_def
      digifinex_config_from_json_def digifinex_config_to_json_def binance_config_from_json_def
      binance_config_to_json_def json_simps)

section \<open>A configuration on disk\<close>

text \<open>A kind of configuration: what a well-formed one is, and that it is read as it was written.\<close>

locale config_kind =
  fixes from_json :: "json \<Rightarrow> 'c res" and to_json :: "'c \<Rightarrow> json" and well_formed :: "'c \<Rightarrow> bool"
  assumes written: "well_formed c \<Longrightarrow> from_json (to_json c) = Inr c"
begin

lemma created_then_loaded:
  assumes "parse (dump (to_json dflt)) = Inr (to_json dflt)" "well_formed dflt" "fs (config_path name) = None"
  shows "\<exists>fs'. load_or_create_config parse dump from_json to_json dflt name fs = (Inr dflt, fs') \<and>
    (\<forall>other. load_or_create_config parse dump from_json to_json other name fs' = (Inr dflt, fs'))"
  using assms written [OF assms(2)]
  by (simp add: load_or_create_config_def save_config_file_def write_to_file_def load_config_file_def
      from_json_text_def)

text \<open>
  Saving over a file that is there leaves both documents in it: where the parser takes one
  document only, the configuration is lost and the default is used.
\<close>

lemma saved_twice_lost:
  assumes "fs (config_path name) = Some old" "parse (old @ dump (to_json c)) = Inl (Json_exception m)"
  shows "fst (load_or_create_config parse dump from_json to_json dflt name
    (save_config_file dump name (to_json c) fs)) = Inr dflt"
  using assms
  by (simp add: load_or_create_config_def save_config_file_def write_to_file_def load_config_file_def
      from_json_text_def)

end

definition runner_config_ok :: "runner_config \<Rightarrow> bool" where
  "runner_config_ok c \<longleftrightarrow> rc_validate c = Inr c \<and> int32 (rc_websocketTimeout c) \<and>
     int32 (rc_httpTimeout c) \<and> int32 (rc_runInterval c)"

definition back_testing_config_ok :: "back_testing_config \<Rightarrow> bool" where
  "back_testing_config_ok c \<longleftrightarrow> bt_validate c = Inr () \<and> int64 (bt_startTime c) \<and>
     int64 (bt_endTime c) \<and> int32 (bt_stepSize c)"

interpretation runner_file: config_kind runner_config_from_json runner_config_to_json runner_config_ok
proof unfold_locales
  fix c assume "runner_config_ok c"
  then have "create_runner_config (rc_exchangeIds c) (rc_runMode c) (rc_websocketTimeout c) (rc_httpTimeout c)
      (rc_runInterval c) (rc_syncTime c) = Inr c" "int32 (rc_websocketTimeout c)" "int32 (rc_httpTimeout c)"
      "int32 (rc_runInterval c)"
    by (cases c; simp add: runner_config_ok_def create_runner_config_def)+
  then show "runner_config_from_json (runner_config_to_json c) = Inr c" by (rule runner_config_written)
qed

interpretation back_testing_file:
  config_kind back_testing_config_from_json back_testing_config_to_json back_testing_config_ok
proof unfold_locales
  fix c assume "back_testing_config_ok c"
  then have "create_back_testing_config (bt_startTime c) (bt_endTime c) (bt_stepSize c) (bt_dataDirectory c)
      (bt_dynamicLoad c) = Inr c" "int64 (bt_startTime c)" "int64 (bt_endTime c)" "int32 (bt_stepSize c)"
    by (cases c; simp add: back_testing_config_ok_def create_back_testing_config_def)+
  then show "back_testing_config_from_json (back_testing_config_to_json c) = Inr c"
    by (rule back_testing_config_written)
qed

interpretation paper_trading_file: config_kind paper_trading_config_from_json paper_trading_config_to_json
    "\<lambda>c. distinct (map fst (pc_balances c))"
  by unfold_locales (rule paper_trading_config_written)

interpretation kraken_file: config_kind kraken_config_from_json kraken_config_to_json "\<lambda>_. True"
  by unfold_locales (rule exchange_configs_written)

interpretation coinbase_file: config_kind coinbase_config_from_json coinbase_config_to_json "\<lambda>_. True"
  by unfold_locales (rule exchange_configs_written)

interpretation bybit_file: config_kind bybit_config_from_json bybit_config_to_json "\<lambda>_. True"
  by unfold_locales (rule exchange_configs_written)

interpretation digifinex_file: config_kind digifinex_config_from_json digifinex_config_to_json "\<lambda>_. True"
  by unfold_locales (rule exchange_configs_written)

interpretation binance_file: config_kind binance_config_from_json binance_config_to_json "\<lambda>_. True"
  by unfold_locales (rule exchange_configs_written)

text \<open>
  C32: a back test configuration that passes its own validation is written to a document that
  reads back as it was: the first start writes the file and every later start finds the same
  configuration, whatever its default is then.
\<close>

theorem back_testing_config_roundtrip:
  assumes "create_back_testing_config st en step dir dyn = Inr config" "int64 st" "int64 en" "int32 step"
    and "parse (dump (back_testing_config_to_json config)) = Inr (back_testing_config_to_json config)"
    and "fs (config_path name) = None"
  shows "\<exists>fs'. load_or_create_config parse dump back_testing_config_from_json back_testing_config_to_json
        config name fs = (Inr config, fs') \<and>
    (\<forall>other. load_or_create_config parse dump back_testing_config_from_json back_testing_config_to_json
        other name fs' = (Inr config, fs'))"
proof -
  have "back_testing_config_ok config"
    using assms(1-4) by (auto simp: back_testing_config_ok_def create_back_testing_config_def Let_def res_bind_Inr_iff)
  from back_testing_file.created_then_loaded [of parse dump config fs name, OF assms(5) this assms(6)]
  show ?thesis .
qed

theorem back_testing_config_roundtrip_witness:
  "\<exists>fs'. load_or_create_config (\<lambda>_. Inr (back_testing_config_to_json demo_config)) (\<lambda>_. ''{}'')
      back_testing_config_from_json back_testing_config_to_json demo_config ''back_testing'' Map.empty =
    (Inr demo_config, fs')"
  using back_testing_config_roundtrip [OF demo_config_created, of "\<lambda>_. Inr (back_testing_config_to_json demo_config)"
      "\<lambda>_. ''{}''" Map.empty "''back_testing''"]
  by (auto simp: int64_def int32_def)

text \<open>
  A runner file whose run mode is none of the three is refused by the validation, but the
  refusal is not a \<^verbatim>\<open>validation_exception\<close>: it is logged and the program runs
  the default configuration, a live test on all exchanges.
\<close>

lemma unknown_run_mode_runs_live_test:
  assumes "fs (config_path ''runner'') = Some content" "parse content = Inr json"
    and "member get_string_list json ''exchangeIds'' = Inr ids" "member get_string json ''runMode'' = Inr mode"
    and "member get_int json ''websocketTimeout'' = Inr w" "member get_int json ''httpTimeout'' = Inr h"
    and "member get_int json ''runInterval'' = Inr i" "member get_bool json ''syncTime'' = Inr sy"
    and "mode \<notin> {''live'', ''live_test'', ''back_test''}" "default_runner_config = Inr dflt"
  shows "load_or_create_config parse dump runner_config_from_json runner_config_to_json dflt ''runner'' fs =
      (Inr dflt, fs) \<and> rc_runMode dflt = LIVETEST \<and> rc_exchangeIds dflt = []"
proof -
  have "run_mode_from_string mode = UNKNOWN_MODE" using assms(9) by (simp add: run_mode_from_string_def)
  with assms(3-8) obtain m where "runner_config_from_json json = Inl (Mb_exception m)"
    by (simp add: runner_config_from_json_def create_runner_config_def rc_validate_def)
  moreover have "rc_runMode dflt = LIVETEST \<and> rc_exchangeIds dflt = []"
    using assms(10) by (auto simp: default_runner_config_def create_runner_config_def rc_validate_def)
  ultimately show ?thesis
    using assms(1,2) by (auto simp: load_or_create_config_def load_config_file_def from_json_text_def)
qed

definition demo_runner_json :: json where
  "demo_runner_json = json_object [(''exchangeIds'', JArray [JString ''kraken'']), (''runMode'', JString ''Live''),
     (''websocketTimeout'', JInt 5000), (''httpTimeout'', JInt 5000), (''runInterval'', JInt 0),
     (''syncTime'', JBool False)]"

lemma unknown_run_mode_runs_live_test_example:
  "\<exists>dflt. default_runner_config = Inr dflt \<and>
    load_or_create_config (\<lambda>_. Inr demo_runner_json) (\<lambda>_. []) runner_config_from_json runner_config_to_json
      dflt ''runner'' [config_path ''runner'' \<mapsto> ''x''] = (Inr dflt, [config_path ''runner'' \<mapsto> ''x''])"
proof -
  obtain dflt where d: "default_runner_config = Inr dflt"
    by (simp add: default_runner_config_def create_runner_config_def rc_validate_def)
  have "member get_string_list demo_runner_json ''exchangeIds'' = Inr [''kraken'']"
      "member get_string demo_runner_json ''runMode'' = Inr ''Live''"
      "member get_int demo_runner_json ''websocketTimeout'' = Inr 5000"
      "member get_int demo_runner_json ''httpTimeout'' = Inr 5000"
      "member get_int demo_runner_json ''runInterval'' = Inr 0"
      "member get_bool demo_runner_json ''syncTime'' = Inr False" by code_simp+
  note f = unknown_run_mode_runs_live_test [OF _ _ this _ d,
      of "[config_path ''runner'' \<mapsto> ''x'']" "''x''" "\<lambda>_. Inr demo_runner_json" "\<lambda>_. []"]
  have "load_or_create_config (\<lambda>_. Inr demo_runner_json) (\<lambda>_. []) runner_config_from_json runner_config_to_json
      dflt ''runner'' [config_path ''runner'' \<mapsto> ''x''] = (Inr dflt, [config_path ''runner'' \<mapsto> ''x''])"
    using f by simp
  with d show ?thesis by blast
qed

end
