(* ===== verification/Reporting.thy ===== *)
theory Reporting
  imports PaperTrading BackTestData "HOL-Library.Sublist"
begin

text \<open>
  \<^verbatim>\<open>testing/reporting/\<close>: the log of the closed orders of the paper accounts and the report
  of a test. The accounts are shared with the runner and the strategy: the logger knows them by
  their position in the list of the accounts. The clock, the formatting of a local time and the
  content a file has already are parameters. The lemmas show that each closed order is logged
  exactly once, in order, and which assets a report lists.
\<close>

section \<open>Reports\<close>

record asset_report =
  ar_asset :: string
  ar_start :: string
  ar_end :: string
  ar_change :: string
  ar_percentageChange :: string
  ar_annualReturn :: string

type_synonym report_result_list = "(string \<times> string) list"

record test_report =
  tr_elapsedTime :: string
  tr_startTime :: string
  tr_endTime :: string
  tr_tradesCount :: string
  tr_assetReports :: "asset_report list"
  tr_additionalResults :: report_result_list

definition DATE_TIME_FORMAT :: string where
  "DATE_TIME_FORMAT = ''%d-%m-%Y %H:%M:%S''"

definition out_line :: "string list \<Rightarrow> string" where
  "out_line parts = concat parts @ [CHR 0x0A]"

definition indent :: string where
  "indent = ''    ''"

definition generate_report_string :: "test_report \<Rightarrow> string" where
  "generate_report_string report = concat (
     [out_line [''Test Report''],
      out_line [''--------------------''],
      out_line [''Elapsed Time: '', tr_elapsedTime report],
      out_line [''Start Time: '', tr_startTime report],
      out_line [''End Time: '', tr_endTime report],
      out_line [''Total Number of Trades: '', tr_tradesCount report]] @
     map (\<lambda>(resultName, resultValue). out_line [resultName, '': '', resultValue]) (tr_additionalResults report) @
     [out_line [],
      out_line [''Asset Reports''],
      out_line [''--------------------'']] @
     map (\<lambda>assetReport. concat
       [out_line [ar_asset assetReport, '':''],
        out_line [indent, ''Starting Balance: '', ar_start assetReport],
        out_line [indent, ''End Balance: '', ar_end assetReport],
        out_line [indent, ''Change: '', ar_change assetReport],
        out_line [indent, ''Percentage Change: '', ar_percentageChange assetReport],
        out_line [indent, ''Annual Return: '', ar_annualReturn assetReport],
        out_line []]) (tr_assetReports report))"

section \<open>The logger\<close>

record test_logger_exchange_data =
  ed_tradeApi :: nat
  ed_initialBalances :: "(string \<times> double) list"
  ed_closedOrderIndex :: int

record test_logger =
  tl_exchangeData :: "test_logger_exchange_data list"
  tl_tradeFile :: string
  tl_startTime :: time_t

definition create_exchange_data :: "'w paper_trade_api list \<Rightarrow> nat \<Rightarrow> test_logger_exchange_data" where
  "create_exchange_data apis k =
     \<lparr>ed_tradeApi = k, ed_initialBalances = get_balances (apis ! k), ed_closedOrderIndex = 0\<rparr>"

text \<open>
  The file is opened for appending: it keeps what it had. It is taken to be open; into a stream
  that failed to open nothing is written, and nothing else changes.
\<close>

definition create_trades_file :: "string \<Rightarrow> string" where
  "create_trades_file existing = existing @
     csv_to_string \<lparr>row_cells = [''Time Stamp'', ''Order ID'', ''Market'', ''Action'', ''Price'', ''Volume'']\<rparr> @
     [CHR 0x0A]"

definition create_test_logger :: "string \<Rightarrow> time_t \<Rightarrow> 'w paper_trade_api list \<Rightarrow> test_logger" where
  "create_test_logger existing now apis =
     \<lparr>tl_exchangeData = map (create_exchange_data apis) [0..<length apis],
      tl_tradeFile = create_trades_file existing, tl_startTime = now\<rparr>"

definition order_line :: "order_description \<Rightarrow> string" where
  "order_line data = csv_to_string (order_to_csv_row data) @ [CHR 0x0A]"

text \<open>The orders an exchange has closed since the last flush, and its data after it.\<close>

definition new_orders :: "'w paper_trade_api list \<Rightarrow> test_logger_exchange_data \<Rightarrow> order_description list" where
  "new_orders apis ed = drop (nat (ed_closedOrderIndex ed)) (get_closed_orders (apis ! ed_tradeApi ed))"

definition flush_exchange ::
    "'w paper_trade_api list \<Rightarrow> test_logger_exchange_data \<Rightarrow> test_logger_exchange_data" where
  "flush_exchange apis ed =
     (let closedOrders = get_closed_orders (apis ! ed_tradeApi ed) in
      if closedOrders = [] then ed
      else ed\<lparr>ed_closedOrderIndex := max (ed_closedOrderIndex ed) (int (length closedOrders))\<rparr>)"

definition flush_trades :: "'w paper_trade_api list \<Rightarrow> test_logger \<Rightarrow> test_logger" where
  "flush_trades apis logger = logger
     \<lparr>tl_exchangeData := map (flush_exchange apis) (tl_exchangeData logger),
      tl_tradeFile := tl_tradeFile logger @
        concat (map (\<lambda>ed. concat (map order_line (new_orders apis ed))) (tl_exchangeData logger))\<rparr>"

text \<open>\<^verbatim>\<open>balances[asset] += balance\<close> on a map whose new entries start at zero.\<close>

definition add_balance :: "string \<times> double \<Rightarrow> (string \<times> double) list \<Rightarrow> (string \<times> double) list" where
  "add_balance b m = AList.update (fst b) (find_or_default 0 (map_of m) (fst b) + snd b) m"

definition create_asset_report ::
    "time_t \<Rightarrow> (string \<times> double) list \<Rightarrow> (string \<times> double) list \<Rightarrow> string \<Rightarrow> asset_report" where
  "create_asset_report dataTimeRange initialBalances finalBalances asset =
     (let startBalance = find_or_default 0 (map_of initialBalances) asset;
          finalBalance = find_or_default 0 (map_of finalBalances) asset;
          change = finalBalance - startBalance;
          pChange = calculate_percentage_diff startBalance finalBalance;
          years = of_int_d dataTimeRange / of_int_d 31536000;
          (percentageChange, annualReturn) =
            (if deq startBalance 0 then (''N/A'', ''N/A'')
             else (to_string_fixed pChange 2 @ ''%'', to_string_fixed (pChange / years) 2 @ ''%''))
      in \<lparr>ar_asset = asset, ar_start = to_string_fixed startBalance 8, ar_end = to_string_fixed finalBalance 8,
          ar_change = to_string_fixed change 8, ar_percentageChange = percentageChange,
          ar_annualReturn = annualReturn\<rparr>)"

definition create_asset_reports ::
    "time_t \<Rightarrow> 'w paper_trade_api list \<Rightarrow> test_logger_exchange_data list \<Rightarrow> asset_report list" where
  "create_asset_reports dataTimeRange apis exchangeData =
     (let finals = (\<lambda>exchange. get_balances (apis ! ed_tradeApi exchange));
          initialBalances = foldl (\<lambda>m exchange. fold add_balance (ed_initialBalances exchange) m) [] exchangeData;
          finalBalances = foldl (\<lambda>m exchange. fold add_balance (finals exchange) m) [] exchangeData;
          uniqueAssets = to_unordered_set (concat (map (\<lambda>exchange.
            map fst (ed_initialBalances exchange) @ map fst (finals exchange)) exchangeData))
      in map (create_asset_report dataTimeRange initialBalances finalBalances) uniqueAssets)"

definition generate_test_report ::
    "(time_t \<Rightarrow> string \<Rightarrow> string) \<Rightarrow> time_t \<Rightarrow> 'w paper_trade_api list \<Rightarrow> test_logger \<Rightarrow> time_t \<Rightarrow>
     report_result_list \<Rightarrow> test_report" where
  "generate_test_report format_time now apis logger dataTimeRange additionalResults =
     (let endTime = now;
          elapsedTime = endTime - tl_startTime logger;
          range = (if dataTimeRange = 0 then endTime - tl_startTime logger else dataTimeRange);
          numberOfTrades = foldl (\<lambda>i data. narrow32 (i + int (length (get_closed_orders (apis ! ed_tradeApi data)))))
            0 (tl_exchangeData logger)
      in \<lparr>tr_elapsedTime = show_int elapsedTime @ ''s'',
          tr_startTime = format_time (tl_startTime logger) DATE_TIME_FORMAT,
          tr_endTime = format_time endTime DATE_TIME_FORMAT,
          tr_tradesCount = show_int numberOfTrades,
          tr_assetReports = create_asset_reports range apis (tl_exchangeData logger),
          tr_additionalResults = additionalResults\<rparr>)"

definition generate_back_test_report ::
    "(time_t \<Rightarrow> string \<Rightarrow> string) \<Rightarrow> time_t \<Rightarrow> 'w paper_trade_api list \<Rightarrow> back_testing_data \<Rightarrow> test_logger \<Rightarrow>
     report_result_list \<Rightarrow> test_report" where
  "generate_back_test_report format_time now apis backTestingData testLogger strategyResults =
     (let additionalResults =
        [(''Data Start Time'', format_time (bd_startTime backTestingData) DATE_TIME_FORMAT),
         (''Data End Time'', format_time (bd_endTime backTestingData) DATE_TIME_FORMAT),
         (''Step Size'', show_int (bd_stepSize backTestingData)),
         (''Time Steps'', show_int (bd_timeSteps backTestingData))] @ strategyResults
      in generate_test_report format_time now apis testLogger
           (bd_endTime backTestingData - bd_startTime backTestingData) additionalResults)"

section \<open>Closed orders only grow\<close>

definition closed_grow :: "'w paper_trade_api \<Rightarrow> 'w paper_trade_api \<Rightarrow> bool" where
  "closed_grow s t \<longleftrightarrow> prefix (pt_closedOrders s) (pt_closedOrders t)"

lemma closed_grow_refl [intro]: "closed_grow s s" and
  closed_grow_trans [trans]: "closed_grow s t \<Longrightarrow> closed_grow t u \<Longrightarrow> closed_grow s u"
  by (auto simp: closed_grow_def)

lemma closed_grow_core: "pt_core t = pt_core s \<Longrightarrow> closed_grow s t"
  by (simp add: closed_grow_def pt_core_eq)

lemma closed_grow_fill: "try_fill_order ops i s = (r, t) \<Longrightarrow> closed_grow s t"
  by (drule try_fill_cases) (auto simp: closed_grow_def pt_core_eq dest: execute_order_state(5))

lemma closed_grow_loop: "fill_loop ops pair n k s = (r, t) \<Longrightarrow> closed_grow s t"
proof (induction n arbitrary: k s)
  case (Suc n)
  have same: "closed_grow s (set_pair_orders p ids s)" for s :: "'a paper_trade_api" and p ids
    by (simp add: closed_grow_def)
  have fill: "try_fill_order ops i s = (x, u) \<Longrightarrow> closed_grow (set_pair_orders p ids u) t \<Longrightarrow> closed_grow s t"
    for i s x u p ids t using closed_grow_fill closed_grow_trans same by blast
  from Suc.prems show ?case
    by (auto simp: act_simps split: sum.splits prod.splits if_splits
        intro: closed_grow_trans [OF closed_grow_fill] closed_grow_trans [OF same] fill Suc.IH)
qed (auto simp: act_simps)

lemma closed_grow_add: "add_order ops r s = (x, t) \<Longrightarrow> closed_grow s t"
proof -
  assume a: "add_order ops r s = (x, t)"
  have q: "closed_grow s u" if "pt_core u = pt_core (queue_order r s)" for u
    using that by (simp add: closed_grow_def pt_core_eq queue_order_def)
  from add_order_cases [OF a] show ?thesis
    by (auto intro: q closed_grow_trans [OF q closed_grow_fill])
qed

lemma closed_grow_step: "closed_grow s (account_step ops op s)"
proof (cases op)
  case (Add_order r)
  then show ?thesis by (auto intro: closed_grow_add [OF surjective_pairing])
next
  case (Add_order_confirm r)
  obtain x t where a: "add_order ops r s = (x, t)" by fastforce
  obtain l u where l: "on_stream (so_get_last_trade ops (rq_pair r)) t = (l, u)" by fastforce
  from closed_grow_add [OF a] closed_grow_core [OF core_on_stream [OF l]] closed_grow_trans
  have "closed_grow s t" "closed_grow s u" by blast+
  with a l Add_order_confirm show ?thesis
    by (simp add: add_order_confirm_def act_bind_def act_return_def split: sum.splits)
next
  case (Cancel_order i)
  then show ?thesis by (simp add: cancel_order_def act_simps closed_grow_def)
next
  case (Trade_message m)
  then show ?thesis
    by (auto simp: trade_update_handler_def act_simps intro: closed_grow_loop [OF surjective_pairing])
qed

section \<open>What is logged\<close>

text \<open>A test: the accounts work and the runner flushes.\<close>

datatype test_event = Account_event nat account_op | Flush_event

fun test_step ::
    "'w stream_ops \<Rightarrow> test_event \<Rightarrow> 'w paper_trade_api list \<times> test_logger \<Rightarrow>
     'w paper_trade_api list \<times> test_logger" where
  "test_step ops (Account_event k op) (apis, logger) = (apis[k := account_step ops op (apis ! k)], logger)"
| "test_step ops Flush_event (apis, logger) = (apis, flush_trades apis logger)"

text \<open>The rows written so far, each with its exchange.\<close>

type_synonym trade_rows = "(nat \<times> order_description) list"

definition rows_of :: "nat \<Rightarrow> trade_rows \<Rightarrow> order_description list" where
  "rows_of k rows = map snd (filter (\<lambda>r. fst r = k) rows)"

definition log_text :: "trade_rows \<Rightarrow> string" where
  "log_text rows = concat (map (\<lambda>r. order_line (snd r)) rows)"

definition logged :: "string \<Rightarrow> 'w paper_trade_api list \<Rightarrow> test_logger \<Rightarrow> trade_rows \<Rightarrow> bool" where
  "logged header apis logger rows \<longleftrightarrow> tl_tradeFile logger = header @ log_text rows \<and>
     map ed_tradeApi (tl_exchangeData logger) = [0..<length apis] \<and>
     (\<forall>k < length apis. ed_closedOrderIndex (tl_exchangeData logger ! k) = int (length (rows_of k rows)) \<and>
        prefix (rows_of k rows) (pt_closedOrders (apis ! k)))"

lemma logged_ed:
  assumes "logged header apis logger rows" "k < length apis"
  shows "length (tl_exchangeData logger) = length apis" "ed_tradeApi (tl_exchangeData logger ! k) = k"
proof -
  have m: "map ed_tradeApi (tl_exchangeData logger) = [0..<length apis]" using assms(1) by (simp add: logged_def)
  then show l: "length (tl_exchangeData logger) = length apis" by (metis diff_zero length_map length_upt)
  from arg_cong [OF m, of "\<lambda>xs. xs ! k"] assms(2) l show "ed_tradeApi (tl_exchangeData logger ! k) = k" by simp
qed

lemma logged_account:
  assumes "logged header apis logger rows"
  shows "logged header (apis[k := account_step ops op (apis ! k)]) logger rows"
proof (cases "k < length apis")
  case True
  have "prefix (rows_of k rows) (pt_closedOrders (account_step ops op (apis ! k)))"
    using assms True closed_grow_step [of "apis ! k" ops op] prefix_order.order_trans
    unfolding logged_def closed_grow_def by blast
  with assms True show ?thesis by (auto simp: logged_def nth_list_update)
qed (use assms in \<open>simp add: list_update_beyond\<close>)

lemma rows_of_tagged:
  "rows_of k (concat (map (\<lambda>j. map (Pair j) (f j)) [0..<n])) = (if k < n then f k else [])"
proof (induction n)
  case (Suc n)
  have "rows_of k (xs @ map (Pair n) (f n)) = rows_of k xs @ (if k = n then f n else [])" for xs
    by (auto simp: rows_of_def filter_map comp_def)
  with Suc show ?case by simp
qed (simp add: rows_of_def)

lemma concat_of_concats: "concat (map (\<lambda>k. concat (g k)) xs) = concat (concat (map g xs))"
  by (induction xs) simp_all

lemma logged_flush:
  assumes "logged header apis logger rows"
  shows "\<exists>new. logged header apis (flush_trades apis logger) (rows @ new) \<and>
    (\<forall>k < length apis. rows_of k (rows @ new) = pt_closedOrders (apis ! k))"
proof -
  define eds where "eds = tl_exchangeData logger"
  define f where "f = (\<lambda>j. drop (length (rows_of j rows)) (pt_closedOrders (apis ! j)))"
  define new where "new = concat (map (\<lambda>j. map (Pair j) (f j)) [0..<length apis])"
  have ed: "length eds = length apis" using assms by (metis eds_def diff_zero length_map length_upt logged_def)
  have j: "ed_tradeApi (eds ! k) = k" "ed_closedOrderIndex (eds ! k) = int (length (rows_of k rows))"
    "prefix (rows_of k rows) (pt_closedOrders (apis ! k))" if "k < length apis" for k
    using logged_ed [OF assms that] assms that by (simp_all add: logged_def eds_def)
  have eds: "eds = map ((!) eds) [0..<length apis]" by (metis ed map_nth)
  have new_j: "new_orders apis (eds ! k) = f k" if "k < length apis" for k
    using j [OF that] by (simp add: new_orders_def get_closed_orders_def f_def)
  have "map (\<lambda>ed. concat (map order_line (new_orders apis ed))) eds =
      map (\<lambda>k. concat (map order_line (f k))) [0..<length apis]"
    by (subst eds) (simp add: new_j)
  then have written: "tl_tradeFile (flush_trades apis logger) = header @ log_text (rows @ new)"
    using assms by (simp add: flush_trades_def logged_def eds_def [symmetric] log_text_def new_def
        map_concat comp_def concat_of_concats)
  have all: "rows_of k (rows @ new) = pt_closedOrders (apis ! k)" if "k < length apis" for k
  proof -
    have "rows_of k (rows @ new) = rows_of k rows @ f k"
      using rows_of_tagged [of k f "length apis"] that by (simp add: rows_of_def new_def)
    with j(3) [OF that] show ?thesis by (auto simp: f_def prefix_def)
  qed
  have "ed_closedOrderIndex (flush_exchange apis (eds ! k)) = int (length (pt_closedOrders (apis ! k))) \<and>
      ed_tradeApi (flush_exchange apis (eds ! k)) = k" if "k < length apis" for k
    using j [OF that] prefix_length_le [OF j(3) [OF that]]
    by (auto simp: flush_exchange_def get_closed_orders_def Let_def)
  then have "map ed_tradeApi (map (flush_exchange apis) eds) = [0..<length apis]"
    "\<forall>k < length apis. ed_closedOrderIndex (map (flush_exchange apis) eds ! k) = int (length (pt_closedOrders (apis ! k)))"
    using ed by (auto intro!: nth_equalityI)
  with written all show ?thesis
    by (intro exI [of _ new]) (simp add: logged_def flush_trades_def eds_def [symmetric])
qed

lemma logged_create: "logged (create_trades_file existing) apis (create_test_logger existing now apis) []"
  by (simp add: logged_def create_test_logger_def create_exchange_data_def log_text_def rows_of_def
      comp_def map_idI)

lemma logged_run:
  "logged header apis logger rows \<Longrightarrow> fold (test_step ops) events (apis, logger) = (apis', logger') \<Longrightarrow>
    \<exists>new. logged header apis' logger' (rows @ new)"
proof (induction events arbitrary: apis logger rows)
  case (Cons e events)
  show ?case
  proof (cases e)
    case (Account_event k op)
    with Cons.prems(2) Cons.IH [OF logged_account [OF Cons.prems(1)]] show ?thesis by simp
  next
    case Flush_event
    obtain new where "logged header apis (flush_trades apis logger) (rows @ new)"
      using logged_flush [OF Cons.prems(1)] by blast
    from Cons.IH [OF this] Cons.prems(2) Flush_event show ?thesis by auto
  qed
qed (auto intro: exI [of _ "[]"])

text \<open>
  C18: however the accounts work and the runner flushes, the trade log is its heading followed
  by one row for each order closed up to the last flush: those of an account are logged once
  each, in the order they were closed.
\<close>

theorem closed_orders_logged_once:
  assumes "fold (test_step ops) (events @ [Flush_event]) (apis0, create_test_logger existing now apis0) =
    (apis, logger)"
  shows "\<exists>rows. tl_tradeFile logger = create_trades_file existing @ log_text rows \<and>
    (\<forall>k < length apis. rows_of k rows = pt_closedOrders (apis ! k))"
proof -
  obtain apis1 logger1 where e: "fold (test_step ops) events (apis0, create_test_logger existing now apis0) =
      (apis1, logger1)" by fastforce
  with assms have s: "apis = apis1" "logger = flush_trades apis1 logger1" by auto
  from logged_run [OF logged_create e] obtain rows where "logged (create_trades_file existing) apis1 logger1 rows"
    by auto
  from logged_flush [OF this] obtain new where
      "logged (create_trades_file existing) apis logger (rows @ new)"
      "\<forall>k < length apis. rows_of k (rows @ new) = pt_closedOrders (apis ! k)" using s by blast
  then show ?thesis unfolding logged_def by blast
qed

theorem closed_orders_logged_once_witness:
  "let (apis, logger) = fold (test_step demo_ops)
       ([Account_event 0 (Add_order (create_market_order demo_pair BUY (Fin 1)))] @ [Flush_event])
       ([demo_account [] 2], create_test_logger [] 100 [demo_account [] 2])
   in \<exists>rows. tl_tradeFile logger = create_trades_file [] @ log_text rows \<and>
      rows_of 0 rows = pt_closedOrders (apis ! 0)"
proof -
  let ?r = "fold (test_step demo_ops)
       ([Account_event 0 (Add_order (create_market_order demo_pair BUY (Fin 1)))] @ [Flush_event])
       ([demo_account [] 2], create_test_logger [] 100 [demo_account [] 2])"
  obtain apis logger where r: "?r = (apis, logger)" by fastforce
  have "length apis = 1" using arg_cong [OF r, of "\<lambda>x. length (fst x)"] by simp
  with closed_orders_logged_once [OF r] show ?thesis unfolding r by (auto simp del: fold_simps)
qed

section \<open>The assets of a report\<close>

lemma to_unordered_set_props: "set (to_unordered_set xs) = set xs \<and> distinct (to_unordered_set xs)"
proof -
  have "set (foldl (\<lambda>s item. List.insert item s) acc xs) = set acc \<union> set xs \<and>
      (distinct acc \<longrightarrow> distinct (foldl (\<lambda>s item. List.insert item s) acc xs))" for acc
    by (induction xs arbitrary: acc) auto
  from this [of "[]"] show ?thesis by (simp add: to_unordered_set_def)
qed

text \<open>Every asset of a first or a last balance is reported, once.\<close>

lemma reported_assets:
  "distinct (map ar_asset (create_asset_reports timeRange apis eds)) \<and>
   set (map ar_asset (create_asset_reports timeRange apis eds)) =
     (\<Union>ed \<in> set eds. fst ` set (ed_initialBalances ed) \<union> fst ` set (get_balances (apis ! ed_tradeApi ed)))"
proof -
  have "map (ar_asset \<circ> create_asset_report timeRange i f) xs = xs" for i f xs
    by (intro map_idI) (simp add: create_asset_report_def Let_def case_prod_beta)
  then have "map ar_asset (create_asset_reports timeRange apis eds) = to_unordered_set (concat (map (\<lambda>ed.
      map fst (ed_initialBalances ed) @ map fst (get_balances (apis ! ed_tradeApi ed))) eds))"
    by (simp add: create_asset_reports_def Let_def)
  then show ?thesis by (simp only: to_unordered_set_props) auto
qed

end
