(* ===== verification/Runner.thy ===== *)
theory Runner
  imports Configs Reporting
begin

text \<open>
  \<^verbatim>\<open>runner/\<close> and \<^verbatim>\<open>exchanges/exchange.cpp\<close>: which exchanges are
  created, the runs of the three modes, and the helpers an exchange shares. The strategy is the
  user's code: it is a parameter that works on the accounts and on a state of its own. A back
  test is composed of the replayed stream, the paper account that listens to it, the strategy
  and the logger; the lemmas show what moves the data time, what a run has logged at its end, and
  the failures that end it early.
\<close>

section \<open>Exchanges\<close>

datatype exchange_kind = Kraken_api | Coinbase_api | Bybit_api | Digifinex_api | Binance_api

definition exchange_ids_all :: "string list" where
  "exchange_ids_all = [''kraken'', ''coinbase'', ''bybit'', ''digifinex'', ''binance'']"

definition create_api_from_id :: "string \<Rightarrow> exchange_kind option" where
  "create_api_from_id identifier =
     (if identifier = ''kraken'' then Some Kraken_api
      else if identifier = ''coinbase'' then Some Coinbase_api
      else if identifier = ''bybit'' then Some Bybit_api
      else if identifier = ''digifinex'' then Some Digifinex_api
      else if identifier = ''binance'' then Some Binance_api
      else None)"

text \<open>Creating an exchange reads its configuration and asks for its status: either may throw.\<close>

fun create_exchanges ::
    "(exchange_kind \<Rightarrow> unit res) \<Rightarrow> (exchange_kind \<Rightarrow> exchange_status res) \<Rightarrow> string list \<Rightarrow>
     exchange_kind list res" where
  "create_exchanges create status [] = Inr []"
| "create_exchanges create status (exchangeId # exchangeIds) =
     (case create_api_from_id exchangeId of
        None \<Rightarrow> create_exchanges create status exchangeIds
      | Some api \<Rightarrow> res_bind (create api) (\<lambda>_. res_bind (status api) (\<lambda>_.
          res_map ((#) api) (create_exchanges create status exchangeIds))))"

definition create_exchange_apis ::
    "(exchange_kind \<Rightarrow> unit res) \<Rightarrow> (exchange_kind \<Rightarrow> exchange_status res) \<Rightarrow> runner_config \<Rightarrow>
     exchange_kind list res" where
  "create_exchange_apis create status runnerConfig =
     create_exchanges create status
       (if rc_exchangeIds runnerConfig = [] then exchange_ids_all else rc_exchangeIds runnerConfig)"

text \<open>The stream of an exchange is connected when it is asked for first.\<close>

record 'w exchange =
  ex_websocketStream :: 'w
  ex_websocketConnected :: bool

definition get_websocket_stream ::
    "('w \<Rightarrow> ws_connection_status res) \<Rightarrow> ('w, unit) action \<Rightarrow> ('w exchange, 'w) action" where
  "get_websocket_stream status reset =
     act_bind (act_read ex_websocketConnected) (\<lambda>connected.
     act_seq (if connected then act_return () else
        act_bind (act_res (\<lambda>s. status (ex_websocketStream s))) (\<lambda>st.
        act_seq (if st = WS_CLOSED then in_state ex_websocketStream (\<lambda>w s. s\<lparr>ex_websocketStream := w\<rparr>) reset
                 else act_return ())
          (act_modify (\<lambda>s. s\<lparr>ex_websocketConnected := True\<rparr>))))
     (act_read ex_websocketStream))"

fun act_traverse :: "('a \<Rightarrow> ('s, 'b) action) \<Rightarrow> 'a list \<Rightarrow> ('s, 'b list) action" where
  "act_traverse f [] = act_return []"
| "act_traverse f (x # xs) = act_bind (f x) (\<lambda>y. act_bind (act_traverse f xs) (\<lambda>ys. act_return (y # ys)))"

definition pairs_to_map :: "(tradable_pair \<Rightarrow> ('s, 'v) action) \<Rightarrow> tradable_pair list \<Rightarrow> ('s, (tradable_pair \<times> 'v) list) action" where
  "pairs_to_map f pairs =
     act_bind (act_traverse (\<lambda>pair. act_bind (f pair) (\<lambda>v. act_return (pair, v))) pairs)
       (\<lambda>ps. act_return (to_unordered_map ps fst snd))"

definition get_prices :: "(tradable_pair \<Rightarrow> ('s, double) action) \<Rightarrow> tradable_pair list \<Rightarrow> ('s, (tradable_pair \<times> double) list) action" where
  "get_prices price pairs = pairs_to_map price pairs"

definition get_order_books ::
    "(tradable_pair \<Rightarrow> int \<Rightarrow> ('s, order_book_state) action) \<Rightarrow> tradable_pair list \<Rightarrow> int \<Rightarrow>
     ('s, (tradable_pair \<times> order_book_state) list) action" where
  "get_order_books order_book pairs depth = pairs_to_map (\<lambda>pair. order_book pair depth) pairs"

definition trade_api_add_order_confirm :: "order_request \<Rightarrow> order_confirmation res" where
  "trade_api_add_order_confirm description =
     Inl (Not_implemented_exception ''Function: 'exchange::add_order_confirm' not implemented'')"

definition get_balance :: "(string \<times> double) list res \<Rightarrow> string \<Rightarrow> double res" where
  "get_balance balances tickerId = res_map (\<lambda>m. find_or_default 0 (map_of m) (c_str tickerId)) balances"

section \<open>Results and retries\<close>

datatype 'v result = Success 'v | Fail string

fun result_value :: "'v result \<Rightarrow> 'v res" where
  "result_value (Success v) = Inr v"
| "result_value (Fail e) = Inl (Undefined_behaviour ''assert'')"

text \<open>
  \<^verbatim>\<open>retry_on_fail\<close>: the action is run at most one time more than there are retries;
  an exception of the action is not caught.
\<close>

fun retry_loop :: "('s, 'r) action \<Rightarrow> ('r \<Rightarrow> 'v result) \<Rightarrow> nat \<Rightarrow> ('s, 'v) action" where
  "retry_loop act toResult 0 s = (Inl (Mb_exception ''Max number of retries exceeded''), s)"
| "retry_loop act toResult (Suc n) s =
     act_bind act (\<lambda>value. case toResult value of
       Success v \<Rightarrow> act_return v
     | Fail _ \<Rightarrow> retry_loop act toResult n) s"

definition retry_on_fail :: "('s, 'r) action \<Rightarrow> ('r \<Rightarrow> 'v result) \<Rightarrow> int \<Rightarrow> ('s, 'v) action" where
  "retry_on_fail act toResult maxRetries = retry_loop act toResult (nat (maxRetries + 1))"

record http_response =
  hr_responseCode :: int
  hr_message :: string

definition send_http_request :: "http_response res \<Rightarrow> (string \<Rightarrow> 'v result res) \<Rightarrow> 'v res" where
  "send_http_request send reader =
     res_bind send (\<lambda>response.
     if hr_responseCode response \<noteq> 200 then Inl (Mb_exception (hr_message response))
     else res_bind (reader (hr_message response)) (\<lambda>r.
       case r of Success v \<Rightarrow> Inr v | Fail e \<Rightarrow> Inl (Mb_exception e)))"

text \<open>
  The names of the results are those of the exchange: one that is not the name of a pair that
  was asked for throws.
\<close>

definition create_pair_result_map ::
    "tradable_pair list \<Rightarrow> (string \<times> 'v) list \<Rightarrow> (tradable_pair \<times> 'v) list res" where
  "create_pair_result_map pairs namedResults =
     (let pairLookup = to_unordered_map pairs pair_name (\<lambda>p. p) in
      res_map (\<lambda>ps. to_unordered_map ps fst snd)
        (res_traverse (\<lambda>(name, value). case map_of pairLookup name of
             None \<Rightarrow> Inl (Out_of_range ''unordered_map::at'')
           | Some pair \<Rightarrow> Inr (pair, value)) namedResults))"

section \<open>Catching\<close>

fun is_mb_exception :: "exn \<Rightarrow> bool" where
  "is_mb_exception (Mb_exception _) = True"
| "is_mb_exception (Validation_exception _) = True"
| "is_mb_exception _ = False"

fun is_undefined :: "exn \<Rightarrow> bool" where
  "is_undefined (Undefined_behaviour _) = True"
| "is_undefined _ = False"

definition catch_mb :: "('s, unit) action \<Rightarrow> ('s, unit) action" where
  "catch_mb m s = (case m s of
       (Inl e, t) \<Rightarrow> (if is_mb_exception e then (Inr (), t) else (Inl e, t))
     | (Inr u, t) \<Rightarrow> (Inr u, t))"

section \<open>A back test\<close>

datatype 'h test_handler = Account_handler | Strategy_handler 'h

type_synonym 'h bt_account = "'h test_handler backtest_stream paper_trade_api"

text \<open>The account registers its handler of trades with the stream it is given.\<close>

definition back_test_account :: "paper_trading_config \<Rightarrow> back_testing_data \<Rightarrow> 'h bt_account res" where
  "back_test_account config data = create_paper_trade_api config
     ((create_backtest_stream data)\<lparr>bs_tradeUpdateHandlers := [Account_handler]\<rparr>)"

definition bt_create_exchanges ::
    "data_directory \<Rightarrow> back_testing_config \<Rightarrow> paper_trading_config \<Rightarrow> 'h bt_account res" where
  "bt_create_exchanges directory config paperConfig =
     res_bind (load_back_testing_data directory config) (back_test_account paperConfig)"

text \<open>
  The account, the state of the strategy, and the log. The strategy and its handlers do not
  reach the log.
\<close>

type_synonym ('h, 'x) bt_state = "('h bt_account \<times> 'x) \<times> test_logger"

type_synonym ('h, 'x) strategy_action = "('h bt_account \<times> 'x, unit) action"

definition with_strategy :: "('h, 'x) strategy_action \<Rightarrow> (('h, 'x) bt_state, unit) action" where
  "with_strategy = in_state fst (\<lambda>w s. (w, snd s))"

fun call_handler ::
    "('h \<Rightarrow> update_message \<Rightarrow> ('h, 'x) strategy_action) \<Rightarrow> 'h test_handler \<Rightarrow> update_message \<Rightarrow>
     ('h, 'x) strategy_action" where
  "call_handler strategy_handler Account_handler (Trade_update_message m) =
     in_state fst (\<lambda>w s. (w, snd s)) (trade_update_handler backtest_stream_ops m)"
| "call_handler strategy_handler Account_handler _ = act_return ()"
| "call_handler strategy_handler (Strategy_handler h) m = strategy_handler h m"

definition account_notify ::
    "('h \<Rightarrow> update_message \<Rightarrow> ('h, 'x) strategy_action) \<Rightarrow> ('h, 'x) strategy_action" where
  "account_notify strategy_handler =
     bs_notify (\<lambda>s. pt_stream (fst s)) (\<lambda>w s. ((fst s)\<lparr>pt_stream := w\<rparr>, snd s))
       (call_handler strategy_handler)"

definition account_increment :: "('h, 'x) strategy_action" where
  "account_increment = in_state fst (\<lambda>w s. (w, snd s)) (on_stream (on_data bd_increment))"

definition bt_flush :: "(('h, 'x) bt_state, unit) action" where
  "bt_flush = act_modify (\<lambda>s. (fst s, flush_trades [fst (fst s)] (snd s)))"

text \<open>\<^verbatim>\<open>int percentageComplete = ...\<close> converts a double: a NaN is undefined behaviour.\<close>

definition percentage_complete :: "int \<Rightarrow> int \<Rightarrow> int res" where
  "percentage_complete timeSteps i =
     truncate_to 32 (calculate_percentage_proportion_int 1 timeSteps (i + 1))"

definition bt_iteration ::
    "('h \<Rightarrow> update_message \<Rightarrow> ('h, 'x) strategy_action) \<Rightarrow> ('h, 'x) strategy_action \<Rightarrow>
     (('h, 'x) bt_state, unit) action" where
  "bt_iteration strategy_handler run_iteration =
     act_seq (with_strategy (account_notify strategy_handler))
    (act_seq (catch_mb (act_seq (with_strategy run_iteration) bt_flush))
     (with_strategy account_increment))"

fun bt_loop ::
    "('h \<Rightarrow> update_message \<Rightarrow> ('h, 'x) strategy_action) \<Rightarrow> ('h, 'x) strategy_action \<Rightarrow>
     int \<Rightarrow> nat \<Rightarrow> int \<Rightarrow> (('h, 'x) bt_state, unit) action" where
  "bt_loop strategy_handler run_iteration timeSteps 0 i = act_return ()"
| "bt_loop strategy_handler run_iteration timeSteps (Suc n) i =
     act_bind (act_res (\<lambda>_. percentage_complete timeSteps i)) (\<lambda>percentageComplete.
     act_seq (bt_iteration strategy_handler run_iteration)
       (bt_loop strategy_handler run_iteration timeSteps n (i + 1)))"

definition bt_run ::
    "('h \<Rightarrow> update_message \<Rightarrow> ('h, 'x) strategy_action) \<Rightarrow> ('h, 'x) strategy_action \<Rightarrow>
     ('x \<Rightarrow> report_result_list) \<Rightarrow> (time_t \<Rightarrow> string \<Rightarrow> string) \<Rightarrow> time_t \<Rightarrow> time_t \<Rightarrow>
     'h bt_account \<times> 'x \<Rightarrow> test_report res \<times> ('h, 'x) bt_state" where
  "bt_run strategy_handler run_iteration get_test_results format_time started ended s =
     act_bind (act_read (\<lambda>s. bd_timeSteps (bs_data (pt_stream (fst (fst s)))))) (\<lambda>timeSteps.
     act_seq (bt_loop strategy_handler run_iteration timeSteps (nat timeSteps) 0)
     (act_read (\<lambda>s. generate_back_test_report format_time ended [fst (fst s)]
        (bs_data (pt_stream (fst (fst s)))) (snd s) (get_test_results (snd (fst s))))))
     (s, create_test_logger [] started [fst s])"

section \<open>A live test\<close>

text \<open>
  The loop ends when the thread that waits for a key has been seen to stop it: \<open>n\<close> is the
  number of iterations until then. Between two iterations the streams deliver to the accounts:
  such deliveries are part of what an iteration of the strategy may do.
\<close>

type_synonym ('w, 'x) live_state = "('w paper_trade_api list \<times> 'x) \<times> test_logger"

definition live_flush :: "(('w, 'x) live_state, unit) action" where
  "live_flush = act_modify (\<lambda>s. (fst s, flush_trades (fst (fst s)) (snd s)))"

fun live_test_loop :: "('w paper_trade_api list \<times> 'x, unit) action \<Rightarrow> nat \<Rightarrow> (('w, 'x) live_state, unit) action" where
  "live_test_loop run_iteration 0 = act_return ()"
| "live_test_loop run_iteration (Suc n) =
     act_seq (catch_mb (act_seq (in_state fst (\<lambda>w s. (w, snd s)) run_iteration) live_flush))
       (live_test_loop run_iteration n)"

text \<open>
  An exception that leaves the loop destroys the thread that waits for the key before it has been
  joined: the process is terminated, whoever would catch the exception.
\<close>

definition while_thread_runs :: "('s, 'a) action \<Rightarrow> ('s, 'a) action" where
  "while_thread_runs m s = (case m s of
       (Inl e, t) \<Rightarrow> (Inl (if is_undefined e then e else Undefined_behaviour ''std::terminate''), t)
     | (Inr a, t) \<Rightarrow> (Inr a, t))"

definition live_test_run ::
    "('w paper_trade_api list \<times> 'x, unit) action \<Rightarrow> nat \<Rightarrow> ('x \<Rightarrow> report_result_list) \<Rightarrow>
     (time_t \<Rightarrow> string \<Rightarrow> string) \<Rightarrow> time_t \<Rightarrow> time_t \<Rightarrow> 'w paper_trade_api list \<times> 'x \<Rightarrow>
     test_report res \<times> ('w, 'x) live_state" where
  "live_test_run run_iteration n get_test_results format_time started ended s =
     act_seq (while_thread_runs (live_test_loop run_iteration n))
    (act_seq live_flush
     (act_read (\<lambda>s. generate_test_report format_time ended (fst (fst s)) (snd s) 0
        (get_test_results (snd (fst s))))))
     (s, create_test_logger [] started (fst s))"

text \<open>A live run never ends by itself: these are its first \<open>n\<close> iterations.\<close>

fun live_run :: "('s, unit) action \<Rightarrow> nat \<Rightarrow> ('s, unit) action" where
  "live_run run_iteration 0 = act_return ()"
| "live_run run_iteration (Suc n) = act_seq (catch_mb run_iteration) (live_run run_iteration n)"

section \<open>The data time\<close>

definition data_clock :: "back_testing_data \<Rightarrow> time_t \<times> int \<times> int" where
  "data_clock d = (bd_dataTime d, bd_stepSize d, bd_timeSteps d)"

abbreviation stream_clock :: "'h backtest_stream \<Rightarrow> time_t \<times> int \<times> int" where
  "stream_clock w \<equiv> data_clock (bs_data w)"

abbreviation account_clock :: "'h bt_account \<times> 'x \<Rightarrow> time_t \<times> int \<times> int" where
  "account_clock s \<equiv> stream_clock (pt_stream (fst s))"

lemma keeps_load [keeps]: "act_keeps data_clock (get_or_load_data pair)"
  by (auto simp: act_keeps_def get_or_load_data_def data_clock_def split: option.split sum.split)

lemma keeps_find [keeps]: "act_keeps data_clock (find_candle data pair)"
  by (auto simp: act_keeps_def find_candle_def data_clock_def split: sum.split prod.split)

lemma keeps_data [keeps]:
  "act_keeps data_clock (bd_get_trade pair)" "act_keeps data_clock (bd_get_ohlcv pair interval count)"
  "act_keeps data_clock (bd_get_order_book pair depth)"
  by (auto simp: bd_get_trade_def bd_get_ohlcv_def bd_get_order_book_def Let_def intro!: keeps split: option.split)

lemma keeps_on_data: "act_keeps data_clock m \<Longrightarrow> act_keeps stream_clock (on_data m)"
  by (auto simp: act_keeps_def on_data_def split: prod.split) (metis snd_conv)

lemma keeps_bs_get_last_trade: "act_keeps stream_clock (bs_get_last_trade p)"
  by (simp add: bs_get_last_trade_def keeps_on_data keeps_data)

lemma keeps_try_fill: "act_keeps (\<lambda>s. stream_clock (pt_stream s)) (try_fill_order backtest_stream_ops i)"
proof -
  have "stream_clock (pt_stream t) = stream_clock (pt_stream s)"
    if "try_fill_order backtest_stream_ops i s = (r, t)" for s r t
    using try_fill_stream [OF that] act_keepsD [OF keeps_bs_get_last_trade]
    by (auto simp: backtest_stream_ops_def)
  then show ?thesis unfolding act_keeps_def by (metis prod.collapse)
qed

lemma keeps_fill_loop: "act_keeps (\<lambda>s. stream_clock (pt_stream s)) (fill_loop backtest_stream_ops pair n k)"
proof (induction n arbitrary: k)
  case 0
  show ?case by (simp add: act_keeps_def)
next
  case (Suc n)
  show ?case unfolding ext [OF fill_loop.simps(2)]
    by (auto intro!: keeps Suc keeps_try_fill keeps_modify simp: set_pair_orders_def)
qed

lemma keeps_trade_handler: "act_keeps (\<lambda>s. stream_clock (pt_stream s)) (trade_update_handler backtest_stream_ops m)"
  unfolding trade_update_handler_def by (intro keeps keeps_fill_loop)

lemma keeps_in_state:
  assumes "act_keeps f m" "\<And>s w. f (get (put w s)) = f w"
  shows "act_keeps (\<lambda>s. f (get s)) (in_state get put m)"
proof -
  have "f (get (snd (in_state get put m s))) = f (get s)" for s
    using assms act_keepsD [OF assms(1), of "get s"] by (cases "m (get s)") (simp add: in_state_def)
  then show ?thesis by (simp add: act_keeps_def)
qed

abbreviation run_clock :: "('h, 'x) bt_state \<Rightarrow> time_t \<times> int \<times> int" where
  "run_clock s \<equiv> account_clock (fst s)"

lemma increment_clock:
  "with_strategy account_increment s = (Inr (), t) \<Longrightarrow>
    run_clock t = (case run_clock s of (time, step, n) \<Rightarrow> (time + step, step, n))"
  by (auto simp: with_strategy_def account_increment_def in_state_def on_stream_def on_data_def bd_increment_def
      act_simps data_clock_def)

lemma increment_returns: "fst (with_strategy account_increment s) = Inr ()"
  by (simp add: with_strategy_def account_increment_def in_state_def on_stream_def on_data_def bd_increment_def
      act_simps)

definition demo_run_data :: "back_testing_data" where
  "demo_run_data = create_back_testing_data [demo_pair] [demo_pair \<mapsto> [demo_candle 0 5, demo_candle 60 9, demo_candle 120 7]]
     0 120 60 3 None"

definition demo_run_account :: "unit bt_account res" where
  "demo_run_account = back_test_account \<lparr>pc_fee = 0, pc_balances = []\<rparr> demo_run_data"

section \<open>Runs that end early\<close>

text \<open>The first notification of a step, for a trade subscription and the account's own handler.\<close>

lemma notify_account_throws:
  assumes "bs_subscriptions (pt_stream account) = create_trade_sub pair # subs"
    and "bs_tradeUpdateHandlers (pt_stream account) = Account_handler # handlers"
    and "bs_get_last_trade pair (pt_stream account) = (Inr trade, w)"
    and "trade_update_handler backtest_stream_ops \<lparr>tm_pair = pair, tm_trade = trade\<rparr> (account\<lparr>pt_stream := w\<rparr>) =
      (Inl e, account')"
  shows "account_notify strategy_handler (account, x) = (Inl e, (account', x))"
proof -
  have h: "bs_tradeUpdateHandlers w = Account_handler # handlers"
    using assms(2,3) by (auto simp: bs_get_last_trade_def on_data_def split: prod.splits)
  have g: "on_data (bd_get_trade pair) (pt_stream account) = (Inr trade, w)"
    using assms(3) by (simp add: bs_get_last_trade_def)
  show ?thesis
    by (simp add: account_notify_def bs_notify_def act_simps assms(1,2) create_trade_sub_def notify_one_def
        Let_def in_state_def g h fire_handlers_def assms(4))
qed

text \<open>
  An order that cannot be paid ends a back test. Where it waits first in the queue of the
  first pair that is notified, the next time step throws out of the notification, before the
  strategy is asked and outside the catch: the run ends there, and with it its report.
\<close>

lemma unfunded_order_ends_back_test:
  assumes "pt_inv account" "pt_openOrdersByPair account pair = orderId # behind"
    and "map_of (pt_openOrders account) orderId = Some request" "rq_orderType request = MARKET"
    and "rq_pair request = pair"
    and "bs_subscriptions (pt_stream account) = create_trade_sub pair # subs"
    and "bs_tradeUpdateHandlers (pt_stream account) = Account_handler # handlers"
    and "bs_get_last_trade pair (pt_stream account) = (Inr trade, w)"
    and "bs_get_last_trade pair w = (Inr trade, w')" "\<not> deq (tu_price trade) 0"
    and "order_legs (pt_fee account) request (tu_price trade) = ((g, gv), (a, sv))"
    and "to_integer_volume gv = Inr G" "to_integer_volume sv = Inr S" "\<not> has_sufficient_funds account a S"
    and "percentage_complete timeSteps i = Inr percentage"
  shows "bt_loop strategy_handler run_iteration timeSteps (Suc n) i ((account, x), logger) =
    (Inl (Mb_exception (''Insufficient funds ('' @ a @ '')'')), ((account\<lparr>pt_stream := w'\<rparr>, x), logger))"
proof -
  let ?e = "Mb_exception (''Insufficient funds ('' @ a @ '')'')"
  have inv: "pt_inv (account\<lparr>pt_stream := w\<rparr>)" using assms(1) by (subst pt_inv_core) (simp_all add: pt_core_def)
  have "trade_update_handler backtest_stream_ops \<lparr>tm_pair = pair, tm_trade = trade\<rparr> (account\<lparr>pt_stream := w\<rparr>) =
      (Inl ?e, account\<lparr>pt_stream := w\<rparr>\<lparr>pt_stream := w'\<rparr>)"
    by (rule unfunded_handler_throws [OF inv])
       (use assms in \<open>auto simp: backtest_stream_ops_def has_sufficient_funds_def\<close>)
  from notify_account_throws [OF assms(6-8) this]
  have "account_notify strategy_handler (account, x) = (Inl ?e, (account\<lparr>pt_stream := w'\<rparr>, x))" by simp
  then show ?thesis
    by (simp add: act_simps assms(15) bt_iteration_def with_strategy_def in_state_def)
qed

definition demo_unfunded :: "unit bt_account" where
  "demo_unfunded = \<lparr>pt_stream = (create_backtest_stream (demo_run_data\<lparr>bd_dataTime := 60\<rparr>))
       \<lparr>bs_tradeUpdateHandlers := [Account_handler], bs_subscriptions := [create_trade_sub demo_pair]\<rparr>,
     pt_fee = 0, pt_trailingOrderLimits = Map.empty, pt_balances = [(''B'', 0)],
     pt_openOrders = [(''1'', create_market_order demo_pair BUY (Fin 1))],
     pt_openOrdersByPair = (\<lambda>p. if p = demo_pair then [''1''] else []), pt_closedOrders = [],
     pt_nextOrderNumber = 2\<rparr>"

lemma unfunded_order_ends_back_test_example:
  "fst (bt_loop (\<lambda>_ _. act_return ()) (act_return ()) 3 (Suc 1) 1 ((demo_unfunded, ()), create_test_logger [] 0 [])) =
    Inl (Mb_exception ''Insufficient funds (B)'')"
proof -
  let ?r = "create_market_order demo_pair BUY (Fin 1)" and ?a = demo_unfunded
  let ?t = "\<lparr>tu_timeStamp = 60, tu_price = Fin 9, tu_volume = Fin 1\<rparr>"
  have "issued ?a ''1''" by (simp add: issued_def demo_unfunded_def) (rule exI [of _ 1], code_simp)
  then have inv: "pt_inv ?a"
    by (auto simp: pt_inv_def open_ids_def demo_unfunded_def create_market_order_def issued_def split: if_splits)
  define w where "w = snd (bs_get_last_trade demo_pair (pt_stream ?a))"
  define w' where "w' = snd (bs_get_last_trade demo_pair w)"
  have "fst (bs_get_last_trade demo_pair (pt_stream ?a)) = Inr ?t" "fst (bs_get_last_trade demo_pair w) = Inr ?t"
    unfolding w_def by code_simp+
  then have t: "bs_get_last_trade demo_pair (pt_stream ?a) = (Inr ?t, w)" "bs_get_last_trade demo_pair w = (Inr ?t, w')"
    by (simp_all add: w_def w'_def prod_eq_iff)
  have cost: "calculate_cost (Fin 9) (Fin 1) = Fin 9" "Fin 9 * 0 * lit (1 / 100) = Fin 0" "Fin 9 + Fin 0 = Fin 9"
      "\<not> deq (tu_price ?t) 0" by code_simp+
  have legs: "order_legs (pt_fee ?a) ?r (tu_price ?t) = ((''A'', Fin 1), (''B'', Fin 9))"
    by (simp add: order_legs_def demo_unfunded_def cost Let_def) (simp add: create_market_order_def demo_pair_def)
  have v: "to_integer_volume (Fin 1) = Inr 10000000000" "to_integer_volume (Fin 9) = Inr 90000000000"
    by code_simp+
  have p: "percentage_complete 3 1 = Inr 50" by code_simp
  have f: "\<not> has_sufficient_funds ?a ''B'' 90000000000"
    by (simp add: has_sufficient_funds_def demo_unfunded_def)
  have m: "pt_openOrdersByPair ?a demo_pair = ''1'' # []" "map_of (pt_openOrders ?a) ''1'' = Some ?r"
      "rq_orderType ?r = MARKET" "rq_pair ?r = demo_pair"
      "bs_subscriptions (pt_stream ?a) = create_trade_sub demo_pair # []"
      "bs_tradeUpdateHandlers (pt_stream ?a) = Account_handler # []"
    by (simp_all add: demo_unfunded_def create_market_order_def)
  show ?thesis
    by (simp only: unfunded_order_ends_back_test [OF inv m t cost(4) legs v f p] fst_conv append.simps)
qed

section \<open>What a run has logged\<close>

lemma catch_flush_cases:
  "catch_mb (act_seq (in_state fst (\<lambda>w s. (w, snd s)) m) flush) s = (r, t) \<Longrightarrow>
    (\<exists>e w. m (fst s) = (Inl e, w) \<and> t = (w, snd s)) \<or>
    (\<exists>u w r'. m (fst s) = (Inr u, w) \<and> flush (w, snd s) = (r', t))"
  by (cases "m (fst s)"; cases "fst (m (fst s))"; cases "flush (snd (m (fst s)), snd s)")
     (auto simp: catch_mb_def act_bind_def in_state_def split: sum.splits if_splits prod.splits)

text \<open>A strategy that reaches the accounts through their operations: closed orders only grow.\<close>

definition accounts_grow :: "'w paper_trade_api list \<Rightarrow> 'w paper_trade_api list \<Rightarrow> bool" where
  "accounts_grow xs ys \<longleftrightarrow> list_all2 closed_grow xs ys"

lemma logged_grow:
  assumes "logged header apis logger rows" "accounts_grow apis apis'"
  shows "logged header apis' logger rows"
proof -
  have "length apis' = length apis" "\<forall>k < length apis. closed_grow (apis ! k) (apis' ! k)"
    using assms(2) by (auto simp: accounts_grow_def list_all2_conv_all_nth)
  with assms(1) show ?thesis
    unfolding logged_def closed_grow_def by (auto intro: prefix_order.order_trans)
qed

lemma live_test_loop_logged:
  assumes "\<And>s. accounts_grow (fst s) (fst (snd (run_iteration s)))"
    and "live_test_loop run_iteration n s = (r, t)" "logged header (fst (fst s)) (snd s) rows"
  shows "\<exists>new. logged header (fst (fst t)) (snd t) new"
  using assms(2,3)
proof (induction n arbitrary: s rows)
  case 0
  then show ?case by (auto simp: act_simps)
next
  case (Suc n)
  let ?it = "catch_mb (act_seq (in_state fst (\<lambda>w s. (w, snd s)) run_iteration) live_flush)"
  obtain r1 u where u: "?it s = (r1, u)" by (meson surj_pair)
  have grown: "logged header (fst w) (snd s) rows" if "run_iteration (fst s) = (x, w)" for x w
    using logged_grow [OF Suc.prems(2)] assms(1) [of "fst s"] that by simp
  have "\<exists>new. logged header (fst (fst u)) (snd u) new"
    using catch_flush_cases [OF u] grown logged_flush
    by (fastforce simp: live_flush_def act_simps)
  with Suc.IH Suc.prems(1) u show ?case
    by (auto simp: act_bind_def split: sum.splits)
qed

text \<open>
  C12: at the end of a live test the trade log holds one row for every order the accounts have
  closed, also those of iterations that threw: per account each order once, in the order they
  were closed.
\<close>

theorem live_test_logs_everything:
  assumes "\<And>s. accounts_grow (fst s) (fst (snd (run_iteration s)))"
    and "live_test_run run_iteration n get_test_results format_time started ended s = (Inr report, t)"
  shows "\<exists>rows. tl_tradeFile (snd t) = create_trades_file [] @ log_text rows \<and>
    (\<forall>k < length (fst (fst t)). rows_of k rows = pt_closedOrders (fst (fst t) ! k))"
proof -
  let ?s = "(s, create_test_logger [] started (fst s))"
  obtain r u where u: "live_test_loop run_iteration n ?s = (r, u)" by (meson surj_pair)
  from live_test_loop_logged [OF assms(1) u, of "create_trades_file []" "[]"] logged_create
  obtain rows where "logged (create_trades_file []) (fst (fst u)) (snd u) rows" by auto
  from logged_flush [OF this] obtain new where new:
      "logged (create_trades_file []) (fst (fst u)) (flush_trades (fst (fst u)) (snd u)) (rows @ new)"
      "\<forall>k < length (fst (fst u)). rows_of k (rows @ new) = pt_closedOrders (fst (fst u) ! k)" by blast
  have "t = (fst u, flush_trades (fst (fst u)) (snd u))"
    using assms(2) u by (auto simp: live_test_run_def while_thread_runs_def act_bind_def live_flush_def act_modify_def act_read_def
        split: sum.splits)
  with new show ?thesis unfolding logged_def by auto
qed

definition cancel_strategy :: "trade_update paper_trade_api list \<times> unit \<Rightarrow>
    unit res \<times> trade_update paper_trade_api list \<times> unit" where
  "cancel_strategy s = (Inr (), (map (account_step demo_ops (Cancel_order ''9'')) (fst s), snd s))"

theorem live_test_logs_everything_witness:
  "\<exists>t report. live_test_run cancel_strategy 1 (\<lambda>_. []) (\<lambda>_ _. []) 0 5 ([demo_account [] 2], ()) = (Inr report, t) \<and>
    (\<exists>rows. tl_tradeFile (snd t) = create_trades_file [] @ log_text rows \<and>
      (\<forall>k < length (fst (fst t)). rows_of k rows = pt_closedOrders (fst (fst t) ! k)))"
proof -
  have g: "accounts_grow (fst s) (fst (snd (cancel_strategy s)))" for s
    by (simp add: accounts_grow_def cancel_strategy_def list_all2_conv_all_nth closed_grow_step
        del: account_step.simps)
  obtain report t where r: "live_test_run cancel_strategy 1 (\<lambda>_. []) (\<lambda>_ _. []) 0 5 ([demo_account [] 2], ()) = (Inr report, t)"
    by (simp add: live_test_run_def while_thread_runs_def act_simps live_flush_def catch_mb_def in_state_def cancel_strategy_def)
  from live_test_logs_everything [OF g r] r show ?thesis by blast
qed

text \<open>A back test flushes in its iterations only: one that throws leaves the log as it was.\<close>

lemma throwing_iteration_not_logged:
  assumes "with_strategy (account_notify strategy_handler) s = (Inr (), u)"
    and "run_iteration (fst u) = (Inl (Mb_exception m), w)"
  shows "\<exists>t. bt_iteration strategy_handler run_iteration s = (Inr (), t) \<and> snd t = snd u"
  using assms increment_returns [of "(w, snd u)"]
  by (cases "with_strategy account_increment (w, snd u)")
     (auto simp: bt_iteration_def act_bind_def catch_mb_def with_strategy_def in_state_def split: prod.splits)

lemma one_step_undefined: "percentage_complete 1 0 = Inl (Undefined_behaviour ''double to integer'')"
  by code_simp

section \<open>Retries\<close>

text \<open>The results an action gives one after the other, and the state after them.\<close>

fun attempts :: "('s, 'r) action \<Rightarrow> nat \<Rightarrow> 's \<Rightarrow> 'r res list" where
  "attempts act 0 s = []"
| "attempts act (Suc n) s = (case act s of (r, t) \<Rightarrow> r # attempts act n t)"

text \<open>
  A retried action is run until its first success, whose value is returned, at most one
  time more than there are retries; after as many failures the call throws.
\<close>

lemma retry_on_fail_spec:
  assumes "0 \<le> maxRetries" "attempts act (nat maxRetries + 1) s = map Inr rs"
  shows "fst (retry_on_fail act toResult maxRetries s) =
    (case dropWhile (\<lambda>r. \<exists>e. toResult r = Fail e) rs of
       [] \<Rightarrow> Inl (Mb_exception ''Max number of retries exceeded'')
     | r # _ \<Rightarrow> result_value (toResult r))"
proof -
  have "attempts act n s = map Inr rs \<Longrightarrow> fst (retry_loop act toResult n s) =
      (case dropWhile (\<lambda>r. \<exists>e. toResult r = Fail e) rs of
         [] \<Rightarrow> Inl (Mb_exception ''Max number of retries exceeded'')
       | r # _ \<Rightarrow> result_value (toResult r))" for n
  proof (induction n arbitrary: s rs)
    case (Suc n)
    obtain r t where a: "act s = (r, t)" by fastforce
    with Suc.prems obtain r' rs' where r: "rs = r' # rs'" "r = Inr r'" "attempts act n t = map Inr rs'"
      by (cases rs) auto
    with a Suc.IH [OF r(3)] show ?case
      by (cases "toResult r'") (simp_all add: act_bind_def act_return_def)
  qed simp
  from this [of "nat maxRetries + 1"] assms show ?thesis
    by (simp add: retry_on_fail_def nat_add_distrib)
qed

lemma retry_on_fail_spec_example:
  "fst (retry_on_fail (\<lambda>s. (Inr s, s + 1)) (\<lambda>r. if r < 2 then Fail ''no'' else Success r) 3 (0 :: int)) = Inr 2"
  using retry_on_fail_spec [of 3 "\<lambda>s. (Inr s, s + 1)" "0 :: int" "[0, 1, 2, 3]" "\<lambda>r. if r < 2 then Fail ''no'' else Success r"]
  by (simp add: eval_nat_numeral)

end
