(* ===== verification/BackTestRun.thy ===== *)
theory BackTestRun
  imports Ledger Runner
begin

text \<open>
  A whole back test: the replayed stream, the paper account, the strategy and the loop of
  \<^verbatim>\<open>runner/back_test_runner.h\<close> together. A strategy is any client of the account's
  operations that may also read and subscribe to the stream. The lemmas carry the ledger of the
  account, the times of its fills and the time of each iteration through notification, iteration,
  failure and increment.
\<close>

section \<open>Clients of the account\<close>

text \<open>The accounts a client can make of one by the account's operations and those of the stream.\<close>

inductive account_reach :: "'h bt_account \<Rightarrow> 'h bt_account \<Rightarrow> bool" where
  stays: "account_reach s s"
| acts: "account_reach s t \<Longrightarrow> account_reach s (account_step backtest_stream_ops op t)"
| streams: "account_reach s t \<Longrightarrow> stream_clock w = stream_clock (pt_stream t) \<Longrightarrow> account_reach s (t\<lparr>pt_stream := w\<rparr>)"

definition client :: "('h, 'x) strategy_action \<Rightarrow> bool" where
  "client m \<longleftrightarrow> (\<forall>s. account_reach (fst s) (fst (snd (m s))))"

text \<open>An invariant that an operation keeps, whether it returns or throws.\<close>

definition preserves :: "('s \<Rightarrow> bool) \<Rightarrow> ('s, 'a) action \<Rightarrow> bool" where
  "preserves I m \<longleftrightarrow> (\<forall>s. I s \<longrightarrow> I (snd (m s)))"

named_theorems preserved "operations that keep an invariant"

lemma preservesD: "preserves I m \<Longrightarrow> I s \<Longrightarrow> m s = (r, t) \<Longrightarrow> I t"
  unfolding preserves_def by (metis snd_conv)

lemma preserved_basic [preserved]:
  "preserves I (act_return a)" "preserves I (act_throw e)" "preserves I (act_read g)" "preserves I (act_res h)"
  by (simp_all add: preserves_def act_simps)

lemma preserved_bind [preserved]:
  "preserves I m \<Longrightarrow> (\<And>a. preserves I (f a)) \<Longrightarrow> preserves I (act_bind m f)"
  by (fastforce simp: preserves_def act_bind_def split: prod.split sum.split)

lemma preserved_if [preserved]: "preserves I m \<Longrightarrow> preserves I n \<Longrightarrow> preserves I (if b then m else n)"
  by simp

lemma preserved_iter [preserved]: "(\<And>x. preserves I (f x)) \<Longrightarrow> preserves I (act_iter f xs)"
  unfolding preserves_def by (auto intro: act_iter_invariant)

lemma preserved_catch [preserved]: "preserves I m \<Longrightarrow> preserves I (catch_mb m)"
  by (fastforce simp: preserves_def catch_mb_def split: prod.split sum.split)

lemma preserved_in_state:
  "preserves I m \<Longrightarrow> (\<And>s. J s \<Longrightarrow> I (get s)) \<Longrightarrow> (\<And>s w. J s \<Longrightarrow> I w \<Longrightarrow> J (put w s)) \<Longrightarrow> preserves J (in_state get put m)"
  by (fastforce simp: preserves_def in_state_def split: prod.split)

section \<open>The clock of the account\<close>

lemma keeps_stream_part:
  "act_keeps stream_clock m \<Longrightarrow> act_keeps (\<lambda>s. stream_clock (pt_stream s)) (on_stream m)"
  by (auto simp: act_keeps_def on_stream_def split: prod.split) (metis snd_conv)

lemma keeps_status: "act_keeps stream_clock (bs_get_subscription_status sub)"
  unfolding bs_get_subscription_status_def by (intro keeps)

lemma keeps_subscribe: "act_keeps stream_clock (bs_subscribe sub)"
  unfolding bs_subscribe_def by (auto intro!: keeps keeps_modify)

lemma keeps_account_part: "(\<And>s. pt_stream (g s) = pt_stream s) \<Longrightarrow>
    act_keeps (\<lambda>s. stream_clock (pt_stream s)) (act_modify g)"
  by (rule keeps_modify) simp

lemma keeps_account_ops:
  "act_keeps (\<lambda>s. stream_clock (pt_stream s)) (add_order backtest_stream_ops request)"
  "act_keeps (\<lambda>s. stream_clock (pt_stream s)) (add_order_confirm backtest_stream_ops request)"
  "act_keeps (\<lambda>s. stream_clock (pt_stream s)) (cancel_order i :: ('h backtest_stream, unit) pt_action)"
proof -
  have ops: "act_keeps stream_clock (so_get_subscription_status backtest_stream_ops sub)"
    "act_keeps stream_clock (so_subscribe backtest_stream_ops ws)"
    "act_keeps stream_clock (so_get_last_trade backtest_stream_ops p)" for sub ws p
    by (simp_all add: backtest_stream_ops_def keeps_status keeps_subscribe keeps_bs_get_last_trade)
  show "act_keeps (\<lambda>s. stream_clock (pt_stream s)) (add_order backtest_stream_ops request)"
    unfolding add_order_def
    by (intro keeps keeps_account_part keeps_stream_part ops keeps_try_fill) (simp_all add: set_pair_orders_def)
  then show "act_keeps (\<lambda>s. stream_clock (pt_stream s)) (add_order_confirm backtest_stream_ops request)"
    unfolding add_order_confirm_def by (intro keeps keeps_stream_part ops)
  show "act_keeps (\<lambda>s. stream_clock (pt_stream s)) (cancel_order i :: ('h backtest_stream, unit) pt_action)"
    unfolding cancel_order_def by (intro keeps keeps_account_part) simp_all
qed

lemma clock_step: "stream_clock (pt_stream (account_step backtest_stream_ops op s)) = stream_clock (pt_stream s)"
  by (cases op) (simp_all add: keeps_account_ops [unfolded act_keeps_def, rule_format]
      keeps_trade_handler [unfolded act_keeps_def, rule_format])

section \<open>When orders were filled\<close>

abbreviation now :: "'h bt_account \<Rightarrow> time_t" where
  "now s \<equiv> bd_dataTime (bs_data (pt_stream s))"

lemma clock_now: "stream_clock v = stream_clock w \<Longrightarrow> bd_dataTime (bs_data v) = bd_dataTime (bs_data w)"
  by (simp add: data_clock_def)

text \<open>The closed orders have the time stamps of steps of the run, in order and not after now.\<close>

definition dated :: "(time_t \<Rightarrow> bool) \<Rightarrow> 'h bt_account \<Rightarrow> bool" where
  "dated steps s \<longleftrightarrow> steps (now s) \<and>
     sorted (map od_timeStamp (pt_closedOrders s)) \<and>
     list_all (\<lambda>d. steps (od_timeStamp d) \<and> od_timeStamp d \<le> now s) (pt_closedOrders s)"

lemma dated_same:
  "pt_closedOrders t = pt_closedOrders s \<Longrightarrow> now t = now s \<Longrightarrow> dated steps t = dated steps s"
  by (simp add: dated_def)

lemma dated_closed:
  assumes "dated steps s" "pt_closedOrders t = pt_closedOrders s @ [d]" "od_timeStamp d = now s" "now t = now s"
  shows "dated steps t"
  using assms by (auto simp: dated_def sorted_append list_all_iff)

lemma dated_try_fill:
  assumes "dated steps s" "try_fill_order backtest_stream_ops i s = (r, t)"
  shows "dated steps t"
proof -
  have n: "now t = now s" using act_keepsD [OF keeps_try_fill assms(2)] by (rule clock_now)
  from try_fill_cases [OF assms(2)] show ?thesis
  proof
    assume "r = Inr True \<and> (\<exists>request fillPrice s1. map_of (pt_openOrders s) (c_str i) = Some request \<and>
      pt_core s1 = pt_core s \<and> execute_order backtest_stream_ops (c_str i) request fillPrice s1 = (Inr (), t))"
    then obtain request fillPrice s1 where s1: "pt_core s1 = pt_core s"
      and e: "execute_order backtest_stream_ops (c_str i) request fillPrice s1 = (Inr (), t)" by blast
    from execute_order_stream [OF e] n have "so_get_time backtest_stream_ops (pt_stream s1) = now s"
      by (simp add: backtest_stream_ops_def)
    with dated_closed [OF assms(1) _ _ n] execute_order_state(5) [OF e] s1 show ?thesis
      by (simp add: pt_core_eq to_order_description_def)
  next
    assume "r \<noteq> Inr True \<and> pt_core t = pt_core s"
    with n assms(1) show ?thesis using dated_same [of t s] by (simp add: pt_core_eq)
  qed
qed

lemma now_on_stream:
  "act_keeps stream_clock m \<Longrightarrow> on_stream m s = (r, t) \<Longrightarrow> now t = now s"
  by (rule clock_now [OF act_keepsD [OF keeps_stream_part]])

lemma preserved_on_stream:
  "act_keeps stream_clock m \<Longrightarrow> preserves (dated steps) (on_stream m)"
proof -
  assume m: "act_keeps stream_clock m"
  have "dated steps t" if "dated steps s" "on_stream m s = (r, t)" for s r t
    using dated_same [of t s] core_on_stream [OF that(2)] now_on_stream [OF m that(2)] that(1)
    by (simp add: pt_core_eq)
  then show ?thesis unfolding preserves_def by (metis prod.collapse)
qed

lemma preserved_part:
  "(\<And>s. pt_stream (g s) = pt_stream s \<and> pt_closedOrders (g s) = pt_closedOrders s) \<Longrightarrow>
    preserves (dated steps) (act_modify g)"
  by (simp add: preserves_def act_simps dated_def)

lemma preserved_try_fill: "preserves (dated steps) (try_fill_order backtest_stream_ops i)"
  unfolding preserves_def by (metis dated_try_fill prod.collapse)

lemma dated_step:
  fixes s :: "'h bt_account"
  shows "dated steps s \<Longrightarrow> dated steps (account_step backtest_stream_ops op s)"
proof -
  have add: "preserves (dated steps) (add_order backtest_stream_ops request)" for request
    unfolding add_order_def
    by (intro preserved preserved_part preserved_on_stream preserved_try_fill)
      (simp_all add: set_pair_orders_def backtest_stream_ops_def keeps_status keeps_subscribe)
  have confirm: "preserves (dated steps) (add_order_confirm backtest_stream_ops request)" for request
    unfolding add_order_confirm_def
    by (intro preserved add preserved_on_stream) (simp add: backtest_stream_ops_def keeps_bs_get_last_trade)
  have cancel: "preserves (dated steps) (cancel_order i)" for i
    unfolding cancel_order_def by (auto intro!: preserved preserved_part)
  have pairs: "dated steps (set_pair_orders p ids u) = dated steps u" for p ids and u :: "'h bt_account"
    by (rule dated_same) (simp_all add: set_pair_orders_def)
  have fill: "dated steps (snd (trade_update_handler backtest_stream_ops m u))" if "dated steps u" for m and u :: "'h bt_account"
  proof -
    have "dated steps (snd (fill_loop backtest_stream_ops (tm_pair m) n k u))" for n k
      by (rule fill_loop_invariant [of "dated steps", OF dated_try_fill _ that]) (simp_all add: pairs)
    then show ?thesis by (simp add: trade_update_handler_def act_simps)
  qed
  assume "dated steps s"
  then show ?thesis
    by (cases op) (simp_all add: add [unfolded preserves_def, rule_format] fill
        confirm [unfolded preserves_def, rule_format] cancel [unfolded preserves_def, rule_format])
qed

section \<open>The account through a run\<close>

definition run_inv ::
    "double \<Rightarrow> (string \<Rightarrow> volume_t) \<Rightarrow> (time_t \<Rightarrow> bool) \<Rightarrow> int \<Rightarrow> 'h bt_account \<Rightarrow> bool" where
  "run_inv feeRate b steps step s \<longleftrightarrow>
     (\<exists>rs. keeps_ledger feeRate b rs s) \<and> dated steps s \<and> bd_stepSize (bs_data (pt_stream s)) = step"

lemma run_inv_step:
  assumes "run_inv feeRate b steps step s"
  shows "run_inv feeRate b steps step (account_step backtest_stream_ops op s)"
proof -
  have "bd_stepSize (bs_data (pt_stream (account_step backtest_stream_ops op s))) = bd_stepSize (bs_data (pt_stream s))"
    using clock_step [of op s] by (simp add: data_clock_def)
  with assms show ?thesis using keeps_ledger_step dated_step unfolding run_inv_def by metis
qed

lemma run_inv_stream:
  assumes "run_inv feeRate b steps step s" "stream_clock w = stream_clock (pt_stream s)"
  shows "run_inv feeRate b steps step (s\<lparr>pt_stream := w\<rparr>)"
proof -
  have "pt_core (s\<lparr>pt_stream := w\<rparr>) = pt_core s" by (simp add: pt_core_def)
  with assms show ?thesis
    using keeps_ledger_core [of "s\<lparr>pt_stream := w\<rparr>" s] dated_same [of "s\<lparr>pt_stream := w\<rparr>" s]
    by (simp add: run_inv_def data_clock_def)
qed

lemma run_inv_reach: "account_reach s t \<Longrightarrow> run_inv feeRate b steps step s \<Longrightarrow> run_inv feeRate b steps step t"
  by (induction rule: account_reach.induct) (simp_all add: run_inv_step run_inv_stream)

abbreviation pair_inv where
  "pair_inv feeRate b steps step \<equiv> \<lambda>s. run_inv feeRate b steps step (fst s)"

abbreviation state_inv where
  "state_inv feeRate b steps step \<equiv> \<lambda>s. run_inv feeRate b steps step (fst (fst s))"

lemma client_preserves: "client m \<Longrightarrow> preserves (pair_inv feeRate b steps step) m"
  by (auto simp: client_def preserves_def intro: run_inv_reach)

lemma preserved_fire:
  "(\<And>h m. preserves I (call h m)) \<Longrightarrow> preserves I (fire_handlers call handlers m)"
  unfolding preserves_def fire_handlers_def by (auto intro: act_iter_invariant)

lemma preserved_data:
  assumes "act_keeps data_clock m"
    and "\<And>s w. I s \<Longrightarrow> stream_clock w = stream_clock (pt_stream (fst s)) \<Longrightarrow> I ((fst s)\<lparr>pt_stream := w\<rparr>, snd s)"
  shows "preserves I
    (in_state (\<lambda>s :: 'h bt_account \<times> 'x. pt_stream (fst s)) (\<lambda>w s. ((fst s)\<lparr>pt_stream := w\<rparr>, snd s)) (on_data m))"
  unfolding preserves_def
proof (intro allI impI)
  fix s :: "'h bt_account \<times> 'x" assume s: "I s"
  obtain r w where w: "on_data m (pt_stream (fst s)) = (r, w)" by fastforce
  from assms(2) [OF s act_keepsD [OF keeps_on_data [OF assms(1)] w]] w
  show "I (snd (in_state (\<lambda>s. pt_stream (fst s)) (\<lambda>w s. ((fst s)\<lparr>pt_stream := w\<rparr>, snd s)) (on_data m) s))"
    by (simp add: in_state_def)
qed

text \<open>
  What the notification of a step keeps: what the handlers of the strategy and of the account
  keep, and what does not depend on the candles that are held in memory.
\<close>

lemma preserved_notify:
  assumes "\<And>h m. preserves I (strategy_handler h m)"
    and "\<And>m. preserves I (in_state fst (\<lambda>w s. (w, snd s)) (trade_update_handler backtest_stream_ops m))"
    and "\<And>s w. I s \<Longrightarrow> stream_clock w = stream_clock (pt_stream (fst s)) \<Longrightarrow> I ((fst s)\<lparr>pt_stream := w\<rparr>, snd s)"
  shows "preserves I (account_notify strategy_handler)"
proof -
  have call: "preserves I (call_handler strategy_handler h m)" for h m
    using assms(1,2) by (cases h; cases m) (simp_all add: preserved)
  have one: "preserves I (notify_one (\<lambda>s. pt_stream (fst s))
      (\<lambda>w s. ((fst s)\<lparr>pt_stream := w\<rparr>, snd s)) (call_handler strategy_handler) sub)" for sub
    unfolding notify_one_def Let_def
    by (cases "sb_channel sub")
      (auto intro!: preserved preserved_data preserved_fire call assms(3) keeps_data split: list.split)
  have "preserves I (notify_loop (\<lambda>s. pt_stream (fst s))
      (\<lambda>w s. ((fst s)\<lparr>pt_stream := w\<rparr>, snd s)) (call_handler strategy_handler) subs)" for subs
    by (induction subs) (auto intro!: preserved one)
  then show ?thesis unfolding account_notify_def bs_notify_def by (intro preserved)
qed

lemma notify_run_inv:
  assumes "\<And>h m. client (strategy_handler h m)"
  shows "preserves (pair_inv feeRate b steps step) (account_notify strategy_handler)"
proof (rule preserved_notify)
  fix m
  have "preserves (run_inv feeRate b steps step) (trade_update_handler backtest_stream_ops m)"
    by (auto simp: preserves_def intro: run_inv_step [where op = "Trade_message m", simplified])
  then show "preserves (pair_inv feeRate b steps step)
      (in_state fst (\<lambda>w s. (w, snd s)) (trade_update_handler backtest_stream_ops m))"
    by (rule preserved_in_state) simp_all
qed (simp_all add: client_preserves assms run_inv_stream)

lemma preserved_with_strategy:
  "preserves (pair_inv feeRate b steps step) m \<Longrightarrow> preserves (state_inv feeRate b steps step) (with_strategy m)"
  unfolding with_strategy_def by (rule preserved_in_state [where I = "pair_inv feeRate b steps step"]) simp_all

lemma preserved_flush: "preserves (state_inv feeRate b steps step) bt_flush"
  by (simp add: bt_flush_def preserves_def act_simps)

lemma preserved_increment:
  assumes "\<And>t. steps t \<Longrightarrow> steps (t + step)" "0 \<le> step"
  shows "preserves (state_inv feeRate b steps step) (with_strategy (account_increment :: ('h, 'x) strategy_action))"
proof -
  have "run_inv feeRate b steps step (u\<lparr>pt_stream := w\<rparr>)"
    if u: "run_inv feeRate b steps step u" and w: "bd_dataTime (bs_data w) = now u + step"
      "bd_stepSize (bs_data w) = step" for u :: "'h bt_account" and w
  proof -
    have "pt_core (u\<lparr>pt_stream := w\<rparr>) = pt_core u" by (simp add: pt_core_def)
    moreover have "dated steps (u\<lparr>pt_stream := w\<rparr>)"
      using u w assms by (fastforce simp: run_inv_def dated_def list_all_iff)
    ultimately show ?thesis
      using u w keeps_ledger_core [of "u\<lparr>pt_stream := w\<rparr>" u] by (simp add: run_inv_def)
  qed
  then show ?thesis
    by (simp add: preserves_def with_strategy_def account_increment_def in_state_def on_stream_def on_data_def
        bd_increment_def act_simps) (simp add: run_inv_def)
qed

lemma preserved_iteration:
  assumes "\<And>h m. client (strategy_handler h m)" "client run_iteration"
    and "\<And>t. steps t \<Longrightarrow> steps (t + step)" "0 \<le> step"
  shows "preserves (state_inv feeRate b steps step) (bt_iteration strategy_handler run_iteration)"
  unfolding bt_iteration_def
  by (intro preserved preserved_with_strategy notify_run_inv preserved_flush preserved_increment
      client_preserves assms)

lemma preserved_loop:
  assumes "preserves I (bt_iteration strategy_handler run_iteration)"
  shows "preserves I (bt_loop strategy_handler run_iteration timeSteps n i)"
  by (induction n arbitrary: i) (auto intro!: preserved assms)

lemma run_inv_create:
  assumes "back_test_account config data = Inr a" "steps (bd_dataTime data)"
  shows "run_inv (pc_fee config) (balance a) steps (bd_stepSize data) a"
proof -
  have "keeps_ledger (pc_fee config) (balance a) [] a"
    using assms(1) by (auto simp: back_test_account_def create_paper_trade_api_def res_bind_Inr_iff keeps_ledger_def)
  moreover have "dated steps a" "bd_stepSize (bs_data (pt_stream a)) = bd_stepSize data"
    using assms by (auto simp: back_test_account_def create_paper_trade_api_def res_bind_Inr_iff dated_def
        create_backtest_stream_def)
  ultimately show ?thesis unfolding run_inv_def by blast
qed

lemma back_test_run_inv:
  assumes "\<And>h m. client (strategy_handler h m)" "client run_iteration"
    and "back_test_account config data = Inr a" "0 \<le> bd_stepSize data"
    and "bt_run strategy_handler run_iteration get_test_results format_time started ended (a, x) = (r, t)"
  shows "run_inv (pc_fee config) (balance a) (\<lambda>u. \<exists>k :: nat. u = bd_dataTime data + int k * bd_stepSize data)
    (bd_stepSize data) (fst (fst t))"
proof -
  let ?steps = "\<lambda>u. \<exists>k :: nat. u = bd_dataTime data + int k * bd_stepSize data"
  let ?I = "state_inv (pc_fee config) (balance a) ?steps (bd_stepSize data)"
  have start: "?steps (bd_dataTime data)" by (rule exI [of _ 0]) simp
  have next_step: "?steps (u + bd_stepSize data)" if "?steps u" for u
  proof -
    from that obtain k where "u = bd_dataTime data + int k * bd_stepSize data" by blast
    then show ?thesis by (intro exI [of _ "Suc k"]) (simp add: algebra_simps)
  qed
  have loop: "preserves ?I (bt_loop strategy_handler run_iteration timeSteps n 0)" for timeSteps n
    by (rule preserved_loop, rule preserved_iteration [where steps = ?steps]) (use assms next_step in auto)
  let ?s = "((a, x), create_test_logger [] started [a])"
  let ?n = "bd_timeSteps (bs_data (pt_stream a))"
  obtain r1 u where u: "bt_loop strategy_handler run_iteration ?n (nat ?n) 0 ?s = (r1, u)" by (meson surj_pair)
  with assms(5) have "t = u" by (auto simp: bt_run_def act_bind_def act_read_def split: sum.splits)
  moreover have "?I ?s" using run_inv_create [OF assms(3), of ?steps, OF start] by simp
  ultimately show ?thesis using preservesD [of ?I, OF loop _ u] by simp
qed

text \<open>
  C3: whatever a strategy does with its account and the stream, and however a back test ends,
  the balances at its end are exactly what a ledger of fills makes of the initial ones; there is
  one fill for each closed order, in the order they were closed; each was made at the data time
  of a step of the run, and none before an earlier one.
\<close>

theorem back_test_refines_ledger:
  assumes "\<And>h m. client (strategy_handler h m)" "client run_iteration"
    and "back_test_account config data = Inr a" "0 \<le> bd_stepSize data"
    and "bt_run strategy_handler run_iteration get_test_results format_time started ended (a, x) = (r, t)"
  shows "\<exists>fills. pt_closedOrders (fst (fst t)) = map fill_description fills \<and>
    post_all (pc_fee config) fills (balance a) = Some (balance (fst (fst t))) \<and>
    sorted (map fl_time fills) \<and>
    list_all (\<lambda>f. \<exists>k :: nat. fl_time f = bd_dataTime data + int k * bd_stepSize data) fills"
proof -
  from back_test_run_inv [OF assms] obtain fills where
    "pt_closedOrders (fst (fst t)) = map fill_description fills"
    "post_all (pc_fee config) fills (balance a) = Some (balance (fst (fst t)))"
    and d: "dated (\<lambda>u. \<exists>k :: nat. u = bd_dataTime data + int k * bd_stepSize data) (fst (fst t))"
    by (auto simp: run_inv_def keeps_ledger_def)
  moreover have "od_timeStamp (fill_description f) = fl_time f" for f
    by (simp add: fill_description_def to_order_description_def)
  ultimately show ?thesis
    by (intro exI [of _ fills]) (auto simp: dated_def list_all_iff comp_def)
qed

definition buy_each_step :: "('h, unit) strategy_action" where
  "buy_each_step = act_bind (in_state fst (\<lambda>w s. (w, snd s))
     (add_order backtest_stream_ops (create_market_order demo_pair BUY (Fin 1)))) (\<lambda>_. act_return ())"

lemma buy_client: "client (buy_each_step :: ('h, unit) strategy_action)"
  unfolding client_def
proof
  fix s :: "'h bt_account \<times> unit"
  let ?r = "create_market_order demo_pair BUY (Fin 1)"
  obtain r t where "add_order backtest_stream_ops ?r (fst s) = (r, t)" by fastforce
  with acts [OF stays, of "fst s" "Add_order ?r"] show "account_reach (fst s) (fst (snd (buy_each_step s)))"
    by (simp add: buy_each_step_def in_state_def act_simps split: sum.split)
qed

lemma idle_client: "client (act_return () :: ('h, 'x) strategy_action)"
  by (simp add: client_def act_simps stays)

definition demo_buy_account :: "unit bt_account res" where
  "demo_buy_account = back_test_account \<lparr>pc_fee = 0, pc_balances = [(''B'', Fin 20)]\<rparr> demo_run_data"

theorem back_test_refines_ledger_witness:
  "\<exists>a fills. demo_buy_account = Inr a \<and> balance a ''B'' = 200000000000 \<and>
    (let t = snd (bt_run (\<lambda>_ _. act_return ()) buy_each_step (\<lambda>_. []) (\<lambda>_ _. []) 0 5 (a, ())) in
     pt_closedOrders (fst (fst t)) = map fill_description fills \<and>
     post_all 0 fills (balance a) = Some (balance (fst (fst t))) \<and>
     list_all (\<lambda>f. \<exists>k :: nat. fl_time f = int k * 60) fills)"
proof -
  have v: "to_integer_volume (Fin 20) = Inr 200000000000" by code_simp
  obtain a where a: "demo_buy_account = Inr a" "balance a ''B'' = 200000000000"
    by (simp add: demo_buy_account_def back_test_account_def create_paper_trade_api_def create_initialised_balances_def v
        to_unordered_map_def emplace_def balance_def)
  obtain r t where t: "bt_run (\<lambda>_ _. act_return ()) buy_each_step (\<lambda>_. []) (\<lambda>_ _. []) 0 5 (a, ()) = (r, t)"
    by (meson surj_pair)
  have d: "bd_dataTime demo_run_data = 0" "bd_stepSize demo_run_data = 60"
    by (simp_all add: demo_run_data_def create_back_testing_data_def)
  have s: "0 \<le> bd_stepSize demo_run_data" by (simp add: d)
  from back_test_refines_ledger [OF idle_client buy_client a(1) [unfolded demo_buy_account_def] s t]
  obtain fills where "pt_closedOrders (fst (fst t)) = map fill_description fills"
    "post_all 0 fills (balance a) = Some (balance (fst (fst t)))"
    "list_all (\<lambda>f. \<exists>k :: nat. fl_time f = int k * 60) fills"
    unfolding d paper_trading_config.select_convs by (auto simp only: add_0_left)
  with a show ?thesis by (intro exI [of _ a] exI [of _ fills]) (simp add: t Let_def)
qed

section \<open>The data time of each iteration\<close>

text \<open>
  What a strategy can do with the stream it is given: the virtual functions of the stream, the
  market interface over the same data, and adding handlers of its own.
\<close>

datatype 'h stream_call =
    Subscribe_to websocket_subscription
  | Unsubscribe_from websocket_subscription
  | Ask_status unique_websocket_subscription
  | Ask_book tradable_pair int
  | Ask_trade tradable_pair
  | Ask_candle tradable_pair ohlcv_interval
  | Ask_candles tradable_pair ohlcv_interval int
  | Ask_price tradable_pair
  | Handle_trades 'h
  | Handle_candles 'h
  | Handle_books 'h

fun stream_call_step ::
    "'h stream_call \<Rightarrow> 'h test_handler backtest_stream \<Rightarrow> 'h test_handler backtest_stream" where
  "stream_call_step (Subscribe_to sub) w = snd (bs_subscribe sub w)"
| "stream_call_step (Unsubscribe_from sub) w = snd (bs_unsubscribe sub w)"
| "stream_call_step (Ask_status sub) w = snd (bs_get_subscription_status sub w)"
| "stream_call_step (Ask_book pair depth) w = snd (bs_get_order_book pair depth w)"
| "stream_call_step (Ask_trade pair) w = snd (bs_get_last_trade pair w)"
| "stream_call_step (Ask_candle pair interval) w = snd (bs_get_last_candle pair interval w)"
| "stream_call_step (Ask_candles pair interval count) w = snd (on_data (bm_get_ohlcv pair interval count) w)"
| "stream_call_step (Ask_price pair) w = snd (on_data (bm_get_price pair) w)"
| "stream_call_step (Handle_trades h) w =
     w\<lparr>bs_tradeUpdateHandlers := bs_tradeUpdateHandlers w @ [Strategy_handler h]\<rparr>"
| "stream_call_step (Handle_candles h) w =
     w\<lparr>bs_ohlcvUpdateHandlers := bs_ohlcvUpdateHandlers w @ [Strategy_handler h]\<rparr>"
| "stream_call_step (Handle_books h) w =
     w\<lparr>bs_orderBookUpdateHandlers := bs_orderBookUpdateHandlers w @ [Strategy_handler h]\<rparr>"

text \<open>A strategy does any sequence of these and of the operations of the account.\<close>

inductive strategy_reach :: "'h bt_account \<Rightarrow> 'h bt_account \<Rightarrow> bool" where
  begins: "strategy_reach s s"
| orders: "strategy_reach s t \<Longrightarrow> strategy_reach s (account_step backtest_stream_ops op t)"
| asks: "strategy_reach s t \<Longrightarrow> strategy_reach s (t\<lparr>pt_stream := stream_call_step c (pt_stream t)\<rparr>)"

definition strategy :: "('h, 'x) strategy_action \<Rightarrow> bool" where
  "strategy m \<longleftrightarrow> (\<forall>s. strategy_reach (fst s) (fst (snd (m s))))"

lemma keeps_unsubscribe: "act_keeps stream_clock (bs_unsubscribe sub)"
  unfolding bs_unsubscribe_def by (auto intro!: keeps keeps_modify)

lemma keeps_stream_reads:
  "act_keeps stream_clock (bs_get_order_book pair depth)"
  "act_keeps stream_clock (bs_get_last_candle pair interval)"
  "act_keeps stream_clock (on_data (bm_get_ohlcv pair interval count))"
  "act_keeps stream_clock (on_data (bm_get_price pair))"
  unfolding bs_get_order_book_def bs_get_last_candle_def bm_get_ohlcv_def bm_get_price_def
  by (intro keeps keeps_on_data keeps_data)+

lemma stream_call_clock: "stream_clock (stream_call_step c w) = stream_clock w"
  by (cases c) (simp_all add: keeps_subscribe [unfolded act_keeps_def, rule_format]
      keeps_unsubscribe [unfolded act_keeps_def, rule_format] keeps_status [unfolded act_keeps_def, rule_format]
      keeps_bs_get_last_trade [unfolded act_keeps_def, rule_format]
      keeps_stream_reads [unfolded act_keeps_def, rule_format])

lemma strategy_clock: "strategy_reach s t \<Longrightarrow> stream_clock (pt_stream t) = stream_clock (pt_stream s)"
  by (induction rule: strategy_reach.induct) (simp_all add: clock_step stream_call_clock)

text \<open>Every strategy is a client of the account.\<close>

lemma strategy_account_reach: "strategy_reach s t \<Longrightarrow> account_reach s t"
  by (induction rule: strategy_reach.induct) (auto intro: account_reach.intros stream_call_clock)

lemma strategy_client: "strategy m \<Longrightarrow> client m"
  by (simp add: strategy_def client_def strategy_account_reach)

text \<open>A strategy that also notes the data time of each of its iterations.\<close>

definition beside_times :: "('h, 'x) strategy_action \<Rightarrow> ('h, 'x \<times> time_t list) strategy_action" where
  "beside_times = in_state (\<lambda>s. (fst s, fst (snd s))) (\<lambda>w s. (fst w, snd w, snd (snd s)))"

definition timed :: "('h, 'x) strategy_action \<Rightarrow> ('h, 'x \<times> time_t list) strategy_action" where
  "timed m = act_seq (act_modify (\<lambda>s. (fst s, fst (snd s), snd (snd s) @ [now (fst s)]))) (beside_times m)"

text \<open>The clock of the run and the times noted so far.\<close>

abbreviation at_time :: "time_t \<times> int \<times> int \<Rightarrow> time_t list \<Rightarrow> 'h bt_account \<times> 'x \<times> time_t list \<Rightarrow> bool" where
  "at_time c noted \<equiv> \<lambda>s. stream_clock (pt_stream (fst s)) = c \<and> snd (snd s) = noted"

lemma beside_times_at: "strategy m \<Longrightarrow> preserves (at_time c noted) (beside_times m)"
  by (auto simp: preserves_def beside_times_def in_state_def strategy_def case_prod_beta dest: strategy_clock)

lemma notify_at:
  assumes "\<And>h m. strategy (strategy_handler h m)"
  shows "preserves (at_time c noted) (account_notify (\<lambda>h m. beside_times (strategy_handler h m)))"
proof (rule preserved_notify)
  fix m
  have "preserves (\<lambda>u. stream_clock (pt_stream u) = c) (trade_update_handler backtest_stream_ops m)"
    by (simp add: preserves_def keeps_trade_handler [unfolded act_keeps_def, rule_format])
  then show "preserves (at_time c noted) (in_state fst (\<lambda>w s. (w, snd s)) (trade_update_handler backtest_stream_ops m))"
    by (auto simp: preserves_def in_state_def case_prod_beta)
qed (simp_all add: beside_times_at assms)

abbreviation run_at :: "time_t \<times> int \<times> int \<Rightarrow> time_t list \<Rightarrow> ('h, 'x \<times> time_t list) bt_state \<Rightarrow> bool" where
  "run_at c noted \<equiv> \<lambda>s. at_time c noted (fst s)"

lemma with_strategy_at: "preserves (at_time c noted) m \<Longrightarrow> preserves (run_at c noted) (with_strategy m)"
  unfolding with_strategy_def by (rule preserved_in_state [where I = "at_time c noted"]) simp_all

text \<open>The iteration of the strategy is caught with the flush after it: it has noted one time.\<close>

lemma caught_at:
  assumes "strategy run_iteration" "run_at (time, step, n) noted s"
    and "catch_mb (act_seq (with_strategy (timed run_iteration)) bt_flush) s = (r, t)"
  shows "run_at (time, step, n) (noted @ [time]) t"
proof -
  let ?u = "((fst (fst s), fst (snd (fst s)), snd (snd (fst s)) @ [now (fst (fst s))]), snd s)"
  have "timed run_iteration (fst s) = beside_times run_iteration (fst ?u)" by (simp add: timed_def act_simps)
  then have "with_strategy (timed run_iteration) s = with_strategy (beside_times run_iteration) ?u"
    by (simp add: with_strategy_def in_state_def)
  then have "act_seq (with_strategy (timed run_iteration)) bt_flush s =
      act_seq (with_strategy (beside_times run_iteration)) bt_flush ?u"
    by (simp add: act_bind_def)
  then have run: "catch_mb (act_seq (with_strategy (beside_times run_iteration)) bt_flush) ?u = (r, t)"
    using assms(3) by (simp add: catch_mb_def)
  have "preserves (run_at (time, step, n) (noted @ [time]))
      (catch_mb (act_seq (with_strategy (beside_times run_iteration)) bt_flush))"
    by (intro preserved with_strategy_at beside_times_at assms(1)) (simp add: bt_flush_def preserves_def act_simps)
  moreover have "run_at (time, step, n) (noted @ [time]) ?u" using assms(2) by (simp add: data_clock_def)
  ultimately have "run_at (time, step, n) (noted @ [time]) (snd (catch_mb (act_seq (with_strategy (beside_times run_iteration)) bt_flush) ?u))"
    unfolding preserves_def by blast
  then show ?thesis unfolding run by simp
qed

lemma increment_at:
  assumes "run_at (time, step, n) noted s" "with_strategy account_increment s = (r, t)"
  shows "r = Inr () \<and> run_at (time + step, step, n) noted t"
  using assms
  by (auto simp: with_strategy_def account_increment_def in_state_def on_stream_def on_data_def bd_increment_def
      act_simps data_clock_def)

text \<open>What one iteration does to the clock and the times noted, returned or thrown.\<close>

lemma iteration_at:
  assumes "\<And>h m. strategy (strategy_handler h m)" "strategy run_iteration"
    and "run_at (time, step, n) noted s"
    and "bt_iteration (\<lambda>h m. beside_times (strategy_handler h m)) (timed run_iteration) s = (r, t)"
  shows "r = Inr () \<and> run_at (time + step, step, n) (noted @ [time]) t \<or>
    (\<exists>e. r = Inl e) \<and> (run_at (time, step, n) noted t \<or> run_at (time, step, n) (noted @ [time]) t)"
proof -
  obtain r1 u where u: "with_strategy (account_notify (\<lambda>h m. beside_times (strategy_handler h m))) s = (r1, u)"
    by (meson surj_pair)
  from preservesD [OF with_strategy_at [OF notify_at [OF assms(1)]] assms(3) u]
  have at_u: "run_at (time, step, n) noted u" .
  obtain r2 v where v: "catch_mb (act_seq (with_strategy (timed run_iteration)) bt_flush) u = (r2, v)"
    by (meson surj_pair)
  note at_v = caught_at [OF assms(2) at_u v]
  obtain r3 w where w: "with_strategy account_increment v = (r3, w)" by (meson surj_pair)
  note at_w = increment_at [OF at_v w]
  show ?thesis
  proof (cases r1)
    case (Inl e)
    with assms(4) u at_u show ?thesis by (auto simp: bt_iteration_def act_bind_def)
  next
    case 1: (Inr x)
    show ?thesis
    proof (cases r2)
      case (Inl e)
      with 1 assms(4) u v at_v show ?thesis by (auto simp: bt_iteration_def act_bind_def)
    next
      case (Inr y)
      with 1 assms(4) u v w at_w show ?thesis by (auto simp: bt_iteration_def act_bind_def)
    qed
  qed
qed

text \<open>The times of the first iterations from a start.\<close>

definition step_times :: "time_t \<Rightarrow> int \<Rightarrow> nat \<Rightarrow> time_t list" where
  "step_times start step n = map (\<lambda>j. start + int j * step) [0..<n]"

lemma step_times_Suc: "step_times start step (Suc n) = start # step_times (start + step) step n"
  by (simp add: step_times_def upt_rec [of 0] map_Suc_upt [symmetric] algebra_simps del: upt_Suc)

lemma loop_at:
  assumes "\<And>h m. strategy (strategy_handler h m)" "strategy run_iteration"
    and "run_at (time, step, c) noted s"
    and "bt_loop (\<lambda>h m. beside_times (strategy_handler h m)) (timed run_iteration) timeSteps n i s = (r, t)"
  shows "\<exists>k asked. run_at (time + int k * step, step, c) (noted @ step_times time step asked) t \<and>
    (if r = Inr () then k = n \<and> asked = n else k < n \<and> (asked = k \<or> asked = Suc k))"
  using assms(3,4)
proof (induction n arbitrary: i s time noted)
  case 0
  then show ?case by (auto simp: act_simps step_times_def)
next
  case (Suc n)
  show ?case
  proof (cases "percentage_complete timeSteps i")
    case (Inl e)
    with Suc.prems show ?thesis by (intro exI [of _ 0]) (auto simp: act_simps step_times_def)
  next
    case (Inr p)
    obtain r1 u where u: "bt_iteration (\<lambda>h m. beside_times (strategy_handler h m)) (timed run_iteration) s = (r1, u)"
      by (meson surj_pair)
    note it = iteration_at [OF assms(1,2) Suc.prems(1) u]
    show ?thesis
    proof (cases "r1 = Inr ()")
      case True
      with Suc.prems(2) Inr u have rest: "bt_loop (\<lambda>h m. beside_times (strategy_handler h m)) (timed run_iteration)
          timeSteps n (i + 1) u = (r, t)"
        by (simp add: act_simps)
      from it True have "run_at (time + step, step, c) (noted @ [time]) u" by simp
      from Suc.IH [OF this rest] obtain k asked where
        k: "run_at (time + step + int k * step, step, c) ((noted @ [time]) @ step_times (time + step) step asked) t"
          "if r = Inr () then k = n \<and> asked = n else k < n \<and> (asked = k \<or> asked = Suc k)"
        by blast
      then show ?thesis
        by (intro exI [of _ "Suc k"] exI [of _ "Suc asked"]) (auto simp: step_times_Suc algebra_simps split: if_splits)
    next
      case False
      with it obtain e where e: "r1 = Inl e"
        and at_u: "run_at (time, step, c) noted u \<or> run_at (time, step, c) (noted @ [time]) u"
        by blast
      with Suc.prems(2) Inr u have "r = Inl e" "t = u" by (simp_all add: act_simps)
      from at_u show ?thesis
      proof (elim disjE)
        assume "run_at (time, step, c) noted u"
        then show ?thesis
          using \<open>r = Inl e\<close> \<open>t = u\<close> by (intro exI [of _ 0] exI [of _ 0]) (simp add: step_times_def)
      next
        assume "run_at (time, step, c) (noted @ [time]) u"
        then show ?thesis
          using \<open>r = Inl e\<close> \<open>t = u\<close> by (intro exI [of _ 0] exI [of _ "Suc 0"]) (simp add: step_times_def)
      qed
    qed
  qed
qed

text \<open>
  C26: a strategy cannot move the clock of a back test. Whatever it does, in its iterations and
  in its handlers, with the account, the stream and the market it is given, the data times at
  which its iterations are run are the start of the data and then one step later each time. A
  run that returns has run one iteration for each of its time steps and ends at the time after
  the last; a run that an exception ends stopped before, at the time of one of its steps.
\<close>

theorem back_test_data_time:
  assumes "\<And>h m. strategy (strategy_handler h m)" "strategy run_iteration"
    and "bt_run (\<lambda>h m. beside_times (strategy_handler h m)) (timed run_iteration) get_test_results format_time
      started ended (a, x, []) = (r, t)"
  shows "\<exists>k asked. snd (snd (fst t)) = step_times (now a) (bd_stepSize (bs_data (pt_stream a))) asked \<and>
    now (fst (fst t)) = now a + int k * bd_stepSize (bs_data (pt_stream a)) \<and>
    (case r of
       Inr report \<Rightarrow> k = nat (bd_timeSteps (bs_data (pt_stream a))) \<and> asked = k
     | Inl e \<Rightarrow> k < nat (bd_timeSteps (bs_data (pt_stream a))) \<and> (asked = k \<or> asked = Suc k))"
proof -
  let ?s = "((a, x, []), create_test_logger [] started [a])" and ?d = "bs_data (pt_stream a)"
  obtain r1 u where u: "bt_loop (\<lambda>h m. beside_times (strategy_handler h m)) (timed run_iteration)
      (bd_timeSteps ?d) (nat (bd_timeSteps ?d)) 0 ?s = (r1, u)"
    by (meson surj_pair)
  have "run_at (now a, bd_stepSize ?d, bd_timeSteps ?d) [] ?s" by (simp add: data_clock_def)
  from loop_at [OF assms(1,2) this u] obtain k asked where
    k: "run_at (now a + int k * bd_stepSize ?d, bd_stepSize ?d, bd_timeSteps ?d) ([] @ step_times (now a) (bd_stepSize ?d) asked) u"
      "if r1 = Inr () then k = nat (bd_timeSteps ?d) \<and> asked = nat (bd_timeSteps ?d)
       else k < nat (bd_timeSteps ?d) \<and> (asked = k \<or> asked = Suc k)"
    by blast
  have "t = u" "r1 = Inr () \<longleftrightarrow> (\<exists>report. r = Inr report)"
    using assms(3) u by (auto simp: bt_run_def act_simps split: sum.splits)
  with k show ?thesis
    by (intro exI [of _ k] exI [of _ asked]) (cases r; auto simp: data_clock_def)
qed

lemma idle_strategy: "strategy (act_return () :: ('h, 'x) strategy_action)"
  by (simp add: strategy_def act_simps begins)

lemma buy_strategy: "strategy (buy_each_step :: ('h, unit) strategy_action)"
  unfolding strategy_def
proof
  fix s :: "'h bt_account \<times> unit"
  let ?r = "create_market_order demo_pair BUY (Fin 1)"
  obtain r t where "add_order backtest_stream_ops ?r (fst s) = (r, t)" by fastforce
  with orders [OF begins, of "fst s" "Add_order ?r"] show "strategy_reach (fst s) (fst (snd (buy_each_step s)))"
    by (simp add: buy_each_step_def in_state_def act_simps split: sum.split)
qed

theorem back_test_data_time_witness:
  "\<exists>a t. demo_run_account = Inr a \<and>
    (\<exists>report. bt_run (\<lambda>_ _. beside_times buy_each_step) (timed (act_return ())) (\<lambda>_. []) (\<lambda>_ _. []) 0 5 (a, (), []) =
      (Inr report, t)) \<and> snd (snd (fst t)) = [0, 60, 120] \<and> now (fst (fst t)) = 180"
proof -
  let ?run = "\<lambda>a. bt_run (\<lambda>_ _. beside_times buy_each_step) (timed (act_return ())) (\<lambda>_. []) (\<lambda>_ _. []) 0 5 (a, (), [])"
  let ?d = "\<lambda>a. bs_data (pt_stream a)"
  have a: "res_map (\<lambda>a. (case fst (?run a) of Inl e \<Rightarrow> False | Inr report \<Rightarrow> True, now a, bd_stepSize (?d a), bd_timeSteps (?d a)))
      demo_run_account = Inr (True, 0, 60, 3)" by code_simp
  obtain a where d: "demo_run_account = Inr a" "case fst (?run a) of Inl e \<Rightarrow> False | Inr report \<Rightarrow> True"
      "now a = 0" "bd_stepSize (?d a) = 60" "bd_timeSteps (?d a) = 3"
    using res_map_InrD [OF a] by (simp only: prod.inject) blast
  then obtain report t where t: "?run a = (Inr report, t)" by (cases "?run a") (auto split: sum.splits)
  have "nat 3 = 3" "step_times 0 60 3 = [0, 60, 120]" by code_simp+
  with back_test_data_time [OF buy_strategy idle_strategy t] d(3-5)
  have "snd (snd (fst t)) = [0, 60, 120]" "now (fst (fst t)) = 180" by auto
  with d(1) t show ?thesis by blast
qed

end
