(* ===== verification/SetQueue.thy ===== *)
theory SetQueue
  imports Prelude
begin

text \<open>
  \<^verbatim>\<open>common/types/set_queue.h\<close>: a queue that holds every item once. Its set holds
  references to the items of the queue, so the items live in cells with addresses: an item that
  is popped is destroyed, and a reference to it dangles. The lemmas show that a queue that is not
  a copy is a first-in first-out list of distinct items, and what a copy refers to.
\<close>

section \<open>The queue\<close>

record 'a cells =
  cl_value :: "nat \<rightharpoonup> 'a"
  cl_next :: nat

record set_queue =
  sq_queue :: "nat list"
  sq_set :: "nat list"

type_synonym ('a, 'r) sq_action = "('a cells \<times> set_queue, 'r) action"

definition new_set_queue :: set_queue where
  "new_set_queue = \<lparr>sq_queue = [], sq_set = []\<rparr>"

text \<open>A search of the set may read every item it refers to.\<close>

definition sq_find :: "'a \<Rightarrow> ('a, bool) sq_action" where
  "sq_find item = act_res (\<lambda>(c, q).
     if list_all (\<lambda>r. cl_value c r \<noteq> None) (sq_set q)
     then Inr (\<exists>r \<in> set (sq_set q). cl_value c r = Some item)
     else Inl (Undefined_behaviour ''dangling reference''))"

definition sq_push :: "'a \<Rightarrow> ('a, unit) sq_action" where
  "sq_push item = act_bind (sq_find item) (\<lambda>found.
     if found then act_return ()
     else act_modify (\<lambda>(c, q).
       (c\<lparr>cl_value := (cl_value c)(cl_next c \<mapsto> item), cl_next := cl_next c + 1\<rparr>,
        q\<lparr>sq_queue := sq_queue q @ [cl_next c], sq_set := sq_set q @ [cl_next c]\<rparr>)))"

definition sq_empty :: "set_queue \<Rightarrow> bool" where
  "sq_empty q \<longleftrightarrow> sq_queue q = []"

definition sq_size :: "set_queue \<Rightarrow> nat" where
  "sq_size q = length (sq_queue q)"

definition sq_front :: "('a, nat \<times> 'a) sq_action" where
  "sq_front = act_res (\<lambda>(c, q). case sq_queue q of
       [] \<Rightarrow> Inl (Undefined_behaviour ''front of an empty queue'')
     | r # _ \<Rightarrow> (case cl_value c r of
         None \<Rightarrow> Inl (Undefined_behaviour ''dangling reference'') | Some item \<Rightarrow> Inr (r, item)))"

definition sq_pop :: "('a, 'a) sq_action" where
  "sq_pop =
     act_bind sq_front (\<lambda>(r, item).
     act_bind (sq_find item) (\<lambda>_.
     act_seq (act_modify (\<lambda>(c, q). (c, q\<lparr>sq_set := filter (\<lambda>a. cl_value c a \<noteq> Some item) (sq_set q)\<rparr>)))
    (act_seq (act_modify (\<lambda>(c, q). (c\<lparr>cl_value := (cl_value c)(r := None)\<rparr>, q\<lparr>sq_queue := tl (sq_queue q)\<rparr>)))
     (act_return item))))"

text \<open>A copy gets items of its own, but the set is copied as it is.\<close>

fun copy_items :: "nat list \<Rightarrow> ('a cells, nat list) action" where
  "copy_items [] = act_return []"
| "copy_items (r # rs) = act_bind (act_read (\<lambda>c. cl_next c)) (\<lambda>a.
     act_seq (act_modify (\<lambda>c. c\<lparr>cl_value := (cl_value c)(a := cl_value c r), cl_next := cl_next c + 1\<rparr>))
    (act_bind (copy_items rs) (\<lambda>as. act_return (a # as))))"

definition sq_copy :: "set_queue \<Rightarrow> ('a cells, set_queue) action" where
  "sq_copy other = act_bind (copy_items (sq_queue other)) (\<lambda>as.
     act_return \<lparr>sq_queue = as, sq_set = sq_set other\<rparr>)"

text \<open>
  A queue that is moved takes the items of the other where they are, which is left empty. An
  assignment destroys the items held before; it locks both queues, and so a queue that is
  assigned to itself locks its mutex twice.
\<close>

definition sq_destroy :: "set_queue \<Rightarrow> ('a cells, unit) action" where
  "sq_destroy q = act_modify (\<lambda>c. c\<lparr>cl_value := (\<lambda>r. if r \<in> set (sq_queue q) then None else cl_value c r)\<rparr>)"

definition sq_move :: "set_queue \<Rightarrow> set_queue \<times> set_queue" where
  "sq_move other = (\<lparr>sq_queue = sq_queue other, sq_set = sq_set other\<rparr>, new_set_queue)"

definition sq_copy_assign :: "bool \<Rightarrow> set_queue \<Rightarrow> set_queue \<Rightarrow> ('a cells, set_queue) action" where
  "sq_copy_assign self q other =
     (if self then act_throw (Undefined_behaviour ''mutex locked twice'')
      else act_seq (sq_destroy q) (act_bind (copy_items (sq_queue other)) (\<lambda>as.
        act_return \<lparr>sq_queue = as, sq_set = sq_set other\<rparr>)))"

definition sq_move_assign :: "bool \<Rightarrow> set_queue \<Rightarrow> set_queue \<Rightarrow> ('a cells, set_queue \<times> set_queue) action" where
  "sq_move_assign self q other =
     (if self then act_throw (Undefined_behaviour ''mutex locked twice'')
      else act_seq (sq_destroy q) (act_return (\<lparr>sq_queue = sq_queue other, sq_set = sq_set other\<rparr>, new_set_queue)))"

section \<open>A list of distinct items\<close>

datatype 'a queue_op = Push 'a | Pop | Is_empty | Size

datatype 'a queue_result = Pushed | Popped 'a | Flag bool | Count nat

fun sq_step :: "'a queue_op \<Rightarrow> ('a, 'a queue_result) sq_action" where
  "sq_step (Push item) = act_bind (sq_push item) (\<lambda>_. act_return Pushed)"
| "sq_step Pop = act_bind sq_pop (\<lambda>item. act_return (Popped item))"
| "sq_step Is_empty = act_read (\<lambda>(c, q). Flag (sq_empty q))"
| "sq_step Size = act_read (\<lambda>(c, q). Count (sq_size q))"

fun fifo_step :: "'a queue_op \<Rightarrow> ('a list, 'a queue_result) action" where
  "fifo_step (Push item) xs = (Inr Pushed, if item \<in> set xs then xs else xs @ [item])"
| "fifo_step Pop [] = (Inl (Undefined_behaviour ''front of an empty queue''), [])"
| "fifo_step Pop (x # xs) = (Inr (Popped x), xs)"
| "fifo_step Is_empty xs = (Inr (Flag (xs = [])), xs)"
| "fifo_step Size xs = (Inr (Count (length xs)), xs)"

definition items :: "'a cells \<times> set_queue \<Rightarrow> 'a list" where
  "items s = map (\<lambda>r. the (cl_value (fst s) r)) (sq_queue (snd s))"

definition sq_ok :: "'a cells \<times> set_queue \<Rightarrow> bool" where
  "sq_ok s \<longleftrightarrow> sq_set (snd s) = sq_queue (snd s) \<and> distinct (items s) \<and>
     (\<forall>r \<in> set (sq_queue (snd s)). cl_value (fst s) r \<noteq> None \<and> r < cl_next (fst s))"

lemma sq_ok_distinct: "sq_ok s \<Longrightarrow> distinct (sq_queue (snd s))"
  by (auto simp: sq_ok_def items_def distinct_map)

lemma items_eq: "sq_ok s \<Longrightarrow> (\<exists>r \<in> set (sq_set (snd s)). cl_value (fst s) r = Some x) \<longleftrightarrow> x \<in> set (items s)"
  by (force simp: sq_ok_def items_def)

lemma sq_find_ok:
  assumes "sq_ok s"
  shows "sq_find x s = (Inr (x \<in> set (items s)), s)"
proof -
  have "list_all (\<lambda>r. cl_value (fst s) r \<noteq> None) (sq_set (snd s))"
    using assms by (simp add: sq_ok_def list_all_iff)
  with items_eq [OF assms, of x] show ?thesis by (cases s) (simp add: sq_find_def act_res_def)
qed

lemma sq_push_ok:
  assumes "sq_ok s"
  shows "fst (sq_push x s) = Inr () \<and> sq_ok (snd (sq_push x s)) \<and>
    items (snd (sq_push x s)) = (if x \<in> set (items s) then items s else items s @ [x])"
proof (cases "x \<in> set (items s)")
  case False
  obtain c q where s: "s = (c, q)" by (cases s)
  let ?v = "(cl_value c)(cl_next c \<mapsto> x)"
  let ?t = "(c\<lparr>cl_value := ?v, cl_next := cl_next c + 1\<rparr>,
    q\<lparr>sq_queue := sq_queue q @ [cl_next c], sq_set := sq_set q @ [cl_next c]\<rparr>)"
  have "map (\<lambda>r. the (?v r)) (sq_queue q) = items s"
    using assms by (auto simp: s items_def sq_ok_def)
  then have t: "items ?t = items s @ [x]" by (simp add: items_def)
  with assms False have "sq_ok ?t" by (auto simp: sq_ok_def s simp del: fun_upd_apply) auto
  with t False show ?thesis by (simp add: sq_push_def act_bind_def sq_find_ok [OF assms [unfolded s]] act_modify_def s)
qed (use assms in \<open>simp add: sq_push_def act_simps sq_find_ok\<close>)

lemma sq_pop_ok:
  assumes "sq_ok s" "items s = x # xs"
  shows "fst (sq_pop s) = Inr x \<and> sq_ok (snd (sq_pop s)) \<and> items (snd (sq_pop s)) = xs"
proof -
  obtain c q where s: "s = (c, q)" by (cases s)
  from assms obtain r rs where q: "sq_queue q = r # rs" "cl_value c r = Some x" "sq_set q = r # rs"
    and xs: "xs = map (\<lambda>r. the (cl_value c r)) rs" "r \<notin> set rs"
    using sq_ok_distinct [OF assms(1)] by (auto simp: s items_def sq_ok_def)
  have "filter (\<lambda>a. cl_value c a \<noteq> Some x) rs = rs"
    using assms by (force simp: filter_id_conv s items_def sq_ok_def q xs)
  moreover have "map (\<lambda>a. the (((cl_value c)(r := None)) a)) rs = xs" using xs by (auto simp: xs(1))
  ultimately show ?thesis using assms xs(2)
    by (auto simp: sq_pop_def act_bind_def sq_front_def act_res_def act_modify_def act_return_def s q
        sq_find_ok [OF assms(1), unfolded s] sq_ok_def items_def)
qed

text \<open>A queue that is not a copy does what the list does, with the same results.\<close>

lemma sq_step_refines:
  assumes "sq_ok s" "sq_step op s = (r, t)"
  shows "sq_ok t \<and> fifo_step op (items s) = (r, items t)"
proof (cases op)
  case (Push x)
  obtain r1 u where "sq_push x s = (r1, u)" by (meson surj_pair)
  with Push assms sq_push_ok [OF assms(1), of x] show ?thesis by (auto simp: act_simps)
next
  case Pop
  show ?thesis
  proof (cases "items s")
    case Nil
    with Pop assms show ?thesis by (auto simp: sq_pop_def sq_front_def items_def act_simps split: prod.splits)
  next
    case (Cons x xs)
    obtain r1 u where "sq_pop s = (r1, u)" by (meson surj_pair)
    with Pop assms sq_pop_ok [OF assms(1) Cons] Cons show ?thesis by (auto simp: act_simps)
  qed
qed (use assms in \<open>auto simp: act_simps sq_empty_def sq_size_def items_def split: prod.splits\<close>)

text \<open>The results of a sequence of calls, up to the first that throws.\<close>

fun results_of :: "('op \<Rightarrow> ('s, 'r) action) \<Rightarrow> 'op list \<Rightarrow> 's \<Rightarrow> 'r res list" where
  "results_of step [] s = []"
| "results_of step (op # ops) s =
     (case step op s of (Inr r, t) \<Rightarrow> Inr r # results_of step ops t | (Inl e, t) \<Rightarrow> [Inl e])"

text \<open>
  C40: whatever is done with a new queue that is not copied, in any order, every call returns what
  the list of distinct items in order of arrival returns: an item that is in the queue is not
  queued again, one that was popped can be, and the front of an empty queue is undefined.
\<close>

theorem set_queue_refines_fifo:
  "results_of sq_step ops (c, new_set_queue) = results_of fifo_step ops []"
proof -
  have "sq_ok s \<Longrightarrow> results_of sq_step ops s = results_of fifo_step ops (items s)" for s :: "'a cells \<times> set_queue"
  proof (induction ops arbitrary: s)
    case (Cons op ops)
    obtain r t where t: "sq_step op s = (r, t)" by (meson surj_pair)
    from sq_step_refines [OF Cons.prems t] Cons.IH [of t] t show ?case by (cases r) auto
  qed simp
  from this [of "(c, new_set_queue)"] show ?thesis by (simp add: sq_ok_def items_def new_set_queue_def)
qed

text \<open>
  The set of a copy refers to the items of the original: when the original has popped one, the
  copy cannot be pushed to any more.
\<close>

lemma copy_dangles:
  assumes "sq_ok (c, q)" "sq_queue q \<noteq> []" "sq_copy q c = (Inr q', c')"
    and "sq_pop (c', q) = (Inr x, (c'', q''))"
  shows "fst (sq_push y (c'', q')) = Inl (Undefined_behaviour ''dangling reference'')"
proof -
  obtain r rs where q: "sq_queue q = r # rs" using assms(2) by (cases "sq_queue q") auto
  have "sq_set q' = sq_queue q"
    using assms(1,3) by (auto simp: sq_copy_def act_simps sq_ok_def split: prod.splits sum.splits)
  moreover have "cl_value c'' r = None"
    using assms(4) q by (auto simp: sq_pop_def sq_front_def sq_find_def act_simps split: option.splits if_splits)
  ultimately show ?thesis by (auto simp: sq_push_def sq_find_def act_simps q)
qed

text \<open>A moved queue is as good as the one it was moved from, which is a new one again.\<close>

lemma moved_queue_ok:
  "sq_ok (c, other) \<Longrightarrow> sq_ok (c, fst (sq_move other)) \<and> items (c, fst (sq_move other)) = items (c, other) \<and>
    sq_ok (c, snd (sq_move other)) \<and> items (c, snd (sq_move other)) = []"
  by (simp add: sq_move_def sq_ok_def items_def new_set_queue_def)

lemma move_assigned_ok:
  assumes "sq_ok (c, other)" "set (sq_queue q) \<inter> set (sq_queue other) = {}"
    and "sq_move_assign False q other c = (Inr (q', other'), c')"
  shows "sq_ok (c', q') \<and> items (c', q') = items (c, other)"
proof -
  have c': "c' = c\<lparr>cl_value := (\<lambda>r. if r \<in> set (sq_queue q) then None else cl_value c r)\<rparr>"
    and q': "sq_queue q' = sq_queue other" "sq_set q' = sq_set other"
    using assms(3) by (auto simp: sq_move_assign_def sq_destroy_def act_simps)
  have "items (c', q') = items (c, other)" unfolding items_def using assms(2) by (auto simp: c' q')
  moreover from this assms(1,2) have "sq_ok (c', q')" by (auto simp: sq_ok_def q' c')
  ultimately show ?thesis by simp
qed

text \<open>An assigned copy has the set of the original, as a copy has.\<close>

lemma assigned_copy_set:
  "sq_copy_assign False q other c = (Inr q', c') \<Longrightarrow> sq_set q' = sq_set other"
  by (auto simp: sq_copy_assign_def act_simps split: sum.splits prod.splits)

end
