(* ===== verification/Locks.thy ===== *)
theory Locks
  imports Prelude
begin

text \<open>
  \<^verbatim>\<open>common/types/concurrent_wrapper.h\<close> and the order in which the market stream of an
  exchange and the paper account take their locks and access the data they share. An operation
  is the sequence of these steps its code makes; threads interleave their steps. The lemmas give
  freedom of data races, the discipline under which no run gets stuck, and the two operations
  that break it.
\<close>

section \<open>Locks and programs\<close>

text \<open>
  The five mutexes: \<^verbatim>\<open>_tradingMutex\<close> of the account (only taken uniquely) and those of the
  wrapped maps of a stream.
\<close>

datatype lock = Trading_mutex | Pairs_lock | Trades_lock | Ohlcv_lock | Order_books_lock

datatype lock_mode = Unique | Shared

text \<open>
  The data shared by threads: what a \<^verbatim>\<open>concurrent_wrapper\<close> holds besides its mutex, and the
  members of the account.
\<close>

datatype account_member = Open_orders | Orders_by_pair | Trailing_limits | Balances | Closed_orders
  | Next_order_number

datatype shared_data = Item lock | Member account_member

datatype access_mode = Reading | Writing

datatype lock_op = Acquire lock lock_mode | Release lock lock_mode | Access shared_data access_mode

text \<open>A locked object holds its lock until the end of its scope.\<close>

definition unique_lock :: "lock \<Rightarrow> lock_op list \<Rightarrow> lock_op list" where
  "unique_lock l body = Acquire l Unique # body @ [Release l Unique]"

definition shared_lock :: "lock \<Rightarrow> lock_op list \<Rightarrow> lock_op list" where
  "shared_lock l body = Acquire l Shared # body @ [Release l Shared]"

section \<open>The operations of a stream\<close>

definition stream_clear_subscriptions :: "lock_op list" where
  "stream_clear_subscriptions =
     unique_lock Trades_lock (unique_lock Ohlcv_lock (unique_lock Order_books_lock
       [Access (Item Trades_lock) Writing, Access (Item Ohlcv_lock) Writing, Access (Item Order_books_lock) Writing]))"

definition stream_subscribe :: "lock_op list" where
  "stream_subscribe = unique_lock Pairs_lock [Access (Item Pairs_lock) Writing]"

text \<open>The lock of the channel an update, a status or a read goes to.\<close>

definition stream_write :: "lock \<Rightarrow> lock_op list" where
  "stream_write channel = unique_lock channel [Access (Item channel) Writing]"

definition stream_read :: "lock \<Rightarrow> lock_op list" where
  "stream_read channel = shared_lock channel [Access (Item channel) Reading]"

text \<open>
  An update stores its value and then fires the handlers, in an expression that looks the pair
  up and keeps the shared lock of the pairs to its end.
\<close>

definition stream_update :: "lock \<Rightarrow> lock_op list \<Rightarrow> lock_op list" where
  "stream_update channel handlers =
     stream_write channel @ shared_lock Pairs_lock (Access (Item Pairs_lock) Reading # handlers)"

section \<open>The operations of the account\<close>

text \<open>
  A try to fill an order, on its longest path: it reads the order and the last trade, updates a
  trailing limit, reads and writes balances, and moves the order from the open to the closed
  ones. An access never blocks, so a try that ends earlier makes no run that is not a run of
  this one.
\<close>

definition account_try_fill :: "lock_op list" where
  "account_try_fill = Access (Member Open_orders) Reading # stream_read Trades_lock @
     [Access (Member Trailing_limits) Writing, Access (Member Balances) Reading, Access (Member Balances) Writing,
      Access (Member Closed_orders) Writing, Access (Member Open_orders) Writing]"

text \<open>A turn of the loop of the handler reads an id, tries the order and erases the id.\<close>

definition account_fills :: "nat \<Rightarrow> lock_op list" where
  "account_fills n = concat (replicate n
     (Access (Member Orders_by_pair) Reading # account_try_fill @ [Access (Member Orders_by_pair) Writing]))"

text \<open>
  The handler tries to fill \<open>n\<close> orders; every try reads the last trade. The queue of a pair that
  has none is created when it is looked up.
\<close>

definition account_trade_handler :: "nat \<Rightarrow> lock_op list" where
  "account_trade_handler n =
     unique_lock Trading_mutex (Access (Member Orders_by_pair) Writing # account_fills n)"

text \<open>An order on a pair that is not subscribed yet subscribes to it.\<close>

definition account_add_order :: "bool \<Rightarrow> lock_op list" where
  "account_add_order unsubscribed = unique_lock Trading_mutex
     ([Access (Member Next_order_number) Writing, Access (Member Open_orders) Writing,
       Access (Member Orders_by_pair) Writing] @
      stream_read Trades_lock @ (if unsubscribed then stream_subscribe else []) @ account_try_fill)"

definition account_add_order_confirm :: "bool \<Rightarrow> lock_op list" where
  "account_add_order_confirm unsubscribed = account_add_order unsubscribed @ stream_read Trades_lock"

definition account_cancel_order :: "lock_op list" where
  "account_cancel_order = unique_lock Trading_mutex
     [Access (Member Open_orders) Reading, Access (Member Open_orders) Writing]"

text \<open>The balances, the open or the closed orders, or the status of an order.\<close>

definition account_read :: "account_member \<Rightarrow> lock_op list" where
  "account_read member = unique_lock Trading_mutex [Access (Member member) Reading]"

datatype operation =
    Subscribe
  | Clear_subscriptions
  | Channel_write lock
  | Channel_read lock
  | Deliver lock nat
  | Add_order_op bool
  | Add_order_confirm_op bool
  | Cancel_order_op
  | Account_read account_member

text \<open>\<open>Deliver\<close> is an update whose handler is the one of the account, with some orders to try.\<close>

fun operation_locks :: "operation \<Rightarrow> lock_op list" where
  "operation_locks Subscribe = stream_subscribe"
| "operation_locks Clear_subscriptions = stream_clear_subscriptions"
| "operation_locks (Channel_write l) = stream_write l"
| "operation_locks (Channel_read l) = stream_read l"
| "operation_locks (Deliver l n) = stream_update l (account_trade_handler n)"
| "operation_locks (Add_order_op unsubscribed) = account_add_order unsubscribed"
| "operation_locks (Add_order_confirm_op unsubscribed) = account_add_order_confirm unsubscribed"
| "operation_locks Cancel_order_op = account_cancel_order"
| "operation_locks (Account_read member) = account_read member"

text \<open>A thread runs one operation after the other.\<close>

definition thread_locks :: "operation list \<Rightarrow> lock_op list" where
  "thread_locks ops = concat (map operation_locks ops)"

section \<open>Interleaving\<close>

type_synonym thread = "lock_op list \<times> (lock \<times> lock_mode) list"

definition start_thread :: "lock_op list \<Rightarrow> thread" where
  "start_thread p = (p, [])"

text \<open>A lock can be shared by readers, and a writer has it for itself.\<close>

definition available :: "thread list \<Rightarrow> lock \<Rightarrow> lock_mode \<Rightarrow> bool" where
  "available ts l m \<longleftrightarrow> (\<forall>(p, h) \<in> set ts. (l, Unique) \<notin> set h \<and> (m = Unique \<longrightarrow> (l, Shared) \<notin> set h))"

inductive lock_step :: "thread list \<Rightarrow> thread list \<Rightarrow> bool" where
  acquire: "i < length ts \<Longrightarrow> ts ! i = (Acquire l m # p, h) \<Longrightarrow> available ts l m \<Longrightarrow>
     lock_step ts (ts[i := (p, (l, m) # h)])"
| release: "i < length ts \<Longrightarrow> ts ! i = (Release l m # p, h) \<Longrightarrow>
     lock_step ts (ts[i := (p, remove1 (l, m) h)])"
| access: "i < length ts \<Longrightarrow> ts ! i = (Access d a # p, h) \<Longrightarrow> lock_step ts (ts[i := (p, h)])"

inductive_cases lock_stepE: "lock_step ts us"

inductive lock_run :: "thread list \<Rightarrow> nat \<Rightarrow> thread list \<Rightarrow> bool" where
  start: "lock_run ts 0 ts"
| more: "lock_run ts n us \<Longrightarrow> lock_step us vs \<Longrightarrow> lock_run ts (Suc n) vs"

definition finished :: "thread list \<Rightarrow> bool" where
  "finished ts \<longleftrightarrow> (\<forall>(p, h) \<in> set ts. p = [])"

definition stuck :: "thread list \<Rightarrow> bool" where
  "stuck ts \<longleftrightarrow> \<not> finished ts \<and> (\<forall>us. \<not> lock_step ts us)"

section \<open>Mutual exclusion\<close>

definition exclusive :: "thread list \<Rightarrow> bool" where
  "exclusive ts \<longleftrightarrow> (\<forall>i < length ts. \<forall>j < length ts. \<forall>l m.
     i \<noteq> j \<longrightarrow> (l, Unique) \<in> set (snd (ts ! i)) \<longrightarrow> (l, m) \<notin> set (snd (ts ! j)))"

lemma available_iff: "available ts l m \<longleftrightarrow>
    (\<forall>k < length ts. (l, Unique) \<notin> set (snd (ts ! k)) \<and> (m = Unique \<longrightarrow> (l, Shared) \<notin> set (snd (ts ! k))))"
  by (auto simp: available_def all_set_conv_all_nth case_prod_beta)

lemma lock_step_exclusive:
  assumes "lock_step ts us" "exclusive ts"
  shows "exclusive us"
  using assms(1)
proof cases
  case (acquire i l m p h)
  have keep: "(k, x) \<in> set (snd (us ! j)) \<Longrightarrow> (k, x) \<in> set (snd (ts ! j)) \<or> j = i \<and> k = l \<and> x = m"
    if "j < length ts" for j k x
    using that acquire by (cases "j = i") auto
  show ?thesis
    unfolding exclusive_def
  proof (intro allI impI)
    fix a b k x
    assume ab: "a < length us" "b < length us" "a \<noteq> b" "(k, Unique) \<in> set (snd (us ! a))"
    show "(k, x) \<notin> set (snd (us ! b))"
    proof
      assume b: "(k, x) \<in> set (snd (us ! b))"
      have len: "a < length ts" "b < length ts" using ab acquire(1) by simp_all
      have x: "x = Unique \<or> x = Shared" by (cases x) simp_all
      show False
        using keep [OF len(1) ab(4)] keep [OF len(2) b] assms(2) ab(3) len acquire(4) x
        unfolding exclusive_def available_iff by blast
    qed
  qed
next
  case (release i l m p h)
  have "set (snd (us ! j)) \<subseteq> set (snd (ts ! j))" if "j < length ts" for j
    using that release set_remove1_subset [of "(l, m)" h] by (cases "j = i") auto
  with assms(2) release(1) show ?thesis unfolding exclusive_def by (simp add: subset_iff) blast
next
  case (access i d a p h)
  have "snd (us ! j) = snd (ts ! j)" if "j < length ts" for j
    using that access by (cases "j = i") auto
  with assms(2) access(1) show ?thesis unfolding exclusive_def by simp
qed

lemma start_exclusive: "exclusive (map start_thread ps)"
  by (simp add: exclusive_def start_thread_def)

lemma run_exclusive: "lock_run ts n us \<Longrightarrow> exclusive ts \<Longrightarrow> exclusive us"
  by (induction rule: lock_run.induct) (auto intro: lock_step_exclusive)

section \<open>Data races\<close>

text \<open>The lock that guards a piece of shared data.\<close>

fun guard :: "shared_data \<Rightarrow> lock" where
  "guard (Item l) = l"
| "guard (Member m) = Trading_mutex"

text \<open>A program that makes its accesses under the lock of the data, writes under a unique one.\<close>

fun under_lock :: "lock_op list \<Rightarrow> (lock \<times> lock_mode) list \<Rightarrow> bool" where
  "under_lock [] h \<longleftrightarrow> True"
| "under_lock (Acquire l m # p) h \<longleftrightarrow> under_lock p ((l, m) # h)"
| "under_lock (Release l m # p) h \<longleftrightarrow> under_lock p (remove1 (l, m) h)"
| "under_lock (Access d a # p) h \<longleftrightarrow>
     ((guard d, Unique) \<in> set h \<or> a = Reading \<and> (guard d, Shared) \<in> set h) \<and> under_lock p h"

definition all_under_lock :: "thread list \<Rightarrow> bool" where
  "all_under_lock ts \<longleftrightarrow> (\<forall>i < length ts. under_lock (fst (ts ! i)) (snd (ts ! i)))"

lemma lock_step_under_lock:
  assumes "lock_step ts us" "all_under_lock ts"
  shows "all_under_lock us"
  using assms by (cases rule: lock_step.cases) (fastforce simp: all_under_lock_def nth_list_update)+

lemma run_under_lock: "lock_run ts n us \<Longrightarrow> all_under_lock ts \<Longrightarrow> all_under_lock us"
  by (induction rule: lock_run.induct) (auto intro: lock_step_under_lock)

text \<open>What holds of a balanced piece of a program holds of it before any other piece.\<close>

fun held_after :: "lock_op list \<Rightarrow> (lock \<times> lock_mode) list \<Rightarrow> (lock \<times> lock_mode) list" where
  "held_after [] h = h"
| "held_after (Acquire l m # p) h = held_after p ((l, m) # h)"
| "held_after (Release l m # p) h = held_after p (remove1 (l, m) h)"
| "held_after (Access d a # p) h = held_after p h"

lemma under_lock_append: "under_lock (p @ q) h \<longleftrightarrow> under_lock p h \<and> under_lock q (held_after p h)"
  by (induction p h rule: under_lock.induct) auto

lemma held_after_append: "held_after (p @ q) h = held_after q (held_after p h)"
  by (induction p h rule: under_lock.induct) auto

lemmas operation_defs = stream_subscribe_def stream_clear_subscriptions_def stream_write_def stream_read_def
  stream_update_def account_try_fill_def account_add_order_def account_add_order_confirm_def
  account_cancel_order_def account_read_def account_trade_handler_def unique_lock_def shared_lock_def

lemma fills_under_lock:
  "(Trading_mutex, Unique) \<in> set h \<Longrightarrow> under_lock (account_fills n) h \<and> held_after (account_fills n) h = h"
  by (induction n) (auto simp: account_fills_def operation_defs under_lock_append held_after_append)

lemma operation_under_lock: "under_lock (operation_locks op) [] \<and> held_after (operation_locks op) [] = []"
  by (cases op) (auto simp: operation_defs under_lock_append held_after_append fills_under_lock)

lemma thread_under_lock: "under_lock (thread_locks ops) []"
  by (induction ops) (simp_all add: thread_locks_def under_lock_append operation_under_lock)

text \<open>
  C20: the operations of streams and accounts have no data race: however threads that run any
  of them interleave, whenever two threads are about to access the same map of a stream or the
  same member of an account, both accesses are reads.
\<close>

theorem operations_race_free:
  assumes "lock_run (map (\<lambda>ops. start_thread (thread_locks ops)) threads) n ts"
    and "i < length ts" "j < length ts" "i \<noteq> j"
    and "fst (ts ! i) = Access d a # p" "fst (ts ! j) = Access d b # q"
  shows "a = Reading \<and> b = Reading"
proof -
  let ?s = "map (\<lambda>ops. start_thread (thread_locks ops)) threads"
  have "all_under_lock ?s" by (simp add: all_under_lock_def start_thread_def thread_under_lock)
  from run_under_lock [OF assms(1) this] assms(2,3,5,6)
  have "under_lock (Access d a # p) (snd (ts ! i))" "under_lock (Access d b # q) (snd (ts ! j))"
    unfolding all_under_lock_def by metis+
  moreover have "exclusive ts"
    by (rule run_exclusive [OF assms(1)]) (simp add: exclusive_def start_thread_def)
  ultimately show ?thesis using assms(2-4) unfolding exclusive_def under_lock.simps by blast
qed

text \<open>Two readers may access the last trades at the same time.\<close>

theorem operations_race_free_witness:
  "\<exists>ts. lock_run (map (\<lambda>ops. start_thread (thread_locks ops)) [[Channel_read Trades_lock], [Channel_read Trades_lock]]) 2 ts \<and>
    (\<exists>a b p q. fst (ts ! 0) = Access (Item Trades_lock) a # p \<and> fst (ts ! 1) = Access (Item Trades_lock) b # q \<and>
      a = Reading \<and> b = Reading)"
proof -
  let ?p = "[Access (Item Trades_lock) Reading, Release Trades_lock Shared]"
  let ?s = "map (\<lambda>ops. start_thread (thread_locks ops)) [[Channel_read Trades_lock], [Channel_read Trades_lock]]"
  let ?u = "?s[0 := (?p, [(Trades_lock, Shared)])]"
  let ?t = "?u[1 := (?p, [(Trades_lock, Shared)])]"
  have "lock_step ?s ?u" "lock_step ?u ?t"
    by (rule lock_step.acquire; simp add: start_thread_def thread_locks_def operation_defs available_def)+
  with lock_run.more [OF lock_run.more [OF lock_run.start]] have r: "lock_run ?s (Suc (Suc 0)) ?t" by blast
  from operations_race_free [OF r, of 0 1] r show ?thesis
    by (intro exI [of _ ?t]) (simp add: numeral_2_eq_2)
qed

section \<open>The lock order\<close>

definition rank :: "lock \<Rightarrow> nat" where
  "rank l = (case l of Pairs_lock \<Rightarrow> 0 | Trading_mutex \<Rightarrow> 1 | Trades_lock \<Rightarrow> 2 | Ohlcv_lock \<Rightarrow> 3
     | Order_books_lock \<Rightarrow> 4)"

text \<open>A program that takes its locks upwards, releases what it holds and ends with nothing.\<close>

fun ordered :: "lock_op list \<Rightarrow> (lock \<times> lock_mode) list \<Rightarrow> bool" where
  "ordered [] h \<longleftrightarrow> h = []"
| "ordered (Acquire l m # p) h \<longleftrightarrow> (\<forall>(k, _) \<in> set h. rank k < rank l) \<and> ordered p ((l, m) # h)"
| "ordered (Release l m # p) h \<longleftrightarrow> (l, m) \<in> set h \<and> ordered p (remove1 (l, m) h)"
| "ordered (Access d a # p) h \<longleftrightarrow> ordered p h"

definition all_ordered :: "thread list \<Rightarrow> bool" where
  "all_ordered ts \<longleftrightarrow> (\<forall>(p, h) \<in> set ts. ordered p h)"

definition steps_left :: "thread list \<Rightarrow> nat" where
  "steps_left ts = sum_list (map (\<lambda>(p, h). length p) ts)"

lemma all_ordered_update:
  assumes "all_ordered ts" "ordered p h"
  shows "all_ordered (ts[i := (p, h)])"
  using assms set_update_subset_insert [of ts i "(p, h)"] unfolding all_ordered_def by blast

lemma all_ordered_nth: "all_ordered ts \<Longrightarrow> i < length ts \<Longrightarrow> ts ! i = (p, h) \<Longrightarrow> ordered p h"
  unfolding all_ordered_def by (metis (mono_tags, lifting) case_prod_conv nth_mem)

lemma steps_left_update:
  assumes "i < length ts" "ts ! i = (x # p, h)"
  shows "steps_left ts = Suc (steps_left (ts[i := (p, h')]))"
proof -
  have "ts = take i ts @ (x # p, h) # drop (Suc i) ts" using assms by (metis id_take_nth_drop)
  moreover have "ts[i := (p, h')] = take i ts @ (p, h') # drop (Suc i) ts"
    using assms(1) by (rule upd_conv_take_nth_drop)
  moreover have "steps_left (xs @ y # ys) = steps_left xs + length (fst y) + steps_left ys" for xs y ys
    by (simp add: steps_left_def case_prod_beta)
  ultimately show ?thesis by (metis add_Suc add_Suc_right fst_conv length_Cons)
qed

lemma lock_step_ordered:
  assumes "lock_step ts us" "all_ordered ts"
  shows "all_ordered us \<and> steps_left ts = Suc (steps_left us)"
  using assms(1)
proof cases
  case (acquire i l m p h)
  from all_ordered_nth [OF assms(2) acquire(2,3)] have "ordered p ((l, m) # h)" by simp
  with acquire assms(2) show ?thesis
    by (auto intro: all_ordered_update dest: steps_left_update [of i ts _ _ _ "(l, m) # h"])
next
  case (release i l m p h)
  from all_ordered_nth [OF assms(2) release(2,3)] have "ordered p (remove1 (l, m) h)" by simp
  with release assms(2) show ?thesis
    by (auto intro: all_ordered_update dest: steps_left_update [of i ts _ _ _ "remove1 (l, m) h"])
next
  case (access i d a p h)
  from all_ordered_nth [OF assms(2) access(2,3)] have "ordered p h" by simp
  with access assms(2) show ?thesis
    by (auto intro: all_ordered_update dest: steps_left_update [of i ts _ _ _ h])
qed

lemma ordered_progress:
  assumes "all_ordered ts" "\<not> finished ts"
  shows "\<exists>us. lock_step ts us"
proof (rule ccontr)
  assume none: "\<not> ?thesis"
  define waits where "waits = (\<lambda>l. \<exists>i m p h. i < length ts \<and> ts ! i = (Acquire l m # p, h))"
  have waiting: "\<exists>l m q. waits l \<and> p = Acquire l m # q" if "i < length ts" "ts ! i = (p, h)" "p \<noteq> []" for i p h
  proof (cases p)
    case (Cons x q)
    show ?thesis
    proof (cases x)
      case (Acquire l m)
      with that Cons show ?thesis by (auto simp: waits_def)
    next
      case (Release l m)
      with none that Cons lock_step.release [of i ts l m q h] show ?thesis by simp
    next
      case (Access d a)
      with none that Cons lock_step.access [of i ts d a q h] show ?thesis by simp
    qed
  qed (use that in simp)
  obtain i p h where "i < length ts" "ts ! i = (p, h)" "p \<noteq> []"
    using assms(2) unfolding finished_def by (auto simp: in_set_conv_nth)
  with waiting obtain l0 where "waits l0" by blast
  moreover have "rank l < 5" for l by (cases l) (simp_all add: rank_def)
  ultimately obtain l where l: "waits l" "\<And>k. waits k \<Longrightarrow> rank k \<le> rank l"
    using ex_has_greatest_nat [of waits l0 rank 5] by (metis less_imp_le)
  then obtain a m q ha where a: "a < length ts" "ts ! a = (Acquire l m # q, ha)" by (auto simp: waits_def)
  with none lock_step.acquire have "\<not> available ts l m" by blast
  then obtain b hb pb n where b: "b < length ts" "ts ! b = (pb, hb)" "(l, n) \<in> set hb"
    unfolding available_iff by (metis prod.collapse)
  from all_ordered_nth [OF assms(1) b(1,2)] b(3) have "pb \<noteq> []" by (cases pb) auto
  with waiting [OF b(1,2)] obtain k m' q' where k: "waits k" "pb = Acquire k m' # q'" by blast
  with all_ordered_nth [OF assms(1) b(1,2)] b(3) have "rank l < rank k" by auto
  with l(2) [OF k(1)] show False by simp
qed

lemma ordered_append: "ordered p h \<Longrightarrow> ordered q [] \<Longrightarrow> ordered (p @ q) h"
  by (induction p h rule: ordered.induct) auto

text \<open>The operations but the one that subscribes under the mutex of the account.\<close>

fun in_lock_order :: "operation \<Rightarrow> bool" where
  "in_lock_order (Add_order_op unsubscribed) = (\<not> unsubscribed)"
| "in_lock_order (Add_order_confirm_op unsubscribed) = (\<not> unsubscribed)"
| "in_lock_order op = True"

lemma fills_ordered:
  "\<forall>(k, _) \<in> set h. rank k < rank Trades_lock \<Longrightarrow> ordered q h \<Longrightarrow> ordered (account_fills n @ q) h"
  by (induction n) (auto simp: account_fills_def operation_defs)

lemma operation_ordered: "in_lock_order op \<Longrightarrow> ordered (operation_locks op) []"
proof (cases op)
  case (Deliver l n)
  have "ordered (account_fills n @ [Release Trading_mutex Unique, Release Pairs_lock Shared])
      [(Trading_mutex, Unique), (Pairs_lock, Shared)]"
    by (rule fills_ordered) (simp_all add: rank_def)
  with Deliver show ?thesis by (simp add: operation_defs rank_def)
qed (simp_all add: operation_defs rank_def)

lemma thread_ordered: "list_all in_lock_order ops \<Longrightarrow> ordered (thread_locks ops) []"
  by (induction ops) (auto simp: thread_locks_def intro: ordered_append operation_ordered)

lemma run_ordered:
  "lock_run ts n us \<Longrightarrow> all_ordered ts \<Longrightarrow> all_ordered us \<and> steps_left ts = n + steps_left us"
  by (induction rule: lock_run.induct) (auto dest!: lock_step_ordered)

lemma finished_steps: "finished ts \<Longrightarrow> steps_left ts = 0"
  by (auto simp: finished_def steps_left_def)

lemma ordered_completes: "all_ordered ts \<Longrightarrow> \<exists>us. lock_run ts (steps_left ts) us \<and> finished us"
proof -
  have "all_ordered us \<Longrightarrow> lock_run ts n us \<Longrightarrow> \<exists>vs. lock_run ts (n + steps_left us) vs \<and> finished vs" for us n
  proof (induction "steps_left us" arbitrary: us n)
    case 0
    then have "finished us" using ordered_progress [of us] lock_step_ordered [of us] by fastforce
    with 0 show ?case by auto
  next
    case (Suc k)
    then have "\<not> finished us" using finished_steps [of us] by auto
    with ordered_progress Suc.prems(1) obtain vs where vs: "lock_step us vs" by blast
    with lock_step_ordered Suc.prems(1) have "all_ordered vs" "steps_left us = Suc (steps_left vs)" by auto
    with Suc.hyps(1) [of vs "Suc n"] Suc.hyps(2) lock_run.more [OF Suc.prems(2) vs] show ?case by simp
  qed
  from this [OF _ lock_run.start] show "all_ordered ts \<Longrightarrow> ?thesis" by simp
qed

text \<open>
  C21: threads that run any mix of stream and account operations, deliveries to the trade
  handler among them, and place orders only on pairs that are subscribed, never block each
  other for good: every run can go on to its end and has at most as many steps as there are
  lock operations and accesses.
\<close>

theorem operations_complete:
  assumes "list_all (list_all in_lock_order) threads"
    and "lock_run (map (\<lambda>ops. start_thread (thread_locks ops)) threads) n ts"
  shows "\<not> stuck ts \<and> (\<exists>us. lock_run ts (steps_left ts) us \<and> finished us) \<and>
    n + steps_left ts = sum_list (map (\<lambda>ops. length (thread_locks ops)) threads)"
proof -
  let ?s = "map (\<lambda>ops. start_thread (thread_locks ops)) threads"
  have "all_ordered ?s"
    using assms(1) by (auto simp: all_ordered_def start_thread_def list_all_iff intro: thread_ordered)
  from run_ordered [OF assms(2) this] have o: "all_ordered ts" "steps_left ?s = n + steps_left ts" by auto
  have "steps_left ?s = sum_list (map (\<lambda>ops. length (thread_locks ops)) threads)"
    by (simp add: steps_left_def start_thread_def comp_def)
  with o ordered_completes [OF o(1)] ordered_progress [OF o(1)] show ?thesis by (auto simp: stuck_def)
qed

theorem operations_complete_witness:
  "\<not> stuck (map (\<lambda>ops. start_thread (thread_locks ops)) [[Add_order_op False], [Deliver Trades_lock 2]])"
  using operations_complete [of "[[Add_order_op False], [Deliver Trades_lock 2]]", OF _ lock_run.start] by simp

section \<open>The deadlocks\<close>

text \<open>The step of one thread, as a function.\<close>

definition next_step :: "nat \<Rightarrow> thread list \<Rightarrow> thread list option" where
  "next_step i ts = (case ts ! i of
       (Acquire l m # p, h) \<Rightarrow> if available ts l m then Some (ts[i := (p, (l, m) # h)]) else None
     | (Release l m # p, h) \<Rightarrow> Some (ts[i := (p, remove1 (l, m) h)])
     | (Access d a # p, h) \<Rightarrow> Some (ts[i := (p, h)])
     | ([], h) \<Rightarrow> None)"

lemma next_step_sound: "i < length ts \<Longrightarrow> next_step i ts = Some us \<Longrightarrow> lock_step ts us"
  by (auto simp: next_step_def split: prod.splits list.splits lock_op.splits if_splits
      intro: lock_step.intros)

lemma next_step_complete: "lock_step ts us \<Longrightarrow> \<exists>i < length ts. next_step i ts = Some us"
  by (erule lock_stepE) (auto simp: next_step_def)

fun schedule :: "nat list \<Rightarrow> thread list \<Rightarrow> thread list option" where
  "schedule [] ts = Some ts"
| "schedule (i # is) ts = (if i < length ts then (case next_step i ts of None \<Rightarrow> None | Some us \<Rightarrow> schedule is us)
     else None)"

lemma schedule_run: "schedule is ts = Some us \<Longrightarrow> lock_run rs n ts \<Longrightarrow> lock_run rs (n + length is) us"
proof (induction "is" arbitrary: ts n)
  case (Cons i "is")
  then obtain vs where vs: "lock_step ts vs" "schedule is vs = Some us"
    by (auto split: if_splits option.splits intro: next_step_sound)
  from Cons.IH [OF vs(2) lock_run.more [OF Cons.prems(2) vs(1)]] show ?case by simp
qed simp

lemma stuckI: "\<not> finished ts \<Longrightarrow> list_all (\<lambda>i. next_step i ts = None) [0..<length ts] \<Longrightarrow> stuck ts"
  by (auto simp: stuck_def list_all_iff dest!: next_step_complete)

text \<open>
  C37: placing an order on a pair that is not subscribed can deadlock with the delivery of a
  trade: the order holds the mutex of the account and waits for the pairs, the delivery holds
  the pairs and waits for the mutex.
\<close>

theorem add_order_deadlocks_with_delivery:
  "\<exists>n ts. lock_run (map (\<lambda>ops. start_thread (thread_locks ops)) [[Add_order_op True], [Deliver Trades_lock 1]]) n ts \<and>
    stuck ts"
proof -
  let ?s = "map (\<lambda>ops. start_thread (thread_locks ops)) [[Add_order_op True], [Deliver Trades_lock 1]]"
  let ?t = "the (schedule [0, 0, 0, 0, 1, 1, 1, 1, 1, 0, 0, 0] ?s)"
  have "schedule [0, 0, 0, 0, 1, 1, 1, 1, 1, 0, 0, 0] ?s = Some ?t" by code_simp
  from schedule_run [OF this lock_run.start] have "lock_run ?s (0 + length [0, 0, 0, 0, 1, 1, 1, 1, 1, 0, 0, 0 :: nat]) ?t" .
  moreover have "\<not> finished ?t" by code_simp
  moreover have "list_all (\<lambda>i. next_step i ?t = None) [0..<length ?t]" by code_simp
  ultimately show ?thesis using stuckI by blast
qed

text \<open>
  The two operations take their locks in opposite orders, and a handler that subscribes waits
  for the pairs its own delivery holds.
\<close>

lemma subscribing_handler_stuck:
  "\<exists>n ts. lock_run [start_thread (stream_update Trades_lock stream_subscribe)] n ts \<and> stuck ts"
proof -
  let ?s = "[start_thread (stream_update Trades_lock stream_subscribe)]"
  let ?t = "the (schedule [0, 0, 0, 0, 0] ?s)"
  have "schedule [0, 0, 0, 0, 0] ?s = Some ?t" by code_simp
  from schedule_run [OF this lock_run.start] have "lock_run ?s (0 + length [0, 0, 0, 0, 0 :: nat]) ?t" .
  moreover have "\<not> finished ?t" by code_simp
  moreover have "list_all (\<lambda>i. next_step i ?t = None) [0..<length ?t]" by code_simp
  ultimately show ?thesis using stuckI by blast
qed

end
