(* ===== verification/ExchangeResults.thy ===== *)
theory ExchangeResults
  imports Json Trading Runner
begin

text \<open>
  What the readers of the exchanges' answers (\<^verbatim>\<open>*_results.cpp\<close>) share: an answer is
  parsed, checked for the error the exchange reports, and read; any exception on the way makes
  the result a failure. Where a call reads several members in its arguments, the model reads
  them from left to right. The locale \<open>answer_reader\<close> is what a request relies on: a reader
  fails, it does not throw.
\<close>

section \<open>Failures\<close>

fun what :: "exn \<Rightarrow> string" where
  "what (Mb_exception m) = m"
| "what (Validation_exception m) = m"
| "what (Not_implemented_exception m) = m"
| "what (Invalid_argument m) = m"
| "what (Out_of_range m) = m"
| "what (Length_error m) = m"
| "what Bad_variant_access = ''bad_variant_access''"
| "what (Json_exception m) = m"
| "what (Logic_error m) = m"
| "what (Runtime_error m) = m"
| "what (Undefined_behaviour m) = m"

text \<open>\<^verbatim>\<open>catch (const std::exception& e)\<close>: undefined behaviour is not caught.\<close>

definition try_result :: "'v result res \<Rightarrow> 'v result res" where
  "try_result r = (case r of Inr x \<Rightarrow> Inr x
     | Inl e \<Rightarrow> if is_undefined e then Inl e else Inr (Fail (what e)))"

definition success :: "'v res \<Rightarrow> 'v result res" where
  "success r = res_map Success r"

lemma try_result_cases:
  "(\<exists>x. try_result r = Inr x) \<or> (\<exists>m. try_result r = Inl (Undefined_behaviour m))"
proof (cases r)
  case (Inl e)
  then show ?thesis by (cases e) (simp_all add: try_result_def)
qed (simp add: try_result_def)

locale answer_reader =
  fixes reader :: "string \<Rightarrow> 'v result res"
  assumes no_throw: "reader text = Inl e \<Longrightarrow> is_undefined e"
begin

lemma request_outcome:
  assumes "send_http_request (Inr response) reader = r"
  shows "(\<exists>v. r = Inr v \<and> hr_responseCode response = 200 \<and> reader (hr_message response) = Inr (Success v)) \<or>
    (\<exists>m. r = Inl (Mb_exception m)) \<or> (\<exists>m. r = Inl (Undefined_behaviour m))"
proof (cases "reader (hr_message response)")
  case (Inl e)
  with no_throw have "is_undefined e" by blast
  with Inl assms show ?thesis by (cases e) (auto simp: send_http_request_def split: if_splits)
next
  case (Inr x)
  with assms show ?thesis
    by (cases x) (auto simp: send_http_request_def split: if_splits)
qed

end

lemma try_result_no_throw: "try_result r = Inl e \<Longrightarrow> is_undefined e"
  by (auto simp: try_result_def split: sum.splits if_splits)

section \<open>Reading loops\<close>

text \<open>
  The loop over both sides of an order book, as long as the longer side, by iterators or by index.
\<close>

fun book_loop ::
    "('j \<Rightarrow> 'a res) \<Rightarrow> ('k \<Rightarrow> 'b res) \<Rightarrow> 'j list \<Rightarrow> 'k list \<Rightarrow> ('a list \<times> 'b list) res" where
  "book_loop ask bid [] [] = Inr ([], [])"
| "book_loop ask bid (a # as) [] =
     res_bind (ask a) (\<lambda>x. res_map (\<lambda>(xs, ys). (x # xs, ys)) (book_loop ask bid as []))"
| "book_loop ask bid [] (b # bs) =
     res_bind (bid b) (\<lambda>y. res_map (\<lambda>(xs, ys). (xs, y # ys)) (book_loop ask bid [] bs))"
| "book_loop ask bid (a # as) (b # bs) =
     res_bind (ask a) (\<lambda>x. res_bind (bid b) (\<lambda>y.
       res_map (\<lambda>(xs, ys). (x # xs, y # ys)) (book_loop ask bid as bs)))"

lemma book_loop_sides:
  "res_traverse ask as = Inr xs \<Longrightarrow> res_traverse bid bs = Inr ys \<Longrightarrow> book_loop ask bid as bs = Inr (xs, ys)"
  by (induction ask bid as bs arbitrary: xs ys rule: book_loop.induct) (auto simp: res_bind_Inr_iff)

text \<open>A level \<open>[price, volume]\<close>, written as strings or as numbers.\<close>

definition entry_of :: "(json \<Rightarrow> double res) \<Rightarrow> order_book_side \<Rightarrow> json \<Rightarrow> order_book_entry res" where
  "entry_of get side element =
     res_bind (item get element 0) (\<lambda>price.
     res_bind (item get element 1) (\<lambda>volume.
     Inr \<lparr>oe_price = price, oe_volume = volume, oe_side = side\<rparr>))"

definition entry_at :: "order_book_side \<Rightarrow> json \<Rightarrow> int \<Rightarrow> order_book_entry res" where
  "entry_at side json i = res_bind (json_index json i) (entry_of get_stod side)"

definition indices :: "json \<Rightarrow> int list" where
  "indices json = map int [0..<json_size json]"

text \<open>Both sides of a document, each put into the set of its side.\<close>

definition read_cache :: "time_t \<Rightarrow> json \<Rightarrow> json \<Rightarrow> order_book_cache res" where
  "read_cache timeStamp asks bids =
     res_map (\<lambda>(as, bs). \<lparr>bc_lastUpdate = timeStamp, bc_asks = fold (set_insert entry_less_than) as [],
         bc_bids = fold (set_insert entry_greater_than) bs []\<rparr>)
       (book_loop (entry_at ASK asks) (entry_at BID bids) (indices asks) (indices bids))"

text \<open>Reading by index what can be read element by element.\<close>

lemma entry_at_indices:
  "res_traverse (entry_of get_stod side) xs = Inr es \<Longrightarrow> res_traverse (entry_at side (JArray xs)) (indices (JArray xs)) = Inr es"
proof -
  assume es: "res_traverse (entry_of get_stod side) xs = Inr es"
  then have l: "length es = length xs" and e: "\<And>i. i < length xs \<Longrightarrow> entry_of get_stod side (xs ! i) = Inr (es ! i)"
    using res_traverse_Inr [OF es] by (auto simp: list_all2_conv_all_nth)
  have "res_traverse (entry_at side (JArray xs)) (map int [0..<length xs]) = Inr (map (\<lambda>i. es ! i) [0..<length xs])"
    by (rule res_traverse_nth) (simp_all add: entry_at_def read_at_def e)
  also have "map (\<lambda>i. es ! i) [0..<length xs] = es" using l by (metis map_nth)
  finally show ?thesis by (simp add: indices_def)
qed

lemma res_traverse_take: "res_traverse f xs = Inr ys \<Longrightarrow> res_traverse f (take n xs) = Inr (take n ys)"
  by (induction xs arbitrary: ys n) (auto simp: res_bind_Inr_iff take_Cons split: nat.split)

lemma entry_of_side: "res_traverse (entry_of get side) xs = Inr es \<Longrightarrow> e \<in> set es \<Longrightarrow> oe_side e = side"
  by (induction xs arbitrary: es) (auto simp: res_bind_Inr_iff entry_of_def)

text \<open>The indices \<open>0 .. limit - 1\<close> of a vector that is reserved first.\<close>

definition read_limited :: "(int \<Rightarrow> 'a res) \<Rightarrow> int \<Rightarrow> 'a list res" where
  "read_limited read limit =
     (if limit < 0 then Inl (Length_error ''vector::reserve'')
      else res_traverse read (map int [0..<nat limit]))"

text \<open>Each candle is put in front of those read before.\<close>

definition read_reversed :: "(json \<Rightarrow> 'a res) \<Rightarrow> json list \<Rightarrow> 'a list res" where
  "read_reversed read xs = res_map rev (res_traverse read xs)"

definition candle_of ::
    "(json \<Rightarrow> double res) \<Rightarrow> (time_t \<Rightarrow> time_t) \<Rightarrow> int list \<Rightarrow> json \<Rightarrow> ohlcv_data res" where
  "candle_of get unit columns element =
     res_bind (item get_time element 0) (\<lambda>time.
     res_bind (res_traverse (item get element) columns) (\<lambda>values.
     (case values of [p, h, l, c, v] \<Rightarrow>
          Inr \<lparr>oh_timeStamp = unit time, oh_open = p, oh_high = h, oh_low = l, oh_close = c, oh_volume = v\<rparr>
        | _ \<Rightarrow> Inl (Undefined_behaviour ''five columns''))))"

text \<open>A candle of named members, its time in milliseconds.\<close>

definition named_candle :: "json \<Rightarrow> ohlcv_data res" where
  "named_candle element =
     res_bind (member get_time element ''t'') (\<lambda>time.
     res_bind (member get_stod element ''o'') (\<lambda>p. res_bind (member get_stod element ''h'') (\<lambda>h.
     res_bind (member get_stod element ''l'') (\<lambda>l. res_bind (member get_stod element ''c'') (\<lambda>c.
     res_bind (member get_stod element ''v'') (\<lambda>v.
     Inr \<lparr>oh_timeStamp = time sdiv 1000, oh_open = p, oh_high = h, oh_low = l, oh_close = c, oh_volume = v\<rparr>))))))"

section \<open>Messages of a stream\<close>

text \<open>What the handlers of each kind do with a message, and what sending a message does.\<close>

record ('h, 'c, 'w) stream_calls =
  sc_trade :: "'h \<Rightarrow> trade_update_message \<Rightarrow> ('h, 'c, 'w, unit) ws_action"
  sc_ohlcv :: "'h \<Rightarrow> ohlcv_update_message \<Rightarrow> ('h, 'c, 'w, unit) ws_action"
  sc_book :: "'h \<Rightarrow> order_book_update_message \<Rightarrow> ('h, 'c, 'w, unit) ws_action"

text \<open>A step that reads the document before it goes on.\<close>

definition reading :: "'a res \<Rightarrow> ('a \<Rightarrow> ('s, 'b) action) \<Rightarrow> ('s, 'b) action" where
  "reading r f = act_bind (act_res (\<lambda>_. r)) f"

lemma reading_Inr [simp]: "reading (Inr a) f = f a"
  by (simp add: reading_def act_res_Inr_seq)

lemma reading_Inl [simp]: "reading (Inl e) f s = (Inl e, s)"
  by (simp add: reading_def act_simps)

text \<open>A loop over elements, of which each is read before its update.\<close>

definition read_updates :: "('j \<Rightarrow> 'a res) \<Rightarrow> ('a \<Rightarrow> ('s, unit) action) \<Rightarrow> 'j list \<Rightarrow> ('s, unit) action" where
  "read_updates read update xs = act_iter (\<lambda>x. reading (read x) update) xs"

text \<open>
  The streams that build their own candles keep the stream in the service that the candles are
  built in: an operation of the stream is one of its client.
\<close>

abbreviation on_ws :: "(('h, 'c, 'w) websocket_stream, 'a) action \<Rightarrow>
    (('h, 'c, 'w) websocket_stream ohlcv_subscription_service, 'a) action" where
  "on_ws \<equiv> in_state os_client (\<lambda>w s. s\<lparr>os_client := w\<rparr>)"

text \<open>A trade is delivered, then put into the candles of the subscribed intervals of its pair.\<close>

definition trade_and_candles ::
    "('h, 'c, 'w) stream_calls \<Rightarrow> string \<Rightarrow> trade_update \<Rightarrow>
     (('h, 'c, 'w) websocket_stream ohlcv_subscription_service, unit) action" where
  "trade_and_candles calls pairName trade =
     act_seq (on_ws (ws_update_trade (sc_trade calls) pairName trade))
       (act_bind (act_read (\<lambda>s. os_is_subscribed s pairName)) (\<lambda>subscribed.
          if subscribed
          then os_update_ohlcv (ws_update_ohlcv (sc_ohlcv calls)) pairName
                 (tu_timeStamp trade) (tu_price trade) (tu_volume trade)
          else act_return ()))"

lemma read_updates_all:
  "res_traverse read xs = Inr ys \<Longrightarrow> read_updates read update xs s = act_iter update ys s"
proof (induction xs arbitrary: ys s)
  case (Cons x xs)
  then obtain y zs where "read x = Inr y" "res_traverse read xs = Inr zs" "ys = y # zs"
    by (auto simp: res_bind_Inr_iff)
  with Cons.IH show ?case by (simp add: read_updates_def act_bind_def split: prod.split sum.split)
qed (simp add: read_updates_def)

text \<open>
  Where the handlers record their calls, a run of updates for a known pair stores the last of
  them and calls every handler once for each, in order.
\<close>

lemma logged_trade:
  "ws_pairs s name = Some p \<Longrightarrow> ws_update_trade log_call name t s =
    (Inr (), s\<lparr>ws_trades := (ws_trades s)(name \<mapsto> t),
      ws_client := ws_client s @ map (\<lambda>h. (h, \<lparr>tm_pair = p, tm_trade = t\<rparr>)) (ws_tradeUpdateHandlers s)\<rparr>)"
  by (simp add: ws_update_trade_def act_simps store_trade_def with_shared_pair_def fire_trade_update_def
      fire_handlers_def log_calls)

lemma logged_trades:
  "ws_pairs s name = Some p \<Longrightarrow> act_iter (ws_update_trade log_call name) us s =
    (Inr (), s\<lparr>ws_trades := (if us = [] then ws_trades s else (ws_trades s)(name \<mapsto> last us)),
      ws_client := ws_client s @ concat (map (\<lambda>t. map (\<lambda>h. (h, \<lparr>tm_pair = p, tm_trade = t\<rparr>))
        (ws_tradeUpdateHandlers s)) us)\<rparr>)"
  by (induction us arbitrary: s) (simp_all add: act_bind_def logged_trade)

lemma logged_book_update:
  "ws_pairs s name = Some p \<Longrightarrow> ws_orderBooks s name = Some cache \<Longrightarrow>
    ws_update_order_book log_call name t e s =
    (Inr (), s\<lparr>ws_orderBooks := (ws_orderBooks s)(name \<mapsto> update_cache t e cache),
      ws_client := ws_client s @ map (\<lambda>h. (h, \<lparr>bm_pair = p, bm_entry = e\<rparr>)) (ws_orderBookUpdateHandlers s)\<rparr>)"
  by (simp add: ws_update_order_book_def act_simps store_order_book_def with_shared_pair_def
      fire_order_book_update_def fire_handlers_def log_calls)

text \<open>Updates of a book, each an entry and its time.\<close>

lemma logged_book_updates:
  "ws_pairs s name = Some p \<Longrightarrow> ws_orderBooks s name = Some cache \<Longrightarrow>
    act_iter (\<lambda>(e, t). ws_update_order_book log_call name t e) us s =
    (Inr (), s\<lparr>ws_orderBooks := (ws_orderBooks s)(name \<mapsto> cache_run cache (map (\<lambda>(e, t). (t, e)) us)),
      ws_client := ws_client s @ concat (map (\<lambda>(e, t). map (\<lambda>h. (h, \<lparr>bm_pair = p, bm_entry = e\<rparr>))
        (ws_orderBookUpdateHandlers s)) us)\<rparr>)"
  by (induction us arbitrary: s cache)
    (auto simp: act_bind_def logged_book_update cache_run_def fun_upd_idem)

lemma act_iter_map: "act_iter f (map g xs) s = act_iter (\<lambda>x. f (g x)) xs s"
  by (induction xs arbitrary: s) (simp_all add: act_bind_def split: prod.split sum.split)

lemma act_iter_append: "act_iter f (xs @ ys) s = act_seq (act_iter f xs) (act_iter f ys) s"
  by (induction xs arbitrary: s) (auto simp: act_bind_def split: prod.split sum.split)

lemma logged_book_entries:
  "ws_pairs s name = Some p \<Longrightarrow> ws_orderBooks s name = Some cache \<Longrightarrow>
    act_iter (ws_update_order_book log_call name t) es s =
    (Inr (), s\<lparr>ws_orderBooks := (ws_orderBooks s)(name \<mapsto> cache_run cache (map (Pair t) es)),
      ws_client := ws_client s @ concat (map (\<lambda>e. map (\<lambda>h. (h, \<lparr>bm_pair = p, bm_entry = e\<rparr>))
        (ws_orderBookUpdateHandlers s)) es)\<rparr>)"
  using logged_book_updates [of s name p cache "map (\<lambda>e. (e, t)) es"]
  by (simp add: act_iter_map o_def)

lemma cache_run_append: "cache_run c (us @ vs) = cache_run (cache_run c us) vs"
  by (simp add: cache_run_def)

end
