(* ===== verification/Connections.thy ===== *)
theory Connections
  imports ExchangeResults
begin

text \<open>
  \<^verbatim>\<open>networking/websocket/\<close>: the client that opens, watches, closes and uses the
  connections of the market streams. The connections themselves are the websocketpp library's:
  \<open>websocket_library\<close> lists its operations the client calls, on a state \<open>'w\<close> of the library
  that changes as time passes. The two loops that wait for a connection may never end, so an
  operation that waits is a partial function. The lemmas say when waiting ends, what a created
  connection is, and what a live run sees of a connection that is being closed.
\<close>

section \<open>The library\<close>

datatype session_state = Session_connecting | Session_open | Session_closing | Session_closed

text \<open>
  Operations with an error code answer with its message. \<open>wl_pause\<close> is the time that passes in
  so many milliseconds, or, for none, between two looks at the state of a connection.
\<close>

record ('c, 'w) websocket_library =
  wl_get_connection :: "string \<Rightarrow> ('w, string + 'c) action"
  wl_connect :: "'c \<Rightarrow> ('w, unit) action"
  wl_get_state :: "'c \<Rightarrow> 'w \<Rightarrow> session_state"
  wl_get_ec :: "'c \<Rightarrow> 'w \<Rightarrow> string"
  wl_expired :: "'c \<Rightarrow> 'w \<Rightarrow> bool"
  wl_get_con :: "'c \<Rightarrow> 'w \<Rightarrow> string + 'c"
  wl_close :: "'c \<Rightarrow> ('w, string option) action"
  wl_send :: "'c \<Rightarrow> string \<Rightarrow> ('w, string option) action"
  wl_set_timeout :: "int \<Rightarrow> 'w \<Rightarrow> 'w"
  wl_pause :: "nat \<Rightarrow> 'w \<Rightarrow> 'w"

definition websocket_error :: "string \<Rightarrow> exn" where
  "websocket_error message = Mb_exception (''Websocket Error: '' @ message)"

section \<open>The client\<close>

text \<open>An operation that may wait for ever: it has a result only if it returns.\<close>

type_synonym ('w, 'a) waiting = "'w \<Rightarrow> ((exn + 'a) \<times> 'w) option"

definition wait_bind :: "('w, 'a) waiting \<Rightarrow> ('a \<Rightarrow> ('w, 'b) waiting) \<Rightarrow> ('w, 'b) waiting" where
  "wait_bind m k w = (case m w of None \<Rightarrow> None
     | Some (Inl e, w') \<Rightarrow> Some (Inl e, w') | Some (Inr a, w') \<Rightarrow> k a w')"

definition at_once :: "('w, 'a) action \<Rightarrow> ('w, 'a) waiting" where
  "at_once m w = Some (m w)"

text \<open>The state is read, then ten milliseconds pass, whatever it was.\<close>

partial_function (option) wait_connecting :: "('c, 'w) websocket_library \<Rightarrow> 'c \<Rightarrow> 'w \<Rightarrow> 'w option" where
  "wait_connecting lib c w =
     (if wl_get_state lib c w = Session_connecting then wait_connecting lib c (wl_pause lib 10 w)
      else Some (wl_pause lib 10 w))"

partial_function (option) wait_closing :: "('c, 'w) websocket_library \<Rightarrow> 'c \<Rightarrow> 'w \<Rightarrow> 'w option" where
  "wait_closing lib c w =
     (if wl_get_state lib c w = Session_closing then wait_closing lib c (wl_pause lib 0 w) else Some w)"

text \<open>Only what the library throws is caught; the loop around it throws nothing.\<close>

definition client_connect :: "('c, 'w) websocket_library \<Rightarrow> 'c \<Rightarrow> ('w, unit) waiting" where
  "client_connect lib c w =
     (case wl_connect lib c w of
        (Inl e, w1) \<Rightarrow> Some (Inl (if is_undefined e then e else websocket_error (what e)), w1)
      | (Inr _, w1) \<Rightarrow> (case wait_connecting lib c w1 of
          None \<Rightarrow> None
        | Some w2 \<Rightarrow> Some (if wl_get_state lib c w2 \<noteq> Session_open
            then Inl (websocket_error (''Connection Failed. Reason: '' @ wl_get_ec lib c w2)) else Inr (), w2)))"

definition client_create_connection :: "('c, 'w) websocket_library \<Rightarrow> string \<Rightarrow> ('w, 'c) waiting" where
  "client_create_connection lib url =
     wait_bind (at_once (wl_get_connection lib url)) (\<lambda>r. case r of
       Inl message \<Rightarrow> at_once (act_throw (websocket_error (''Getting connection for '' @ url @ '': '' @ message)))
     | Inr c \<Rightarrow> wait_bind (client_connect lib c) (\<lambda>_. at_once (act_return c)))"

definition client_set_open_handshake_timeout :: "('c, 'w) websocket_library \<Rightarrow> int \<Rightarrow> ('w, unit) action" where
  "client_set_open_handshake_timeout lib timeout = act_modify (wl_set_timeout lib timeout)"

definition client_close_connection :: "('c, 'w) websocket_library \<Rightarrow> 'c \<Rightarrow> ('w, unit) waiting" where
  "client_close_connection lib handle w =
     (if wl_expired lib handle w then Some (Inr (), w)
      else case wl_get_con lib handle w of
        Inl _ \<Rightarrow> Some (Inr (), w)
      | Inr c \<Rightarrow> (case wl_close lib c w of
          (Inl e, w1) \<Rightarrow> Some (Inl e, w1)
        | (Inr (Some message), w1) \<Rightarrow> Some (Inl (websocket_error (''Closing connection: '' @ message)), w1)
        | (Inr None, w1) \<Rightarrow> map_option (Pair (Inr ())) (wait_closing lib c w1)))"

definition client_get_connection_status :: "('c, 'w) websocket_library \<Rightarrow> 'c \<Rightarrow> 'w \<Rightarrow> ws_connection_status res" where
  "client_get_connection_status lib handle w =
     (case wl_get_con lib handle w of
        Inl _ \<Rightarrow> Inr WS_CLOSED
      | Inr c \<Rightarrow> (case wl_get_state lib c w of
          Session_closed \<Rightarrow> Inr WS_CLOSED
        | Session_open \<Rightarrow> Inr WS_OPEN
        | _ \<Rightarrow> Inl (Logic_error ''Websocket connection is in intermediary state'')))"

text \<open>The message goes to the library as a string that ends at its first null character.\<close>

definition client_send_message :: "('c, 'w) websocket_library \<Rightarrow> 'c \<Rightarrow> string \<Rightarrow> ('w, unit) action" where
  "client_send_message lib handle message =
     act_bind (wl_send lib handle (c_str message)) (\<lambda>error. case error of
       None \<Rightarrow> act_return ()
     | Some m \<Rightarrow> act_throw (websocket_error (''Sending message: '' @ m)))"

section \<open>The life of the client\<close>

text \<open>What the set-up of TLS throws is an error of the connection.\<close>

definition on_tls_init :: "string option \<Rightarrow> unit res" where
  "on_tls_init refusal = (case refusal of
       None \<Rightarrow> Inr () | Some message \<Rightarrow> Inl (websocket_error (''Initialising TLS: '' @ message)))"

text \<open>
  The thread of the client runs the event loop of the library. The loop returns when it is not
  perpetual any more and no connection is left.
\<close>

record client_life =
  cf_perpetual :: bool
  cf_connections :: nat

definition create_websocket_client :: client_life where
  "create_websocket_client = \<lparr>cf_perpetual = True, cf_connections = 0\<rparr>"

definition loop_returns :: "client_life \<Rightarrow> bool" where
  "loop_returns s \<longleftrightarrow> \<not> cf_perpetual s \<and> cf_connections s = 0"

text \<open>The destructor joins the thread: without a result it waits for ever.\<close>

definition destroy_websocket_client :: "client_life \<Rightarrow> unit option" where
  "destroy_websocket_client s =
     (let s = s\<lparr>cf_perpetual := False\<rparr> in if loop_returns s then Some () else None)"

lemma client_destroyed: "destroy_websocket_client s = Some () \<longleftrightarrow> cf_connections s = 0"
  by (simp add: destroy_websocket_client_def loop_returns_def Let_def)

text \<open>A connection that stays open, and that nobody closes, keeps the program from ending.\<close>

lemma open_connection_blocks_exit:
  "destroy_websocket_client (create_websocket_client\<lparr>cf_connections := Suc n\<rparr>) = None"
  by (simp add: destroy_websocket_client_def loop_returns_def Let_def)

section \<open>Connections\<close>

record 'c websocket_connection =
  wc_connectionHandle :: 'c

definition connection_close :: "('c, 'w) websocket_library \<Rightarrow> 'c websocket_connection \<Rightarrow> ('w, unit) waiting" where
  "connection_close lib connection = client_close_connection lib (wc_connectionHandle connection)"

definition connection_send_message ::
    "('c, 'w) websocket_library \<Rightarrow> 'c websocket_connection \<Rightarrow> string \<Rightarrow> ('w, unit) action" where
  "connection_send_message lib connection = client_send_message lib (wc_connectionHandle connection)"

definition connection_status ::
    "('c, 'w) websocket_library \<Rightarrow> 'c websocket_connection \<Rightarrow> 'w \<Rightarrow> ws_connection_status res" where
  "connection_status lib connection = client_get_connection_status lib (wc_connectionHandle connection)"

definition create_connection :: "('c, 'w) websocket_library \<Rightarrow> string \<Rightarrow> ('w, 'c websocket_connection) waiting" where
  "create_connection lib url =
     wait_bind (client_create_connection lib url) (\<lambda>handle. at_once (act_return \<lparr>wc_connectionHandle = handle\<rparr>))"

section \<open>Waiting\<close>

text \<open>The loops end exactly when the library leaves the state they wait for.\<close>

lemma wait_connecting_ends:
  assumes "wl_get_state lib c ((wl_pause lib 10 ^^ n) w) \<noteq> Session_connecting"
  shows "\<exists>m \<le> n. wait_connecting lib c w = Some ((wl_pause lib 10 ^^ Suc m) w) \<and>
    wl_get_state lib c ((wl_pause lib 10 ^^ m) w) \<noteq> Session_connecting"
  using assms
proof (induction n arbitrary: w)
  case (Suc n)
  show ?case
  proof (cases "wl_get_state lib c w = Session_connecting")
    case True
    with Suc.IH [of "wl_pause lib 10 w"] Suc.prems obtain m where
      "m \<le> n" "wait_connecting lib c w = Some ((wl_pause lib 10 ^^ Suc m) (wl_pause lib 10 w))"
      "wl_get_state lib c ((wl_pause lib 10 ^^ m) (wl_pause lib 10 w)) \<noteq> Session_connecting"
      by (auto simp: funpow_swap1 wait_connecting.simps)
    then show ?thesis by (intro exI [of _ "Suc m"]) (simp add: funpow_swap1)
  next
    case False
    then show ?thesis by (intro exI [of _ 0]) (simp add: wait_connecting.simps)
  qed
qed (auto simp: wait_connecting.simps)

lemma wait_connecting_left:
  "wait_connecting lib c w = Some w' \<Longrightarrow>
    \<exists>n. wl_get_state lib c ((wl_pause lib 10 ^^ n) w) \<noteq> Session_connecting \<and> w' = (wl_pause lib 10 ^^ Suc n) w"
proof (erule wait_connecting.raw_induct [where P = "\<lambda>lib c w w'. \<exists>n. wl_get_state lib c ((wl_pause lib 10 ^^ n) w) \<noteq>
    Session_connecting \<and> w' = (wl_pause lib 10 ^^ Suc n) w", rotated])
  fix self :: "('c, 'w) websocket_library \<Rightarrow> 'c \<Rightarrow> 'w \<Rightarrow> 'w option" and lib c w w'
  assume ih: "\<And>lib c w w'. self lib c w = Some w' \<Longrightarrow>
      \<exists>n. wl_get_state lib c ((wl_pause lib 10 ^^ n) w) \<noteq> Session_connecting \<and> w' = (wl_pause lib 10 ^^ Suc n) w"
    and r: "(if wl_get_state lib c w = Session_connecting then self lib c (wl_pause lib 10 w)
      else Some (wl_pause lib 10 w)) = Some w'"
  show "\<exists>n. wl_get_state lib c ((wl_pause lib 10 ^^ n) w) \<noteq> Session_connecting \<and> w' = (wl_pause lib 10 ^^ Suc n) w"
  proof (cases "wl_get_state lib c w = Session_connecting")
    case True
    with r ih [of lib c "wl_pause lib 10 w" w'] obtain n where
      "wl_get_state lib c ((wl_pause lib 10 ^^ n) (wl_pause lib 10 w)) \<noteq> Session_connecting"
      "w' = (wl_pause lib 10 ^^ Suc n) (wl_pause lib 10 w)" by auto
    then show ?thesis by (intro exI [of _ "Suc n"]) (simp add: funpow_swap1)
  next
    case False
    with r show ?thesis by (intro exI [of _ 0]) simp
  qed
qed

text \<open>
  C31: creating a connection returns exactly when the library leaves the state of connecting at
  some look at it, ten milliseconds apart; it then gives a connection that is open, or throws
  with the reason of the library. A connection that keeps connecting blocks the caller for ever.
\<close>

theorem create_connection_returns:
  assumes "wl_get_connection lib url w = (Inr (Inr c), w1)" "wl_connect lib c w1 = (Inr (), w2)"
  shows "(create_connection lib url w = None \<longleftrightarrow>
      (\<forall>n. wl_get_state lib c ((wl_pause lib 10 ^^ n) w2) = Session_connecting)) \<and>
    (\<forall>r w3. create_connection lib url w = Some (r, w3) \<longrightarrow>
      (if wl_get_state lib c w3 = Session_open then r = Inr \<lparr>wc_connectionHandle = c\<rparr>
       else r = Inl (websocket_error (''Connection Failed. Reason: '' @ wl_get_ec lib c w3))))"
proof (cases "wait_connecting lib c w2")
  case None
  with wait_connecting_ends [of lib c _ w2] have
    "\<forall>n. wl_get_state lib c ((wl_pause lib 10 ^^ n) w2) = Session_connecting" by fastforce
  with None assms show ?thesis
    by (simp add: create_connection_def client_create_connection_def client_connect_def wait_bind_def at_once_def)
next
  case (Some w')
  with wait_connecting_left [OF Some] assms show ?thesis
    by (auto simp: create_connection_def client_create_connection_def client_connect_def wait_bind_def
        at_once_def act_simps)
qed

text \<open>A library whose connection opens after three looks at it.\<close>

definition demo_library :: "(nat, nat) websocket_library" where
  "demo_library = \<lparr>wl_get_connection = \<lambda>url. act_return (Inr 7), wl_connect = \<lambda>c. act_return (),
     wl_get_state = \<lambda>c w. if w < 3 then Session_connecting else if w < 9 then Session_open else Session_closing,
     wl_get_ec = \<lambda>c w. ''timed out'', wl_expired = \<lambda>c w. False, wl_get_con = \<lambda>c w. Inr c,
     wl_close = \<lambda>c. act_return None, wl_send = \<lambda>c m. act_return None, wl_set_timeout = \<lambda>t w. w,
     wl_pause = \<lambda>n w. Suc w\<rparr>"

theorem create_connection_returns_witness:
  "\<exists>r w. create_connection demo_library ''wss'' 0 = Some (r, w) \<and> (wl_get_state demo_library 7 w = Session_open \<longrightarrow>
     r = Inr \<lparr>wc_connectionHandle = 7\<rparr>) \<and> wl_get_state demo_library 7 ((wl_pause demo_library 10 ^^ 3) 0) = Session_open"
proof -
  have "wl_get_connection demo_library ''wss'' 0 = (Inr (Inr 7), 0)" "wl_connect demo_library 7 0 = (Inr (), 0)"
    by (simp_all add: demo_library_def act_simps)
  note r = create_connection_returns [OF this]
  have s: "wl_get_state demo_library 7 ((wl_pause demo_library 10 ^^ 3) 0) = Session_open" by code_simp
  then have "create_connection demo_library ''wss'' 0 \<noteq> None" using r by force
  then obtain res w where c: "create_connection demo_library ''wss'' 0 = Some (res, w)" by force
  with r have "wl_get_state demo_library 7 w = Session_open \<longrightarrow> res = Inr \<lparr>wc_connectionHandle = 7\<rparr>" by auto
  with c s show ?thesis by blast
qed

section \<open>A connection between two states\<close>

text \<open>The status of a stream, by the client, in the state the library is in.\<close>

definition stream_status :: "('c, 'w) websocket_library \<Rightarrow> ('h, 'c websocket_connection, 'w) websocket_stream \<Rightarrow> ws_connection_status res" where
  "stream_status lib s = ws_connection_status_of (\<lambda>c. connection_status lib c (ws_client s)) s"

text \<open>
  A strategy that asks for the stream of an exchange while its connection is being opened
  or closed ends the live run: the status throws an exception that the runner does not catch,
  and no later iteration happens.
\<close>

lemma intermediate_state_ends_live_run:
  assumes "\<not> ex_websocketConnected s" "ws_connection (ex_websocketStream s) = Some c"
    and "wl_get_con lib (wc_connectionHandle c) (ws_client (ex_websocketStream s)) = Inr h"
    and "wl_get_state lib h (ws_client (ex_websocketStream s)) \<in> {Session_connecting, Session_closing}"
  shows "live_run (act_bind (get_websocket_stream (stream_status lib) reset) strategy) (Suc n) s =
    (Inl (Logic_error ''Websocket connection is in intermediary state''), s)"
  using assms
  by (auto simp: act_simps catch_mb_def get_websocket_stream_def stream_status_def ws_connection_status_of_def
      connection_status_def client_get_connection_status_def)

lemma intermediate_state_ends_live_run_example:
  "let w = (create_websocket_stream ''wss'' (CHR ''/'') 9 :: (unit, nat websocket_connection, nat) websocket_stream)
         \<lparr>ws_connection := Some \<lparr>wc_connectionHandle = 7\<rparr>\<rparr>;
       s = \<lparr>ex_websocketStream = w, ex_websocketConnected = False\<rparr>
   in live_run (act_bind (get_websocket_stream (stream_status demo_library) (act_return ())) (\<lambda>_. act_return ())) 5 s =
     (Inl (Logic_error ''Websocket connection is in intermediary state''), s)"
proof -
  let ?w = "(create_websocket_stream ''wss'' (CHR ''/'') 9 :: (unit, nat websocket_connection, nat) websocket_stream)
    \<lparr>ws_connection := Some \<lparr>wc_connectionHandle = 7\<rparr>\<rparr>"
  have "wl_get_con demo_library 7 (ws_client ?w) = Inr 7" "wl_get_state demo_library 7 (ws_client ?w) = Session_closing"
    by (simp_all add: demo_library_def create_websocket_stream_def)
  then show ?thesis
    using intermediate_state_ends_live_run [of "\<lparr>ex_websocketStream = ?w, ex_websocketConnected = False\<rparr>"
        "\<lparr>wc_connectionHandle = 7\<rparr>" demo_library 7 "act_return ()" "\<lambda>_. act_return ()" 4]
    by (simp add: Let_def numeral_eq_Suc)
qed

end
