(* ===== verification/Requests.thy ===== *)
theory Requests
  imports ExchangeResults
begin

text \<open>
  \<^verbatim>\<open>networking/url.cpp\<close>, \<^verbatim>\<open>networking/http/\<close> and the hexadecimal printer of
  \<^verbatim>\<open>common/security/encoding.h\<close>: how a request of an exchange is put together, sent
  and answered. The transfer itself is the curl library's, the hashes are OpenSSL's and the
  clock is the system's: they are the fields of \<open>http_env\<close>, on a state \<open>'w\<close> of the world.
\<close>

section \<open>URLs\<close>

record url_query_builder =
  qb_query :: string
  qb_started :: bool

definition new_query :: url_query_builder where
  "new_query = \<lparr>qb_query = [], qb_started = False\<rparr>"

definition add_parameter :: "string \<Rightarrow> string \<Rightarrow> url_query_builder \<Rightarrow> url_query_builder res" where
  "add_parameter key value b =
     (if key = [] \<or> value = [] then Inl (Undefined_behaviour ''assert'')
      else Inr \<lparr>qb_query = qb_query b @ (if qb_started b then ''&'' else []) @ key @ ''='' @ value,
                qb_started = True\<rparr>)"

text \<open>A chain of \<^verbatim>\<open>add_parameter\<close>, and its query.\<close>

fun add_parameters :: "(string \<times> string) list \<Rightarrow> url_query_builder \<Rightarrow> url_query_builder res" where
  "add_parameters [] b = Inr b"
| "add_parameters ((key, value) # ps) b = res_bind (add_parameter key value b) (add_parameters ps)"

definition build_query :: "(string \<times> string) list \<Rightarrow> string res" where
  "build_query ps = res_map qb_query (add_parameters ps new_query)"

definition append_query :: "string \<Rightarrow> string \<Rightarrow> string" where
  "append_query url query = (if query \<noteq> [] then url @ ''?'' @ query else url)"

definition append_path :: "string \<Rightarrow> string \<Rightarrow> string res" where
  "append_path url path =
     (if path = [] then Inr url
      else if url = [] then Inl (Undefined_behaviour ''back of an empty string'')
      else Inr (url @ (if List.last url \<noteq> CHR ''/'' \<and> hd path \<noteq> CHR ''/'' then ''/'' else []) @ path))"

definition build_url :: "string \<Rightarrow> string \<Rightarrow> string \<Rightarrow> string res" where
  "build_url baseUrl path query = res_map (\<lambda>url. append_query url query) (append_path baseUrl path)"

definition build_url_path :: "string list \<Rightarrow> string" where
  "build_url_path pathComponents = butlast (''/'' @ concat (map (\<lambda>component. component @ ''/'') pathComponents))"

section \<open>Requests\<close>

datatype http_verb = GET | POST | HTTP_DELETE

fun verb_to_string :: "http_verb \<Rightarrow> string" where
  "verb_to_string GET = ''GET''"
| "verb_to_string POST = ''POST''"
| "verb_to_string HTTP_DELETE = ''DELETE''"

definition to_http_verb :: "string \<Rightarrow> http_verb res" where
  "to_http_verb verb =
     (if verb = ''GET'' then Inr GET
      else if verb = ''POST'' then Inr POST
      else if verb = ''DELETE'' then Inr HTTP_DELETE
      else Inl (Invalid_argument ''HTTP verb not recognized''))"

record http_header =
  hh_key :: string
  hh_value :: string

definition header_to_string :: "http_header \<Rightarrow> string" where
  "header_to_string h = hh_key h @ '': '' @ hh_value h"

record http_request =
  hq_verb :: http_verb
  hq_url :: string
  hq_content :: string
  hq_headers :: "http_header list"

definition new_request :: "http_verb \<Rightarrow> string \<Rightarrow> http_request" where
  "new_request verb uri = \<lparr>hq_verb = verb, hq_url = uri, hq_content = [], hq_headers = []\<rparr>"

definition add_header :: "string \<Rightarrow> string \<Rightarrow> http_request \<Rightarrow> http_request" where
  "add_header key value request =
     request\<lparr>hq_headers := hq_headers request @ [\<lparr>hh_key = key, hh_value = value\<rparr>]\<rparr>"

definition set_content :: "string \<Rightarrow> http_request \<Rightarrow> http_request" where
  "set_content content request = request\<lparr>hq_content := content\<rparr>"

definition request_to_string :: "http_request \<Rightarrow> string" where
  "request_to_string request =
     out_line [''Verb: '', verb_to_string (hq_verb request)] @
     out_line [''Url: '', hq_url request] @
     out_line [''Content: '', hq_content request]"

definition hex_digit :: "nat \<Rightarrow> char" where
  "hex_digit n = (if n < 10 then char_of (48 + n) else char_of (87 + n))"

definition hex_encode :: "string \<Rightarrow> string" where
  "hex_encode data = concat (map (\<lambda>c. [hex_digit (of_char c div 16), hex_digit (of_char c mod 16)]) data)"

text \<open>
  The decoder of the library writes at most as many bytes as the buffer has; the whole buffer of
  64 bytes is returned, whatever was decoded.
\<close>

definition b64_decode :: "(string \<Rightarrow> nat \<Rightarrow> string option) \<Rightarrow> string \<Rightarrow> string res" where
  "b64_decode bio_read data = (case bio_read data 64 of
       None \<Rightarrow> Inl (Runtime_error ''failed while decoding base64.'')
     | Some bytes \<Rightarrow> Inr (bytes @ replicate (64 - length bytes) (CHR 0x00)))"

lemma b64_decode_length:
  "b64_decode bio_read data = Inr key \<Longrightarrow> (\<And>bytes. bio_read data 64 = Some bytes \<Longrightarrow> length bytes \<le> 64) \<Longrightarrow> length key = 64"
  by (auto simp: b64_decode_def split: option.splits)

section \<open>The service\<close>

text \<open>
  What the library is told: the verb, the URL, the posted fields and the headers. It answers
  with the text of its error, or with the code and the body.
\<close>

record curl_request =
  cq_verb :: string
  cq_url :: string
  cq_fields :: string
  cq_headers :: "string list"

record 'w http_env =
  he_perform :: "curl_request \<Rightarrow> 'w \<Rightarrow> (string + int \<times> string) \<times> 'w"
  he_now_ms :: "'w \<Rightarrow> int"
  he_sha256 :: "string \<Rightarrow> string"
  he_hmac_sha256 :: "string \<Rightarrow> string \<Rightarrow> string"
  he_hmac_sha512 :: "string \<Rightarrow> string \<Rightarrow> string"
  he_b64_encode :: "string \<Rightarrow> string"

definition http_error :: "string \<Rightarrow> exn" where
  "http_error message = Mb_exception (''HTTP Error: '' @ message)"

definition curl_of :: "http_request \<Rightarrow> curl_request" where
  "curl_of request = \<lparr>cq_verb = verb_to_string (hq_verb request), cq_url = c_str (hq_url request),
     cq_fields = c_str (hq_content request),
     cq_headers = map (\<lambda>h. c_str (header_to_string h)) (hq_headers request)\<rparr>"

definition http_send :: "'w http_env \<Rightarrow> http_request \<Rightarrow> ('w, http_response) action" where
  "http_send env request w =
     (case he_perform env (curl_of request) w of
        (Inl error, w') \<Rightarrow> (Inl (http_error error), w')
      | (Inr (code, body), w') \<Rightarrow> (Inr \<lparr>hr_responseCode = narrow32 code, hr_message = body\<rparr>, w'))"

definition request_value ::
    "'w http_env \<Rightarrow> http_request \<Rightarrow> (string \<Rightarrow> 'v result res) \<Rightarrow> ('w, 'v) action" where
  "request_value env request reader =
     act_bind (http_send env request) (\<lambda>response. act_res (\<lambda>_. send_http_request (Inr response) reader))"

definition epoch_milliseconds :: "'w http_env \<Rightarrow> ('w, string) action" where
  "epoch_milliseconds env = act_read (\<lambda>w. show_int (he_now_ms env w))"

definition epoch_seconds :: "'w http_env \<Rightarrow> ('w, string) action" where
  "epoch_seconds env = act_read (\<lambda>w. show_int (he_now_ms env w sdiv 1000))"

text \<open>The prices of several pairs, by the names the exchange gives them.\<close>

definition pair_results ::
    "tradable_pair list \<Rightarrow> ('w, (string \<times> 'v) list) action \<Rightarrow> ('w, (tradable_pair \<times> 'v) list) action" where
  "pair_results pairs ask = act_bind ask (\<lambda>named. act_res (\<lambda>_. create_pair_result_map pairs named))"

section \<open>Lemmas\<close>

definition plain_parameter :: "string \<times> string \<Rightarrow> bool" where
  "plain_parameter p \<longleftrightarrow> fst p \<noteq> [] \<and> snd p \<noteq> [] \<and> {CHR ''&'', CHR ''=''} \<inter> set (fst p @ snd p) = {}"

definition query_of :: "(string \<times> string) list \<Rightarrow> string" where
  "query_of ps = concat (map (\<lambda>(k, v). CHR ''&'' # k @ ''='' @ v) ps)"

lemma add_parameters_started:
  "list_all (\<lambda>(k, v). k \<noteq> [] \<and> v \<noteq> []) ps \<Longrightarrow> qb_started b \<Longrightarrow>
    add_parameters ps b = Inr \<lparr>qb_query = qb_query b @ query_of ps, qb_started = True\<rparr>"
  by (induction ps b rule: add_parameters.induct) (auto simp: add_parameter_def query_of_def)

lemma build_query_Cons:
  "list_all (\<lambda>(k, v). k \<noteq> [] \<and> v \<noteq> []) ((k, v) # ps) \<Longrightarrow>
    build_query ((k, v) # ps) = Inr (k @ ''='' @ v @ query_of ps)"
  by (simp add: build_query_def new_query_def add_parameter_def add_parameters_started)

lemma query_of_Cons: "query_of ((k, v) # ps) = CHR ''&'' # k @ ''='' @ v @ query_of ps"
  by (simp add: query_of_def)

lemma query_of_chars: "CHR 0x00 \<notin> set (concat (map (\<lambda>(k, v). k @ v) ps)) \<Longrightarrow> CHR 0x00 \<notin> set (query_of ps)"
  by (induction ps) (auto simp: query_of_def)

lemma getline_query:
  assumes "list_all plain_parameter ((k, v) # ps)"
  shows "getline_segs (CHR ''&'') (k @ ''='' @ v @ query_of ps) = map (\<lambda>(k, v). k @ ''='' @ v) ((k, v) # ps)"
  using assms
proof (induction ps arbitrary: k v)
  case Nil
  then show ?case
    by (simp add: query_of_def plain_parameter_def getline_segs_last [of "k @ CHR ''='' # v" "CHR ''&''", simplified])
next
  case (Cons p ps)
  obtain k' v' where p: "p = (k', v')" by (cases p)
  have "CHR ''&'' \<notin> set (k @ ''='' @ v)" using Cons.prems by (simp add: plain_parameter_def)
  then have "getline_segs (CHR ''&'') ((k @ ''='' @ v) @ CHR ''&'' # (k' @ ''='' @ v' @ query_of ps)) =
      (k @ ''='' @ v) # getline_segs (CHR ''&'') (k' @ ''='' @ v' @ query_of ps)"
    by (rule getline_segs_step)
  with Cons.IH [of k' v'] Cons.prems show ?case by (simp add: p query_of_Cons)
qed

lemma split_parameter:
  assumes "plain_parameter (k, v)" "CHR 0x00 \<notin> set (k @ v)"
  shows "split (k @ ''='' @ v) (CHR ''='') = [k, v]"
  using assms split_pair [of k v "CHR ''=''"] by (simp add: plain_parameter_def)

text \<open>
  A query says exactly the parameters it was built from: cut at the separators it gives
  them back in order, as long as no value contains a separator. Values are not escaped.
\<close>

lemma query_roundtrip:
  assumes "ps \<noteq> []" "list_all plain_parameter ps" "CHR 0x00 \<notin> set (concat (map (\<lambda>(k, v). k @ v) ps))"
  shows "\<exists>q. build_query ps = Inr q \<and> map (\<lambda>p. split p (CHR ''='')) (split q (CHR ''&'')) = map (\<lambda>(k, v). [k, v]) ps"
proof -
  obtain k v qs where ps: "ps = (k, v) # qs" using assms(1) by (cases ps) auto
  have q: "build_query ps = Inr (k @ ''='' @ v @ query_of qs)"
    unfolding ps by (rule build_query_Cons) (use assms(2) in \<open>auto simp: ps plain_parameter_def list_all_iff\<close>)
  have "CHR 0x00 \<notin> set (k @ ''='' @ v @ query_of qs)"
    using assms(3) query_of_chars [of qs] by (auto simp: ps)
  then have "split (k @ ''='' @ v @ query_of qs) (CHR ''&'') = map (\<lambda>(k, v). k @ ''='' @ v) ps"
    using getline_query [of k v qs] assms(2) by (auto simp: ps split_def c_str_id filter_id_conv)
  moreover have "split (k' @ ''='' @ v') (CHR ''='') = [k', v']" if "(k', v') \<in> set ps" for k' v'
    using that assms(2,3) by (intro split_parameter) (auto simp: list_all_iff)
  ultimately show ?thesis using q by (auto simp: o_def)
qed

lemma query_roundtrip_example:
  "\<exists>q. build_query [(''pair'', ''XBTGBP''), (''count'', ''10'')] = Inr q \<and>
    map (\<lambda>p. split p (CHR ''='')) (split q (CHR ''&'')) = [[''pair'', ''XBTGBP''], [''count'', ''10'']]"
  using query_roundtrip [of "[(''pair'', ''XBTGBP''), (''count'', ''10'')]"] by (simp add: plain_parameter_def)

section \<open>Failures of a request\<close>

text \<open>
  What a request may throw: an exception the runners catch, or undefined behaviour of the reader.
\<close>

definition catchable :: "('s, 'a) action \<Rightarrow> bool" where
  "catchable m \<longleftrightarrow> (\<forall>s e. fst (m s) = Inl e \<longrightarrow> is_mb_exception e \<or> is_undefined e)"

lemma catchableI: "(\<And>s e t. m s = (Inl e, t) \<Longrightarrow> is_mb_exception e \<or> is_undefined e) \<Longrightarrow> catchable m"
  by (auto simp: catchable_def) (metis prod.collapse)

lemma catchable_bind: "catchable m \<Longrightarrow> (\<And>a. catchable (k a)) \<Longrightarrow> catchable (act_bind m k)"
  unfolding catchable_def act_bind_def
  by (auto split: prod.splits sum.splits) (metis fst_conv)+

lemma catchable_basic: "catchable (act_return a)" "catchable (act_modify f)" "catchable (act_read g)"
  by (simp_all add: catchable_def act_simps)

lemma catchable_in_state: "catchable m \<Longrightarrow> catchable (in_state get put m)"
  by (auto simp: catchable_def in_state_def split: prod.split) (metis fst_conv)

lemma catchable_reading:
  "(\<And>e. r = Inl e \<Longrightarrow> is_mb_exception e \<or> is_undefined e) \<Longrightarrow> (\<And>a. catchable (f a)) \<Longrightarrow> catchable (reading r f)"
  by (cases r) (auto simp: catchable_def)

lemma catchable_res:
  "(\<And>s e. f s = Inl e \<Longrightarrow> is_mb_exception e \<or> is_undefined e) \<Longrightarrow> catchable (act_res f)"
  by (auto simp: catchable_def act_simps)

lemma add_parameters_undefined: "add_parameters ps b = Inl e \<Longrightarrow> is_undefined e"
  by (induction ps b rule: add_parameters.induct) (auto simp: add_parameter_def res_bind_Inl_iff split: if_splits)

lemma build_query_undefined: "build_query ps = Inl e \<Longrightarrow> is_undefined e"
  unfolding build_query_def by (cases "add_parameters ps new_query") (auto dest: add_parameters_undefined)

lemma build_url_undefined: "build_url baseUrl path query = Inl e \<Longrightarrow> is_undefined e"
  by (auto simp: build_url_def append_path_def split: if_splits)

named_theorems catchable_rules "operations of which the runners catch every exception"

lemmas catchable_intros [catchable_rules] =
  catchable_bind catchable_basic catchable_in_state

lemma catchable_query [catchable_rules]:
  "(\<And>query. catchable (f query)) \<Longrightarrow> catchable (reading (build_query ps) f)"
  "(\<And>b'. catchable (g b')) \<Longrightarrow> catchable (reading (add_parameters ps b) g)"
  "(\<And>b'. catchable (g b')) \<Longrightarrow> catchable (reading (add_parameter key value b) g)"
  "(\<And>url. catchable (f url)) \<Longrightarrow> catchable (reading (build_url baseUrl path query) f)"
  by (auto intro!: catchable_reading dest: build_query_undefined add_parameters_undefined build_url_undefined
      simp: add_parameter_def split: if_splits)

lemma catchable_state_query [catchable_rules]:
  "catchable (act_res (\<lambda>s. add_parameter key (value s) b))"
  "catchable (act_res (\<lambda>s. build_url (baseUrl s) path query))"
  by (auto intro!: catchable_res dest: build_url_undefined simp: add_parameter_def split: if_splits)

lemma catchable_seconds [catchable_rules]: "(\<And>seconds. catchable (f seconds)) \<Longrightarrow> catchable (reading (to_seconds interval) f)"
  by (cases interval) (simp_all add: catchable_def)

lemma catchable_clock [catchable_rules]: "catchable (epoch_milliseconds env)" "catchable (epoch_seconds env)"
  by (simp_all add: epoch_milliseconds_def epoch_seconds_def catchable_basic)

context answer_reader
begin

lemma request_catchable: "catchable (request_value env request reader)"
proof (rule catchableI)
  fix w e t assume r: "request_value env request reader w = (Inl e, t)"
  show "is_mb_exception e \<or> is_undefined e"
  proof (cases "http_send env request w")
    case (Pair a w')
    show ?thesis
    proof (cases a)
      case (Inl x)
      with Pair r show ?thesis
        by (auto simp: request_value_def act_bind_def http_send_def http_error_def split: prod.splits sum.splits)
    next
      case (Inr response)
      with Pair r have "send_http_request (Inr response) reader = Inl e"
        by (simp add: request_value_def act_simps)
      from request_outcome [OF this] show ?thesis by auto
    qed
  qed
qed

end

end
