(* ===== verification/Kraken.thy ===== *)
theory Kraken
  imports Requests
begin

text \<open>
  \<^verbatim>\<open>exchanges/kraken/\<close>: the readers of the answers (\<^verbatim>\<open>kraken_results.cpp\<close>) and
  the market stream (\<^verbatim>\<open>kraken_websocket.cpp\<close>), on documents of the JSON data model. The
  parser is a parameter. A message of the stream is dispatched on its channel and ends in the
  operations of the exchange stream.
\<close>

section \<open>Answers\<close>

definition kraken_get_error :: "json \<Rightarrow> string res" where
  "kraken_get_error json = res_map (\<lambda>messages. case messages of [] \<Rightarrow> [] | m # _ \<Rightarrow> m)
     (member get_string_list json ''error'')"

definition kraken_checked :: "json \<Rightarrow> 'v result res \<Rightarrow> 'v result res" where
  "kraken_checked json ok = res_bind (kraken_get_error json) (\<lambda>error.
     if error \<noteq> [] then Inr (Fail error) else ok)"

definition kraken_read_result ::
    "(string \<Rightarrow> json res) \<Rightarrow> (json \<Rightarrow> 'v res) \<Rightarrow> string \<Rightarrow> 'v result res" where
  "kraken_read_result parse reader text = try_result (res_bind (parse text) (\<lambda>json.
     kraken_checked json (res_bind (json_element json ''result'') (\<lambda>r. success (reader r)))))"

definition kraken_ticker_price :: "json \<Rightarrow> double res" where
  "kraken_ticker_price tickerElement =
     res_bind (member get_string_list tickerElement ''c'') (\<lambda>c.
     res_bind (read_at ''vector index'' c 0) stod)"

definition kraken_to_order_type :: "string \<Rightarrow> order_type res" where
  "kraken_to_order_type s =
     (if s = ''limit'' then Inr LIMIT
      else if s = ''market'' then Inr MARKET
      else if contains_str (c_str s) ''stop-loss'' then Inr STOP_LOSS
      else if contains_str (c_str s) ''take-profit'' then Inr TAKE_PROFIT
      else Inl (Invalid_argument ''Unknown order type''))"

definition kraken_order :: "string \<Rightarrow> string res \<times> json \<Rightarrow> order_description option res" where
  "kraken_order orderStatus kv = (case kv of (key, order) \<Rightarrow>
     res_bind key (\<lambda>orderId.
     res_bind (member get_string order ''status'') (\<lambda>status.
     if status \<noteq> orderStatus then Inr None else
     res_bind (json_element order ''descr'') (\<lambda>descr.
     res_bind (member get_string descr ''pair'') (\<lambda>pairName.
     res_bind (member get_string descr ''type'') (\<lambda>ty.
     res_bind (member get_stod descr ''price'') (\<lambda>price.
     res_bind (member get_stod order ''vol'') (\<lambda>volume.
     res_bind (member get_time order ''opentm'') (\<lambda>time.
     res_bind (member get_string order ''ordertype'') (\<lambda>ot.
     res_bind (kraken_to_order_type ot) (\<lambda>orderType.
     Inr (Some \<lparr>od_timeStamp = time, od_orderId = orderId, od_orderType = orderType, od_pairName = pairName,
       od_action = (if ty = ''buy'' then BUY else SELL), od_price = price, od_volume = volume\<rparr>))))))))))))"

definition kraken_orders :: "string \<Rightarrow> json \<Rightarrow> order_description list res" where
  "kraken_orders orderStatus resultElement =
     res_bind (json_element resultElement orderStatus) (\<lambda>orders.
     res_map (List.map_filter id) (res_traverse (kraken_order orderStatus) (json_items orders)))"

definition kraken_read_open_closed_orders ::
    "(string \<Rightarrow> json res) \<Rightarrow> string \<Rightarrow> string \<Rightarrow> order_description list result res" where
  "kraken_read_open_closed_orders parse text orderStatus = kraken_read_result parse (kraken_orders orderStatus) text"

definition kraken_read_open_orders :: "(string \<Rightarrow> json res) \<Rightarrow> string \<Rightarrow> order_description list result res" where
  "kraken_read_open_orders parse text = kraken_read_open_closed_orders parse text ''open''"

definition kraken_read_closed_orders :: "(string \<Rightarrow> json res) \<Rightarrow> string \<Rightarrow> order_description list result res" where
  "kraken_read_closed_orders parse text = kraken_read_open_closed_orders parse text ''closed''"

definition kraken_read_system_status :: "(string \<Rightarrow> json res) \<Rightarrow> string \<Rightarrow> exchange_status result res" where
  "kraken_read_system_status parse = kraken_read_result parse (\<lambda>r.
     res_map (\<lambda>s. if s = ''online'' then ONLINE else if s = ''cancel_only'' then CANCEL_ONLY
        else if s = ''post_only'' then POST_ONLY else MAINTENANCE) (member get_string r ''status''))"

definition kraken_pair :: "json \<Rightarrow> tradable_pair res" where
  "kraken_pair value =
     res_bind (member get_string value ''wsname'') (\<lambda>name.
     let assetSymbols = split name (CHR ''/'') in
     res_bind (read_at ''vector index'' assetSymbols 0) (\<lambda>a.
     res_bind (read_at ''vector index'' assetSymbols 1) (\<lambda>b.
     Inr \<lparr>tp_asset = a, tp_priceUnit = b\<rparr>)))"

definition kraken_read_tradable_pairs :: "(string \<Rightarrow> json res) \<Rightarrow> string \<Rightarrow> tradable_pair list result res" where
  "kraken_read_tradable_pairs parse = kraken_read_result parse (read_vector kraken_pair)"

definition kraken_candles :: "int \<Rightarrow> json \<Rightarrow> ohlcv_data list res" where
  "kraken_candles count r =
     res_bind (first_value r) (\<lambda>pairElement.
     read_limited (\<lambda>i. res_bind (json_index pairElement (int (json_size pairElement) - i - 1))
         (candle_of get_stod (\<lambda>t. t) [1, 2, 3, 4, 6]))
       (min (int (json_size pairElement)) count))"

definition kraken_read_ohlcv_data :: "(string \<Rightarrow> json res) \<Rightarrow> string \<Rightarrow> int \<Rightarrow> ohlcv_data list result res" where
  "kraken_read_ohlcv_data parse text count = kraken_read_result parse (kraken_candles count) text"

definition kraken_read_price :: "(string \<Rightarrow> json res) \<Rightarrow> string \<Rightarrow> double result res" where
  "kraken_read_price parse = kraken_read_result parse (\<lambda>r. res_bind (first_value r) kraken_ticker_price)"

definition kraken_read_prices :: "(string \<Rightarrow> json res) \<Rightarrow> string \<Rightarrow> (string \<times> double) list result res" where
  "kraken_read_prices parse = kraken_read_result parse (read_map (\<lambda>(key, v).
     res_bind key (\<lambda>k. res_map (Pair k) (kraken_ticker_price v))))"

text \<open>
  The loop runs over the asks and reads the bid of the same index: the depth of the bids is not
  looked at.
\<close>

definition kraken_levels :: "json \<Rightarrow> json \<Rightarrow> int \<Rightarrow> (order_book_entry \<times> order_book_entry \<times> time_t) res" where
  "kraken_levels asks bids i =
     res_bind (json_index asks i) (\<lambda>asks_i.
     res_bind (entry_of get_stod ASK asks_i) (\<lambda>a.
     res_bind (json_index bids i) (\<lambda>bids_i.
     res_bind (entry_of get_stod BID bids_i) (\<lambda>b.
     res_bind (item get_time asks_i 2) (\<lambda>ta.
     res_bind (item get_time bids_i 2) (\<lambda>tb. Inr (a, b, max ta tb)))))))"

definition kraken_order_book :: "json \<Rightarrow> order_book_state res" where
  "kraken_order_book r =
     res_bind (first_value r) (\<lambda>bookElement.
     res_bind (json_element bookElement ''asks'') (\<lambda>asks.
     res_bind (json_element bookElement ''bids'') (\<lambda>bids.
     res_bind (read_limited (kraken_levels asks bids) (int (json_size asks))) (\<lambda>levels.
     Inr \<lparr>ob_timeStamp = foldl (\<lambda>time l. max time (snd (snd l))) 0 levels,
          ob_asks = map fst levels, ob_bids = map (fst \<circ> snd) levels\<rparr>))))"

definition kraken_read_order_book :: "(string \<Rightarrow> json res) \<Rightarrow> string \<Rightarrow> order_book_state result res" where
  "kraken_read_order_book parse = kraken_read_result parse kraken_order_book"

definition kraken_read_balances :: "(string \<Rightarrow> json res) \<Rightarrow> string \<Rightarrow> (string \<times> double) list result res" where
  "kraken_read_balances parse = kraken_read_result parse (read_map (\<lambda>(key, v).
     res_bind key (\<lambda>k. res_map (Pair k) (get_stod v))))"

definition kraken_read_fee :: "(string \<Rightarrow> json res) \<Rightarrow> string \<Rightarrow> double result res" where
  "kraken_read_fee parse = kraken_read_result parse (\<lambda>r.
     res_bind (json_element r ''fees'') (\<lambda>fees. res_bind (first_value fees) (\<lambda>fee. member get_stod fee ''fee'')))"

definition kraken_read_add_order :: "(string \<Rightarrow> json res) \<Rightarrow> string \<Rightarrow> string result res" where
  "kraken_read_add_order parse = kraken_read_result parse (\<lambda>r.
     res_bind (member get_string_list r ''txid'') (\<lambda>ids. read_at ''vector index'' ids 0))"

text \<open>A result without a value does not look at the result element.\<close>

definition kraken_read_cancel_order :: "(string \<Rightarrow> json res) \<Rightarrow> string \<Rightarrow> unit result res" where
  "kraken_read_cancel_order parse text = try_result (res_bind (parse text) (\<lambda>json.
     kraken_checked json (Inr (Success ()))))"

section \<open>Requests\<close>

record kraken_api =
  ka_publicKey :: string
  ka_decodedPrivateKey :: string

definition kraken_base_url :: string where
  "kraken_base_url = ''https://api.kraken.com''"

definition kraken_order_type_string :: "order_type \<Rightarrow> string res" where
  "kraken_order_type_string orderType = (case orderType of
       LIMIT \<Rightarrow> Inr ''limit''
     | MARKET \<Rightarrow> Inr ''market''
     | STOP_LOSS \<Rightarrow> Inr ''stop-loss''
     | TAKE_PROFIT \<Rightarrow> Inr ''take-profit''
     | TRAILING_STOP_LOSS \<Rightarrow> Inl (Invalid_argument ''Order Type not recognized''))"

definition kraken_action_string :: "trade_action \<Rightarrow> string" where
  "kraken_action_string tradeAction = (if tradeAction = BUY then ''buy'' else ''sell'')"

definition kraken_create_pair_list :: "tradable_pair list \<Rightarrow> string res" where
  "kraken_create_pair_list pairs =
     (if pairs = [] then Inl (Undefined_behaviour ''pop_back of an empty string'')
      else Inr (butlast (concat (map (\<lambda>pair. pair_name pair @ '','') pairs))))"

definition kraken_path :: "string \<Rightarrow> string \<Rightarrow> string" where
  "kraken_path access method = ''/0/'' @ access @ ''/'' @ method"

definition kraken_sign :: "'w http_env \<Rightarrow> kraken_api \<Rightarrow> string \<Rightarrow> string \<Rightarrow> string \<Rightarrow> string" where
  "kraken_sign env api uriPath urlPostData nonce =
     he_b64_encode env (he_hmac_sha512 env (uriPath @ he_sha256 env (nonce @ urlPostData)) (ka_decodedPrivateKey api))"

definition kraken_public ::
    "'w http_env \<Rightarrow> string \<Rightarrow> (string \<Rightarrow> 'v result res) \<Rightarrow> string \<Rightarrow> ('w, 'v) action" where
  "kraken_public env method reader query =
     reading (build_url kraken_base_url (kraken_path ''public'' method) query) (\<lambda>url.
     request_value env (new_request GET url) reader)"

definition kraken_post_data :: "string \<Rightarrow> string \<Rightarrow> string" where
  "kraken_post_data nonce query = ''nonce='' @ nonce @ (if query \<noteq> [] then ''&'' @ query else [])"

definition kraken_private_request :: "'w http_env \<Rightarrow> kraken_api \<Rightarrow> string \<Rightarrow> string \<Rightarrow> string \<Rightarrow> string \<Rightarrow> http_request" where
  "kraken_private_request env api apiPath url nonce query =
     (let postData = kraken_post_data nonce query in
      set_content postData
        (add_header ''Accept'' ''application/json''
        (add_header ''Content-Type'' ''application/x-www-form-urlencoded''
        (add_header ''API-Sign'' (kraken_sign env api apiPath postData nonce)
        (add_header ''API-Key'' (ka_publicKey api) (new_request POST url))))))"

definition kraken_private ::
    "'w http_env \<Rightarrow> kraken_api \<Rightarrow> string \<Rightarrow> (string \<Rightarrow> 'v result res) \<Rightarrow> string \<Rightarrow> ('w, 'v) action" where
  "kraken_private env api method reader query =
     act_bind (epoch_milliseconds env) (\<lambda>nonce.
     let apiPath = kraken_path ''private'' method in
     reading (build_url kraken_base_url apiPath []) (\<lambda>url.
     request_value env (kraken_private_request env api apiPath url nonce query) reader))"

definition kraken_get_status :: "(string \<Rightarrow> json res) \<Rightarrow> 'w http_env \<Rightarrow> ('w, exchange_status) action" where
  "kraken_get_status parse env = kraken_public env ''SystemStatus'' (kraken_read_system_status parse) []"

definition kraken_get_tradable_pairs :: "(string \<Rightarrow> json res) \<Rightarrow> 'w http_env \<Rightarrow> ('w, tradable_pair list) action" where
  "kraken_get_tradable_pairs parse env = kraken_public env ''AssetPairs'' (kraken_read_tradable_pairs parse) []"

definition kraken_get_ohlcv ::
    "(string \<Rightarrow> json res) \<Rightarrow> 'w http_env \<Rightarrow> tradable_pair \<Rightarrow> ohlcv_interval \<Rightarrow> int \<Rightarrow> ('w, ohlcv_data list) action" where
  "kraken_get_ohlcv parse env tradablePair interval count =
     reading (to_seconds interval) (\<lambda>seconds.
     reading (build_query [(''pair'', pair_name tradablePair), (''interval'', show_int (seconds sdiv 60))]) (\<lambda>query.
     kraken_public env ''OHLC'' (\<lambda>answer. kraken_read_ohlcv_data parse answer count) query))"

definition kraken_get_price :: "(string \<Rightarrow> json res) \<Rightarrow> 'w http_env \<Rightarrow> tradable_pair \<Rightarrow> ('w, double) action" where
  "kraken_get_price parse env tradablePair =
     reading (build_query [(''pair'', pair_name tradablePair)]) (\<lambda>query.
     kraken_public env ''Ticker'' (kraken_read_price parse) query)"

definition kraken_get_prices ::
    "(string \<Rightarrow> json res) \<Rightarrow> 'w http_env \<Rightarrow> tradable_pair list \<Rightarrow> ('w, (tradable_pair \<times> double) list) action" where
  "kraken_get_prices parse env pairs =
     reading (kraken_create_pair_list pairs) (\<lambda>pairList.
     reading (build_query [(''pair'', pairList)]) (\<lambda>query.
     pair_results pairs (kraken_public env ''Ticker'' (kraken_read_prices parse) query)))"

definition kraken_get_order_book ::
    "(string \<Rightarrow> json res) \<Rightarrow> 'w http_env \<Rightarrow> tradable_pair \<Rightarrow> int \<Rightarrow> ('w, order_book_state) action" where
  "kraken_get_order_book parse env tradablePair depth =
     reading (build_query [(''pair'', pair_name tradablePair), (''count'', show_int depth)]) (\<lambda>query.
     kraken_public env ''Depth'' (kraken_read_order_book parse) query)"

definition kraken_get_fee ::
    "(string \<Rightarrow> json res) \<Rightarrow> 'w http_env \<Rightarrow> kraken_api \<Rightarrow> tradable_pair \<Rightarrow> ('w, double) action" where
  "kraken_get_fee parse env api tradablePair =
     reading (build_query [(''pair'', pair_name tradablePair)]) (\<lambda>query.
     kraken_private env api ''TradeVolume'' (kraken_read_fee parse) query)"

definition kraken_get_balances ::
    "(string \<Rightarrow> json res) \<Rightarrow> 'w http_env \<Rightarrow> kraken_api \<Rightarrow> ('w, (string \<times> double) list) action" where
  "kraken_get_balances parse env api = kraken_private env api ''Balance'' (kraken_read_balances parse) []"

definition kraken_get_open_orders ::
    "(string \<Rightarrow> json res) \<Rightarrow> 'w http_env \<Rightarrow> kraken_api \<Rightarrow> ('w, order_description list) action" where
  "kraken_get_open_orders parse env api = kraken_private env api ''OpenOrders'' (kraken_read_open_orders parse) []"

definition kraken_get_closed_orders ::
    "(string \<Rightarrow> json res) \<Rightarrow> 'w http_env \<Rightarrow> kraken_api \<Rightarrow> ('w, order_description list) action" where
  "kraken_get_closed_orders parse env api = kraken_private env api ''ClosedOrders'' (kraken_read_closed_orders parse) []"

definition kraken_order_parameters :: "order_request \<Rightarrow> (string \<times> string) list res" where
  "kraken_order_parameters description =
     res_bind (kraken_order_type_string (rq_orderType description)) (\<lambda>ordertype.
     Inr [(''pair'', pair_name (rq_pair description)),
          (''type'', kraken_action_string (rq_action description)),
          (''ordertype'', ordertype),
          (''price'', show_double (rq_get description ASSET_PRICE)),
          (''volume'', show_double (rq_get description VOLUME))])"

definition kraken_add_order ::
    "(string \<Rightarrow> json res) \<Rightarrow> 'w http_env \<Rightarrow> kraken_api \<Rightarrow> order_request \<Rightarrow> ('w, string) action" where
  "kraken_add_order parse env api description =
     reading (res_bind (kraken_order_parameters description) build_query) (\<lambda>query.
     kraken_private env api ''AddOrder'' (kraken_read_add_order parse) query)"

definition kraken_cancel_order ::
    "(string \<Rightarrow> json res) \<Rightarrow> 'w http_env \<Rightarrow> kraken_api \<Rightarrow> string \<Rightarrow> ('w, unit) action" where
  "kraken_cancel_order parse env api orderId =
     reading (build_query [(''txid'', orderId)]) (\<lambda>query.
     kraken_private env api ''CancelOrder'' (kraken_read_cancel_order parse) query)"

section \<open>The stream\<close>

definition kraken_channel_name :: "websocket_channel \<Rightarrow> string" where
  "kraken_channel_name c = (case c of TRADE \<Rightarrow> ''trade'' | OHLCV \<Rightarrow> ''ohlc'' | ORDER_BOOK \<Rightarrow> ''book'')"

definition kraken_create_message :: "string \<Rightarrow> websocket_subscription \<Rightarrow> json res" where
  "kraken_create_message eventName subscription =
     res_bind (case sb_channel subscription of
         OHLCV \<Rightarrow> res_bind (get_ohlcv_interval subscription) (\<lambda>i. res_bind (to_minutes i) (\<lambda>m.
           Inr [(''interval'', JInt m)]))
       | ORDER_BOOK \<Rightarrow> Inr [(''depth'', JInt 100)]
       | TRADE \<Rightarrow> Inr []) (\<lambda>more.
     Inr (json_object
       [(''event'', JString eventName),
        (''pair'', JArray (map (\<lambda>pair. JString (pair_to_string pair (CHR ''/''))) (sb_pairItem subscription))),
        (''subscription'', json_object ((''name'', JString (kraken_channel_name (sb_channel subscription))) # more))]))"

definition kraken_entry_time :: "json \<Rightarrow> time_t res" where
  "kraken_entry_time entryElement = res_bind (item get_string entryElement 2) stoll"

definition kraken_stamped_entry :: "order_book_side \<Rightarrow> json \<Rightarrow> (order_book_entry \<times> time_t) res" where
  "kraken_stamped_entry side element =
     res_bind (entry_of get_stod side element) (\<lambda>e. res_map (Pair e) (kraken_entry_time element))"

fun kraken_cache_loop :: "json \<Rightarrow> json \<Rightarrow> nat list \<Rightarrow> order_book_cache \<Rightarrow> order_book_cache res" where
  "kraken_cache_loop asks bids [] c = Inr c"
| "kraken_cache_loop asks bids (i # is) c =
     res_bind (if i < json_size asks
         then res_bind (json_index asks (int i)) (\<lambda>x. res_map (\<lambda>(e, t).
           c\<lparr>bc_asks := set_insert entry_less_than e (bc_asks c), bc_lastUpdate := max (bc_lastUpdate c) t\<rparr>)
             (kraken_stamped_entry ASK x))
         else Inr c) (\<lambda>c.
     res_bind (if i < json_size bids
         then res_bind (json_index bids (int i)) (\<lambda>x. res_map (\<lambda>(e, t).
           c\<lparr>bc_bids := set_insert entry_greater_than e (bc_bids c), bc_lastUpdate := max (bc_lastUpdate c) t\<rparr>)
             (kraken_stamped_entry BID x))
         else Inr c) (\<lambda>c.
     kraken_cache_loop asks bids is c))"

definition kraken_create_order_book_cache :: "json \<Rightarrow> order_book_cache res" where
  "kraken_create_order_book_cache json =
     res_bind (json_element json ''as'') (\<lambda>asks.
     res_bind (json_element json ''bs'') (\<lambda>bids.
     kraken_cache_loop asks bids [0..<max (json_size asks) (json_size bids)] empty_order_book_cache))"

definition kraken_trade :: "json \<Rightarrow> trade_update res" where
  "kraken_trade e =
     res_bind (item get_stod e 0) (\<lambda>price.
     res_bind (item get_stod e 1) (\<lambda>volume.
     res_bind (item get_string e 2) (\<lambda>t. res_bind (stoll t) (\<lambda>time.
     Inr \<lparr>tu_timeStamp = time, tu_price = price, tu_volume = volume\<rparr>))))"

definition kraken_process_trade_message ::
    "('h, 'c, 'w) stream_calls \<Rightarrow> string \<Rightarrow> json \<Rightarrow> ('h, 'c, 'w, unit) ws_action" where
  "kraken_process_trade_message calls pairName json =
     reading (json_index json 1) (\<lambda>tradesArray.
     read_updates kraken_trade (ws_update_trade (sc_trade calls) pairName) (json_values tradesArray))"

definition kraken_ohlcv :: "json \<Rightarrow> ohlcv_data res" where
  "kraken_ohlcv a =
     res_bind (item get_string a 0) (\<lambda>t. res_bind (stoll t) (\<lambda>time.
     res_bind (item get_stod a 2) (\<lambda>p. res_bind (item get_stod a 3) (\<lambda>h.
     res_bind (item get_stod a 4) (\<lambda>l. res_bind (item get_stod a 5) (\<lambda>c.
     res_bind (item get_stod a 7) (\<lambda>v.
     Inr \<lparr>oh_timeStamp = time, oh_open = p, oh_high = h, oh_low = l, oh_close = c, oh_volume = v\<rparr>)))))))"

definition kraken_process_ohlcv_message ::
    "('h, 'c, 'w) stream_calls \<Rightarrow> string \<Rightarrow> string \<Rightarrow> json \<Rightarrow> ('h, 'c, 'w, unit) ws_action" where
  "kraken_process_ohlcv_message calls pairName channelName json =
     reading (json_index json 1) (\<lambda>ohlcArray.
     reading (read_at ''vector index'' (split channelName (CHR ''-'')) 1) (\<lambda>minuteInterval.
     reading (stoi minuteInterval) (\<lambda>m.
     reading (kraken_ohlcv ohlcArray) (\<lambda>ohlcv.
     ws_update_ohlcv (sc_ohlcv calls) pairName (from_minutes m) ohlcv))))"

definition kraken_process_order_book_updates ::
    "('h, 'c, 'w) stream_calls \<Rightarrow> string \<Rightarrow> json \<Rightarrow> ('h, 'c, 'w, unit) ws_action" where
  "kraken_process_order_book_updates calls pairName updateObject =
     (let (side, name) = (if has_member updateObject ''a'' then (ASK, ''a'') else (BID, ''b'')) in
      reading (json_element updateObject name) (\<lambda>updateElement.
      read_updates (kraken_stamped_entry side)
        (\<lambda>(entry, timeStamp). ws_update_order_book (sc_book calls) pairName timeStamp entry)
        (json_values updateElement)))"

definition kraken_process_order_book_message ::
    "('h, 'c, 'w) stream_calls \<Rightarrow> string \<Rightarrow> json \<Rightarrow> ('h, 'c, 'w, unit) ws_action" where
  "kraken_process_order_book_message calls pairName json =
     (if json_size json = 4
      then reading (json_index json 1) (\<lambda>entryObject.
        if has_member entryObject ''as''
        then reading (kraken_create_order_book_cache entryObject) (\<lambda>cache.
               initialise_order_book (sc_book calls) pairName cache)
        else kraken_process_order_book_updates calls pairName entryObject)
      else act_seq
        (reading (json_index json 1) (kraken_process_order_book_updates calls pairName))
        (reading (json_index json 2) (kraken_process_order_book_updates calls pairName)))"

definition kraken_on_message ::
    "(string \<Rightarrow> json res) \<Rightarrow> ('h, 'c, 'w) stream_calls \<Rightarrow> string \<Rightarrow> ('h, 'c, 'w, unit) ws_action" where
  "kraken_on_message parse calls message =
     reading (parse message) (\<lambda>json.
     if json_type json = ARRAY
     then reading (item get_string json (int (json_size json) - 2)) (\<lambda>channelName.
       reading (item get_string json (int (json_size json) - 1)) (\<lambda>pairName.
       if channelName = ''trade'' then kraken_process_trade_message calls pairName json
       else if contains_str channelName ''ohlc'' then kraken_process_ohlcv_message calls pairName channelName json
       else if contains_str channelName ''book'' then kraken_process_order_book_message calls pairName json
       else act_return ()))
     else act_return ())"

definition kraken_send_subscribe ::
    "(json \<Rightarrow> string) \<Rightarrow> (string \<Rightarrow> ('h, 'c, 'w, unit) ws_action) \<Rightarrow> websocket_subscription \<Rightarrow>
     ('h, 'c, 'w, unit) ws_action" where
  "kraken_send_subscribe dump send subscription =
     reading (kraken_create_message ''subscribe'' subscription) (\<lambda>json. send (dump json))"

definition kraken_send_unsubscribe ::
    "(json \<Rightarrow> string) \<Rightarrow> (string \<Rightarrow> ('h, 'c, 'w, unit) ws_action) \<Rightarrow> websocket_subscription \<Rightarrow>
     ('h, 'c, 'w, unit) ws_action" where
  "kraken_send_unsubscribe dump send subscription =
     reading (kraken_create_message ''unsubscribe'' subscription) (\<lambda>json. send (dump json))"

definition create_kraken_stream :: "'w \<Rightarrow> ('h, 'c, 'w) websocket_stream" where
  "create_kraken_stream client = create_websocket_stream ''wss://ws.kraken.com'' (CHR ''/'') client"

section \<open>Books\<close>

text \<open>A level as the exchange writes it: two decimal strings and a time.\<close>

definition level_json :: "string \<times> string \<times> time_t \<Rightarrow> json" where
  "level_json l = JArray [JString (fst l), JString (fst (snd l)), JInt (snd (snd l))]"

definition level_reads :: "order_book_side \<Rightarrow> string \<times> string \<times> time_t \<Rightarrow> order_book_entry \<Rightarrow> bool" where
  "level_reads side l e \<longleftrightarrow> stod (fst l) = Inr (oe_price e) \<and> stod (fst (snd l)) = Inr (oe_volume e) \<and>
     oe_side e = side"

lemma level_entry: "level_reads side l e \<Longrightarrow> entry_of get_stod side (level_json l) = Inr e"
  by (cases e) (auto simp: entry_of_def level_json_def level_reads_def json_simps read_at_def)

lemma level_time: "int64 (snd (snd l)) \<Longrightarrow> item get_time (level_json l) 2 = Inr (snd (snd l))"
  by (simp add: level_json_def item_def read_at_def int64_narrow)

definition kraken_book_json :: "string \<Rightarrow> (string \<times> string \<times> time_t) list \<Rightarrow> (string \<times> string \<times> time_t) list \<Rightarrow> json" where
  "kraken_book_json name asks bids = JObject [(''error'', JArray []),
     (''result'', JObject [(name, JObject [(''asks'', JArray (map level_json asks)),
        (''bids'', JArray (map level_json bids))])])]"

lemma kraken_levels_read:
  assumes "list_all2 (level_reads ASK) asks as" "list_all2 (level_reads BID) bids bs"
    and "\<forall>l \<in> set asks \<union> set bids. int64 (snd (snd l))" "i < length asks"
  shows "kraken_levels (JArray (map level_json asks)) (JArray (map level_json bids)) (int i) =
    (if i < length bids then Inr (as ! i, bs ! i, max (snd (snd (asks ! i))) (snd (snd (bids ! i))))
     else Inl (Undefined_behaviour ''array index''))"
proof -
  have a: "entry_of get_stod ASK (level_json (asks ! i)) = Inr (as ! i)"
    using assms(1,4) by (intro level_entry) (simp add: list_all2_nthD)
  have ta: "item get_time (level_json (asks ! i)) 2 = Inr (snd (snd (asks ! i)))"
    using assms(3,4) by (intro level_time) simp
  show ?thesis
  proof (cases "i < length bids")
    case True
    have "entry_of get_stod BID (level_json (bids ! i)) = Inr (bs ! i)"
      using assms(2) True by (intro level_entry) (simp add: list_all2_nthD)
    moreover have "item get_time (level_json (bids ! i)) 2 = Inr (snd (snd (bids ! i)))"
      using assms(3) True by (intro level_time) simp
    ultimately show ?thesis using a ta assms(4) True by (simp add: kraken_levels_def read_at_def)
  next
    case False
    with a assms(4) show ?thesis by (simp add: kraken_levels_def read_at_def)
  qed
qed

lemma Max_insert_max: "finite S \<Longrightarrow> Max (insert (max c t) S) = Max (insert c (insert (t :: int) S))"
  by (cases "S = {}") (simp_all add: max.assoc)

lemma foldl_max: "foldl (\<lambda>m x. max m (f x)) c xs = Max (insert (c :: int) (f ` set xs))"
  by (induction xs arbitrary: c) (simp_all add: Max_insert_max)

text \<open>The time of a book is the latest of its levels.\<close>

lemma book_time:
  fixes asks bids :: "('a \<times> 'b \<times> int) list"
  assumes "length bids = length asks"
  shows "foldl (\<lambda>time l. max time (snd (snd l))) c (map (\<lambda>i. (as ! i, bs ! i,
      max (snd (snd (asks ! i))) (snd (snd (bids ! i))))) [0..<length asks]) =
    Max (insert c ((\<lambda>l. snd (snd l)) ` (set asks \<union> set bids)))" (is "foldl _ _ ?ys = Max ?times")
proof -
  let ?latest = "insert c ((\<lambda>i. max (snd (snd (asks ! i))) (snd (snd (bids ! i)))) ` {0..<length asks})"
  have "foldl (\<lambda>time l. max time (snd (snd l))) c ?ys = Max ?latest" by (simp add: foldl_max image_image)
  also have "\<dots> = Max ?times"
  proof (rule Max_eq_if)
    show "\<forall>x \<in> ?latest. \<exists>y \<in> ?times. x \<le> y" using assms by (auto simp: max_def)
    show "\<forall>x \<in> ?times. \<exists>y \<in> ?latest. x \<le> y"
    proof
      fix x assume "x \<in> ?times"
      then consider "x = c" | i where "i < length asks" "x = snd (snd (asks ! i)) \<or> x = snd (snd (bids ! i))"
        using assms by (auto simp: in_set_conv_nth)
      then show "\<exists>y \<in> ?latest. x \<le> y"
      proof cases
        case (2 i)
        then show ?thesis by (intro bexI [of _ "max (snd (snd (asks ! i))) (snd (snd (bids ! i)))"]) auto
      qed simp
    qed
  qed simp_all
  finally show ?thesis .
qed

text \<open>
  C39: a book with as many bids as asks is read level by level, each on its side, at the latest
  of its times; one with fewer bids makes the reader index past the end of the bids, which is
  undefined behaviour and not a failed result.
\<close>

theorem kraken_order_book_read:
  assumes "parse text = Inr (kraken_book_json name asks bids)"
    and "list_all2 (level_reads ASK) asks as" "list_all2 (level_reads BID) bids bs"
    and "\<forall>l \<in> set asks \<union> set bids. int64 (snd (snd l))"
  shows "(length bids = length asks \<longrightarrow> kraken_read_order_book parse text =
      Inr (Success \<lparr>ob_timeStamp = Max (insert 0 ((\<lambda>l. snd (snd l)) ` (set asks \<union> set bids))),
        ob_asks = as, ob_bids = bs\<rparr>)) \<and>
    (length bids < length asks \<longrightarrow> kraken_read_order_book parse text =
      Inl (Undefined_behaviour ''array index''))"
proof -
  let ?a = "JArray (map level_json asks)" and ?b = "JArray (map level_json bids)"
  let ?r = "res_traverse (kraken_levels ?a ?b) (map int [0..<length asks])"
  note lv = kraken_levels_read [OF assms(2-4)]
  have run: "kraken_read_order_book parse text = try_result (res_bind ?r (\<lambda>levels.
      Inr (Success \<lparr>ob_timeStamp = foldl (\<lambda>time l. max time (snd (snd l))) 0 levels,
        ob_asks = map fst levels, ob_bids = map (fst \<circ> snd) levels\<rparr>)))"
    by (cases ?r) (simp_all add: kraken_read_order_book_def kraken_read_result_def kraken_checked_def
        kraken_get_error_def assms(1) kraken_book_json_def member_def kraken_order_book_def read_limited_def
        success_def)
  have len: "length as = length asks" "length bs = length bids" using assms(2,3) by (simp_all add: list_all2_lengthD)
  show ?thesis
  proof (intro conjI impI)
    assume l: "length bids = length asks"
    let ?ys = "map (\<lambda>i. (as ! i, bs ! i, max (snd (snd (asks ! i))) (snd (snd (bids ! i))))) [0..<length asks]"
    have r: "?r = Inr ?ys" by (rule res_traverse_nth) (simp_all add: lv l)
    note book_time [OF l, of 0 as bs]
    moreover have "map fst ?ys = as" "map (fst \<circ> snd) ?ys = bs"
      using len l by (auto intro: nth_equalityI)
    ultimately show "kraken_read_order_book parse text =
      Inr (Success \<lparr>ob_timeStamp = Max (insert 0 ((\<lambda>l. snd (snd l)) ` (set asks \<union> set bids))),
        ob_asks = as, ob_bids = bs\<rparr>)" by (simp only: run r res_bind.simps try_result_def sum.case)
  next
    assume l: "length bids < length asks"
    have "?r = Inl (Undefined_behaviour ''array index'')"
      by (rule res_traverse_first_error [of "length bids"]) (use l lv in auto)
    then show "kraken_read_order_book parse text = Inl (Undefined_behaviour ''array index'')"
      by (simp add: run try_result_def)
  qed
qed

text \<open>One ask and one bid, at different times.\<close>

theorem kraken_order_book_read_witness:
  "kraken_read_order_book (\<lambda>_. Inr (kraken_book_json ''XXBTZGBP'' [(''1.5'', ''2'', 100)] [(''1.25'', ''3'', 99)])) [] =
    Inr (Success \<lparr>ob_timeStamp = 100, ob_asks = [\<lparr>oe_price = Fin (3 / 2), oe_volume = Fin 2, oe_side = ASK\<rparr>],
      ob_bids = [\<lparr>oe_price = Fin (5 / 4), oe_volume = Fin 3, oe_side = BID\<rparr>]\<rparr>)"
proof -
  have a: "list_all2 (level_reads ASK) [(''1.5'', ''2'', 100)] [\<lparr>oe_price = Fin (3 / 2), oe_volume = Fin 2, oe_side = ASK\<rparr>]"
    by code_simp
  have b: "list_all2 (level_reads BID) [(''1.25'', ''3'', 99)] [\<lparr>oe_price = Fin (5 / 4), oe_volume = Fin 3, oe_side = BID\<rparr>]"
    by code_simp
  show ?thesis
    using kraken_order_book_read [of "\<lambda>_. Inr (kraken_book_json ''XXBTZGBP'' [(''1.5'', ''2'', 100)] [(''1.25'', ''3'', 99)])" "[]",
      OF refl a b] by (simp add: int64_def)
qed

section \<open>Messages of the stream\<close>

lemma kraken_stream_client [simp]: "ws_client (create_kraken_stream w) = w"
  by (simp add: create_kraken_stream_def create_websocket_stream_def)

text \<open>
  C30: a message of trades for a known pair stores the last of its trades and calls every
  handler of trades once for each of them, in the order of the message.
\<close>

theorem kraken_trades_delivered:
  assumes "parse message = Inr (JArray [channelId, JArray trades, JString ''trade'', JString name])"
    and "res_traverse kraken_trade trades = Inr us"
    and "ws_pairs s name = Some p" "sc_trade calls = log_call"
  shows "kraken_on_message parse calls message s =
    (Inr (), s\<lparr>ws_trades := (if us = [] then ws_trades s else (ws_trades s)(name \<mapsto> last us)),
      ws_client := ws_client s @ concat (map (\<lambda>t. map (\<lambda>h. (h, \<lparr>tm_pair = p, tm_trade = t\<rparr>))
        (ws_tradeUpdateHandlers s)) us)\<rparr>)"
  using assms
  by (simp add: kraken_on_message_def item_def read_at_def kraken_process_trade_message_def json_simps
      read_updates_all [OF assms(2)] logged_trades o_def)

theorem kraken_trades_delivered_witness:
  "let p = \<lparr>tp_asset = ''XBT'', tp_priceUnit = ''GBP''\<rparr>;
       s = (create_kraken_stream [] :: (nat, nat, (nat \<times> trade_update_message) list) websocket_stream)
         \<lparr>ws_pairs := [''XBT/GBP'' \<mapsto> p], ws_tradeUpdateHandlers := [7]\<rparr>;
       t = \<lambda>price time. JArray [JString price, JString ''1'', JString time];
       u = \<lambda>price time. \<lparr>tu_timeStamp = time, tu_price = Fin price, tu_volume = Fin 1\<rparr>;
       calls = \<lparr>sc_trade = log_call, sc_ohlcv = \<lambda>_ _. act_return (), sc_book = \<lambda>_ _. act_return ()\<rparr>;
       r = kraken_on_message (\<lambda>_. Inr (JArray [JInt 0, JArray [t ''2'' ''5.1'', t ''3'' ''6.2''],
             JString ''trade'', JString ''XBT/GBP''])) calls [] s
   in fst r = Inr () \<and> ws_trades (snd r) ''XBT/GBP'' = Some (u 3 6) \<and>
      ws_client (snd r) = [(7, \<lparr>tm_pair = p, tm_trade = u 2 5\<rparr>), (7, \<lparr>tm_pair = p, tm_trade = u 3 6\<rparr>)]"
proof -
  let ?p = "\<lparr>tp_asset = ''XBT'', tp_priceUnit = ''GBP''\<rparr>"
  let ?s = "(create_kraken_stream [] :: (nat, nat, (nat \<times> trade_update_message) list) websocket_stream)
    \<lparr>ws_pairs := [''XBT/GBP'' \<mapsto> ?p], ws_tradeUpdateHandlers := [7]\<rparr>"
  let ?xs = "[JArray [JString ''2'', JString ''1'', JString ''5.1''], JArray [JString ''3'', JString ''1'', JString ''6.2'']]"
  let ?us = "[\<lparr>tu_timeStamp = 5, tu_price = Fin 2, tu_volume = Fin 1\<rparr>, \<lparr>tu_timeStamp = 6, tu_price = Fin 3, tu_volume = Fin 1\<rparr>]"
  let ?calls = "\<lparr>sc_trade = log_call, sc_ohlcv = \<lambda>_ _. act_return (), sc_book = \<lambda>_ _. act_return ()\<rparr>"
  have t: "res_traverse kraken_trade ?xs = Inr ?us" by code_simp
  show ?thesis
    using kraken_trades_delivered [of "\<lambda>_. Inr (JArray [JInt 0, JArray ?xs, JString ''trade'', JString ''XBT/GBP''])"
      "[]" "JInt 0" ?xs "''XBT/GBP''" ?us ?s ?p ?calls, OF refl t]
    by (simp add: Let_def)
qed

text \<open>
  C19: a message with the changes of both sides of a known book applies them in the order of
  the message, the asks first: at prices the comparator tells apart, each side of the stored
  book afterwards is the exchange's map of live levels, and every handler of books saw every
  change once.
\<close>

theorem kraken_book_changes_applied:
  assumes "parse message = Inr (JArray [channelId, JObject [(''a'', JArray asks)], JObject [(''b'', JArray bids)],
      JString ''book-100'', JString name])"
    and "res_traverse (kraken_stamped_entry ASK) asks = Inr us" "res_traverse (kraken_stamped_entry BID) bids = Inr vs"
    and "ws_pairs s name = Some p" "ws_orderBooks s name = Some cache" "sc_book calls = log_call"
    and "cache_ok P cache" "oe_price ` fst ` set (us @ vs) \<subseteq> P"
    and "(r, t) = kraken_on_message parse calls message s"
  shows "r = Inr () \<and> (\<exists>book. ws_orderBooks t name = Some book \<and> cache_ok P book \<and>
      level (bc_asks book) = foldl (level_update ASK) (level (bc_asks cache)) (map prod.swap (us @ vs)) \<and>
      level (bc_bids book) = foldl (level_update BID) (level (bc_bids cache)) (map prod.swap (us @ vs))) \<and>
    ws_client t = ws_client s @ concat (map (\<lambda>(e, _). map (\<lambda>h. (h, \<lparr>bm_pair = p, bm_entry = e\<rparr>))
      (ws_orderBookUpdateHandlers s)) (us @ vs))"
proof -
  let ?changes = "map prod.swap (us @ vs)"
  have swap: "(\<lambda>(e, t). (t, e)) = prod.swap" by (simp add: fun_eq_iff split: prod.split)
  have no: "\<not> contains_str ''book-100'' ''ohlc''" "contains_str ''book-100'' ''book''" by code_simp+
  have t: "kraken_on_message parse calls message s =
      (Inr (), s\<lparr>ws_orderBooks := (ws_orderBooks s)(name \<mapsto> cache_run cache ?changes),
        ws_client := ws_client s @ concat (map (\<lambda>(e, _). map (\<lambda>h. (h, \<lparr>bm_pair = p, bm_entry = e\<rparr>))
          (ws_orderBookUpdateHandlers s)) (us @ vs))\<rparr>)"
    using assms(1,4-6)
    by (simp add: kraken_on_message_def item_def read_at_def kraken_process_order_book_message_def no
        kraken_process_order_book_updates_def json_simps o_def act_bind_def read_updates_all [OF assms(2)]
        read_updates_all [OF assms(3)] logged_book_updates [of s name p cache] swap
        logged_book_updates [of "s\<lparr>ws_orderBooks := m, ws_client := c\<rparr>" name p for m c] cache_run_def)
  have "oe_price ` snd ` set ?changes = oe_price ` fst ` set (us @ vs)" by (simp add: image_image image_Un)
  with assms(8) have P: "oe_price ` snd ` set ?changes \<subseteq> P" by simp
  have ok: "cache_ok P (cache_run cache ?changes) \<and>
      level (bc_asks (cache_run cache ?changes)) = foldl (level_update ASK) (level (bc_asks cache)) ?changes \<and>
      level (bc_bids (cache_run cache ?changes)) = foldl (level_update BID) (level (bc_bids cache)) ?changes"
    using cache_run_ok [OF assms(7) P] by blast
  from t assms(9) have r: "r = Inr ()" "ws_orderBooks t name = Some (cache_run cache ?changes)"
      "ws_client t = ws_client s @ concat (map (\<lambda>(e, _). map (\<lambda>h. (h, \<lparr>bm_pair = p, bm_entry = e\<rparr>))
        (ws_orderBookUpdateHandlers s)) (us @ vs))" by simp_all
  with ok show ?thesis by blast
qed

text \<open>The ask at 2 is removed, a bid at 1 comes in.\<close>

theorem kraken_book_changes_applied_witness:
  "let p = \<lparr>tp_asset = ''XBT'', tp_priceUnit = ''GBP''\<rparr>;
       s = (create_kraken_stream [] :: (nat, nat, (nat \<times> order_book_update_message) list) websocket_stream)
         \<lparr>ws_pairs := [''XBT/GBP'' \<mapsto> p], ws_orderBookUpdateHandlers := [7],
          ws_orderBooks := [''XBT/GBP'' \<mapsto> \<lparr>bc_lastUpdate = 1, bc_asks = [ask_at 2 1], bc_bids = []\<rparr>]\<rparr>;
       bid = \<lparr>oe_price = Fin 1, oe_volume = Fin 4, oe_side = BID\<rparr>;
       calls = \<lparr>sc_trade = \<lambda>_ _. act_return (), sc_ohlcv = \<lambda>_ _. act_return (), sc_book = log_call\<rparr>;
       r = kraken_on_message (\<lambda>_. Inr (JArray [JInt 0,
             JObject [(''a'', JArray [JArray [JString ''2'', JString ''0'', JString ''7'']])],
             JObject [(''b'', JArray [JArray [JString ''1'', JString ''4'', JString ''8'']])],
             JString ''book-100'', JString ''XBT/GBP''])) calls [] s
   in fst r = Inr () \<and> ws_client (snd r) = [(7, \<lparr>bm_pair = p, bm_entry = ask_at 2 0\<rparr>), (7, \<lparr>bm_pair = p, bm_entry = bid\<rparr>)] \<and>
      (\<exists>book. ws_orderBooks (snd r) ''XBT/GBP'' = Some book \<and> level (bc_asks book) (Fin 2) = None \<and>
        level (bc_bids book) (Fin 1) = Some bid)"
proof -
  let ?p = "\<lparr>tp_asset = ''XBT'', tp_priceUnit = ''GBP''\<rparr>"
  let ?cache = "\<lparr>bc_lastUpdate = 1, bc_asks = [ask_at 2 1], bc_bids = []\<rparr>"
  let ?s = "(create_kraken_stream [] :: (nat, nat, (nat \<times> order_book_update_message) list) websocket_stream)
    \<lparr>ws_pairs := [''XBT/GBP'' \<mapsto> ?p], ws_orderBookUpdateHandlers := [7], ws_orderBooks := [''XBT/GBP'' \<mapsto> ?cache]\<rparr>"
  let ?bid = "\<lparr>oe_price = Fin 1, oe_volume = Fin 4, oe_side = BID\<rparr>"
  let ?a = "[JArray [JString ''2'', JString ''0'', JString ''7'']]" and ?b = "[JArray [JString ''1'', JString ''4'', JString ''8'']]"
  let ?parse = "\<lambda>_. Inr (JArray [JInt 0, JObject [(''a'', JArray ?a)], JObject [(''b'', JArray ?b)],
    JString ''book-100'', JString ''XBT/GBP''])"
  let ?calls = "\<lparr>sc_trade = \<lambda>_ _. act_return (), sc_ohlcv = \<lambda>_ _. act_return (), sc_book = log_call\<rparr>"
  let ?r = "kraken_on_message ?parse ?calls [] ?s"
  have a: "res_traverse (kraken_stamped_entry ASK) ?a = Inr [(ask_at 2 0, 7)]" by code_simp
  have b: "res_traverse (kraken_stamped_entry BID) ?b = Inr [(?bid, 8)]" by code_simp
  have "\<not> double_equal (Fin 1) (Fin 2)" "\<not> double_equal (Fin 2) (Fin 1)" by code_simp+
  then have sep: "separated {Fin 1, Fin 2}" by (simp add: separated_def is_finite_def)
  then have ok: "cache_ok {Fin 1, Fin 2} ?cache"
    by (simp add: cache_ok_def ask_side.side_ok_def bid_side.side_ok_def ask_at_def)
  note applied = kraken_book_changes_applied [of ?parse "[]" "JInt 0" ?a ?b "''XBT/GBP''" "[(ask_at 2 0, 7)]" "[(?bid, 8)]"
      ?s ?p ?cache ?calls "{Fin 1, Fin 2}" "fst ?r" "snd ?r", OF refl a b _ _ _ ok]
  show ?thesis
    unfolding Let_def using applied
    by (auto simp: level_update_def ask_at_def zero_double_def)
qed

section \<open>Failures\<close>

interpretation kraken_answers: answer_reader "kraken_read_result parse reader" for parse reader
  by unfold_locales (auto simp: kraken_read_result_def dest: try_result_no_throw)

interpretation kraken_cancels: answer_reader "kraken_read_cancel_order parse" for parse
  by unfold_locales (auto simp: kraken_read_cancel_order_def dest: try_result_no_throw)

lemma kraken_requests_catchable [catchable_rules]:
  "catchable (kraken_public env method (kraken_read_result parse reader) query)"
  "catchable (kraken_private env api method (kraken_read_result parse reader) query)"
  "catchable (kraken_private env api method (kraken_read_cancel_order parse) query)"
  unfolding kraken_public_def kraken_private_def Let_def
  by (intro catchable_rules kraken_answers.request_catchable kraken_cancels.request_catchable)+

end
