(* ===== verification/Coinbase.thy ===== *)
theory Coinbase
  imports Requests
begin

text \<open>
  \<^verbatim>\<open>exchanges/coinbase/\<close>: the readers of the answers (\<^verbatim>\<open>coinbase_results.cpp\<close>)
  and the market stream (\<^verbatim>\<open>coinbase_websocket.cpp\<close>). The parser and \<^verbatim>\<open>to_time_t\<close>,
  which depends on the local time zone, are parameters. The stream has no candles of its own:
  it builds them from the trades.
\<close>

section \<open>Answers\<close>

definition coinbase_read_result ::
    "(string \<Rightarrow> json res) \<Rightarrow> (json \<Rightarrow> 'v res) \<Rightarrow> string \<Rightarrow> 'v result res" where
  "coinbase_read_result parse reader text = try_result (res_bind (parse text) (\<lambda>json.
     if has_member json ''message'' then res_map Fail (member get_string json ''message'')
     else success (reader json)))"

definition coinbase_to_trade_action :: "string \<Rightarrow> trade_action" where
  "coinbase_to_trade_action actionString = (if actionString = ''buy'' then BUY else SELL)"

text \<open>The function ends without a \<^verbatim>\<open>return\<close> for any other type.\<close>

definition coinbase_to_order_type :: "string \<Rightarrow> order_type res" where
  "coinbase_to_order_type s =
     (if s = ''limit'' then Inr LIMIT
      else if s = ''market'' then Inr MARKET
      else if s = ''stop'' then Inr STOP_LOSS
      else Inl (Undefined_behaviour ''no return value''))"

definition coinbase_pair :: "json \<Rightarrow> tradable_pair res" where
  "coinbase_pair pairElement =
     res_bind (member get_string pairElement ''base_currency'') (\<lambda>asset.
     res_bind (member get_string pairElement ''quote_currency'') (\<lambda>priceUnit.
     Inr \<lparr>tp_asset = asset, tp_priceUnit = priceUnit\<rparr>))"

definition coinbase_read_tradable_pairs :: "(string \<Rightarrow> json res) \<Rightarrow> string \<Rightarrow> tradable_pair list result res" where
  "coinbase_read_tradable_pairs parse = coinbase_read_result parse (read_vector coinbase_pair)"

definition coinbase_candles :: "int \<Rightarrow> json \<Rightarrow> ohlcv_data list res" where
  "coinbase_candles count json =
     read_limited (\<lambda>i. res_bind (json_index json i) (candle_of get_double (\<lambda>t. t) [3, 2, 1, 4, 5]))
       (min (int (json_size json)) count)"

definition coinbase_read_ohlcv_data ::
    "(string \<Rightarrow> json res) \<Rightarrow> string \<Rightarrow> int \<Rightarrow> ohlcv_data list result res" where
  "coinbase_read_ohlcv_data parse text count = coinbase_read_result parse (coinbase_candles count) text"

definition coinbase_read_price :: "(string \<Rightarrow> json res) \<Rightarrow> string \<Rightarrow> double result res" where
  "coinbase_read_price parse = coinbase_read_result parse (\<lambda>json. member get_stod json ''price'')"

text \<open>The entries of the bids are made asks and those of the asks bids.\<close>

definition coinbase_order_book :: "int \<Rightarrow> json \<Rightarrow> order_book_state res" where
  "coinbase_order_book depth json =
     res_bind (json_element json ''bids'') (\<lambda>bids.
     res_bind (json_element json ''asks'') (\<lambda>asks.
     if depth < 0 then Inl (Length_error ''vector::reserve'') else
     res_bind (book_loop (entry_at ASK bids) (entry_at BID asks)
         (take (nat depth) (indices bids)) (take (nat depth) (indices asks))) (\<lambda>(bidEntries, askEntries).
     res_bind (member get_time json ''sequence'') (\<lambda>time.
     Inr \<lparr>ob_timeStamp = time, ob_asks = askEntries, ob_bids = bidEntries\<rparr>))))"

definition coinbase_read_order_book ::
    "(string \<Rightarrow> json res) \<Rightarrow> string \<Rightarrow> int \<Rightarrow> order_book_state result res" where
  "coinbase_read_order_book parse text depth = coinbase_read_result parse (coinbase_order_book depth) text"

definition coinbase_read_fee :: "(string \<Rightarrow> json res) \<Rightarrow> string \<Rightarrow> double result res" where
  "coinbase_read_fee parse = coinbase_read_result parse (\<lambda>json.
     res_map (\<lambda>rate. rate * of_int_d 100) (member get_stod json ''taker_fee_rate''))"

definition coinbase_read_balances :: "(string \<Rightarrow> json res) \<Rightarrow> string \<Rightarrow> (string \<times> double) list result res" where
  "coinbase_read_balances parse = coinbase_read_result parse (read_map (\<lambda>(_, balanceElement).
     res_bind (member get_string balanceElement ''currency'') (\<lambda>k.
     res_map (Pair k) (member get_stod balanceElement ''balance''))))"

definition coinbase_order_price :: "json \<Rightarrow> double \<Rightarrow> double res" where
  "coinbase_order_price orderElement qty =
     (if has_member orderElement ''price'' then member get_stod orderElement ''price''
      else res_map (\<lambda>cost. calculate_asset_price cost qty)
        (member get_stod orderElement (if has_member orderElement ''funds'' then ''funds'' else ''executed_value'')))"

definition coinbase_order :: "(string \<Rightarrow> string \<Rightarrow> time_t) \<Rightarrow> json \<Rightarrow> order_description res" where
  "coinbase_order to_time_t orderElement =
     res_bind (member get_stod orderElement ''size'') (\<lambda>size.
     res_bind (coinbase_order_price orderElement size) (\<lambda>price.
     res_bind (member get_string orderElement ''created_at'') (\<lambda>createdAt.
     res_bind (member get_string orderElement ''id'') (\<lambda>orderId.
     res_bind (res_bind (member get_string orderElement ''type'') coinbase_to_order_type) (\<lambda>orderType.
     res_bind (member get_string orderElement ''product_id'') (\<lambda>pairName.
     res_bind (member get_string orderElement ''side'') (\<lambda>side.
     Inr \<lparr>od_timeStamp = to_time_t createdAt ''%Y-%m-%dT%T'', od_orderId = orderId, od_orderType = orderType,
       od_pairName = pairName, od_action = coinbase_to_trade_action side, od_price = price,
       od_volume = size\<rparr>)))))))"

definition coinbase_read_orders ::
    "(string \<Rightarrow> string \<Rightarrow> time_t) \<Rightarrow> (string \<Rightarrow> json res) \<Rightarrow> string \<Rightarrow> order_description list result res" where
  "coinbase_read_orders to_time_t parse = coinbase_read_result parse (read_vector (coinbase_order to_time_t))"

definition coinbase_read_add_order :: "(string \<Rightarrow> json res) \<Rightarrow> string \<Rightarrow> string result res" where
  "coinbase_read_add_order parse = coinbase_read_result parse (\<lambda>json. member get_string json ''id'')"

definition coinbase_read_cancel_order :: "(string \<Rightarrow> json res) \<Rightarrow> string \<Rightarrow> unit result res" where
  "coinbase_read_cancel_order parse = coinbase_read_result parse (\<lambda>_. Inr ())"

section \<open>Requests\<close>

record coinbase_api =
  ca_baseUrl :: string
  ca_userAgentId :: string
  ca_apiKey :: string
  ca_decodedApiSecret :: string
  ca_apiPassphrase :: string

definition coinbase_select_base_url :: "bool \<Rightarrow> string" where
  "coinbase_select_base_url enableTesting =
     (if enableTesting then ''https://api-public.sandbox.exchange.coinbase.com''
      else ''https://api.exchange.coinbase.com'')"

definition coinbase_order_type_string :: "order_type \<Rightarrow> string res" where
  "coinbase_order_type_string orderType = (case orderType of
       LIMIT \<Rightarrow> Inr ''limit''
     | MARKET \<Rightarrow> Inr ''market''
     | STOP_LOSS \<Rightarrow> Inr ''loss''
     | TAKE_PROFIT \<Rightarrow> Inr ''entry''
     | TRAILING_STOP_LOSS \<Rightarrow> Inl (Mb_exception ''Unknown order type''))"

definition coinbase_sign ::
    "'w http_env \<Rightarrow> coinbase_api \<Rightarrow> string \<Rightarrow> http_verb \<Rightarrow> string \<Rightarrow> string \<Rightarrow> string \<Rightarrow> string" where
  "coinbase_sign env api timestamp httpVerb path query body =
     he_b64_encode env (he_hmac_sha256 env
       (append_query (timestamp @ verb_to_string httpVerb @ path) query @ body) (ca_decodedApiSecret api))"

definition coinbase_send_request ::
    "'w http_env \<Rightarrow> coinbase_api \<Rightarrow> http_request \<Rightarrow> (string \<Rightarrow> 'v result res) \<Rightarrow> ('w, 'v) action" where
  "coinbase_send_request env api request reader =
     request_value env (add_header ''Accept'' ''application/json''
       (add_header ''User-Agent'' (ca_userAgentId api) request)) reader"

definition coinbase_public ::
    "'w http_env \<Rightarrow> coinbase_api \<Rightarrow> string \<Rightarrow> (string \<Rightarrow> 'v result res) \<Rightarrow> string \<Rightarrow> ('w, 'v) action" where
  "coinbase_public env api path reader query =
     reading (build_url (ca_baseUrl api) path query) (\<lambda>url.
     coinbase_send_request env api (new_request GET url) reader)"

definition coinbase_private_request ::
    "'w http_env \<Rightarrow> coinbase_api \<Rightarrow> http_verb \<Rightarrow> string \<Rightarrow> string \<Rightarrow> string \<Rightarrow> string \<Rightarrow> string \<Rightarrow> http_request" where
  "coinbase_private_request env api httpVerb url timestamp path query content =
     (let request = new_request httpVerb url;
          request = (if content \<noteq> []
            then add_header ''Content-Type'' ''application/json'' (set_content content request) else request)
      in add_header ''CB-ACCESS-PASSPHRASE'' (ca_apiPassphrase api)
        (add_header ''CB-ACCESS-TIMESTAMP'' timestamp
        (add_header ''CB-ACCESS-SIGN'' (coinbase_sign env api timestamp httpVerb path query content)
        (add_header ''CB-ACCESS-KEY'' (ca_apiKey api) request))))"

definition coinbase_private ::
    "'w http_env \<Rightarrow> coinbase_api \<Rightarrow> http_verb \<Rightarrow> string \<Rightarrow> (string \<Rightarrow> 'v result res) \<Rightarrow> string \<Rightarrow> string \<Rightarrow> ('w, 'v) action" where
  "coinbase_private env api httpVerb path reader query content =
     reading (build_url (ca_baseUrl api) path query) (\<lambda>url.
     act_bind (epoch_seconds env) (\<lambda>timestamp.
     coinbase_send_request env api (coinbase_private_request env api httpVerb url timestamp path query content) reader))"

definition coinbase_product_path :: "tradable_pair \<Rightarrow> string \<Rightarrow> string" where
  "coinbase_product_path tradablePair page = ''/products/'' @ pair_to_string tradablePair (CHR ''-'') @ page"

definition coinbase_get_status :: "exchange_status res" where
  "coinbase_get_status = Inr ONLINE"

definition coinbase_get_tradable_pairs ::
    "(string \<Rightarrow> json res) \<Rightarrow> 'w http_env \<Rightarrow> coinbase_api \<Rightarrow> ('w, tradable_pair list) action" where
  "coinbase_get_tradable_pairs parse env api =
     coinbase_public env api ''/products'' (coinbase_read_tradable_pairs parse) []"

definition coinbase_get_ohlcv ::
    "(string \<Rightarrow> json res) \<Rightarrow> 'w http_env \<Rightarrow> coinbase_api \<Rightarrow> tradable_pair \<Rightarrow> ohlcv_interval \<Rightarrow> int \<Rightarrow>
     ('w, ohlcv_data list) action" where
  "coinbase_get_ohlcv parse env api tradablePair interval count =
     reading (to_seconds interval) (\<lambda>seconds.
     reading (build_query [(''granularity'', show_int seconds)]) (\<lambda>query.
     coinbase_public env api (coinbase_product_path tradablePair ''/candles'')
       (\<lambda>answer. coinbase_read_ohlcv_data parse answer count) query))"

definition coinbase_get_price ::
    "(string \<Rightarrow> json res) \<Rightarrow> 'w http_env \<Rightarrow> coinbase_api \<Rightarrow> tradable_pair \<Rightarrow> ('w, double) action" where
  "coinbase_get_price parse env api tradablePair =
     coinbase_public env api (coinbase_product_path tradablePair ''/ticker'') (coinbase_read_price parse) []"

definition coinbase_get_order_book ::
    "(string \<Rightarrow> json res) \<Rightarrow> 'w http_env \<Rightarrow> coinbase_api \<Rightarrow> tradable_pair \<Rightarrow> int \<Rightarrow> ('w, order_book_state) action" where
  "coinbase_get_order_book parse env api tradablePair depth =
     reading (build_query [(''level'', show_int (if depth = 1 then 1 else 2))]) (\<lambda>query.
     coinbase_public env api (coinbase_product_path tradablePair ''/book'')
       (\<lambda>answer. coinbase_read_order_book parse answer depth) query)"

definition coinbase_get_fee :: "(string \<Rightarrow> json res) \<Rightarrow> 'w http_env \<Rightarrow> coinbase_api \<Rightarrow> tradable_pair \<Rightarrow> ('w, double) action" where
  "coinbase_get_fee parse env api tradablePair = coinbase_private env api GET ''/fees'' (coinbase_read_fee parse) [] []"

definition coinbase_get_balances ::
    "(string \<Rightarrow> json res) \<Rightarrow> 'w http_env \<Rightarrow> coinbase_api \<Rightarrow> ('w, (string \<times> double) list) action" where
  "coinbase_get_balances parse env api =
     coinbase_private env api GET ''/coinbase-accounts'' (coinbase_read_balances parse) [] []"

definition coinbase_get_open_orders ::
    "(string \<Rightarrow> string \<Rightarrow> time_t) \<Rightarrow> (string \<Rightarrow> json res) \<Rightarrow> 'w http_env \<Rightarrow> coinbase_api \<Rightarrow> ('w, order_description list) action" where
  "coinbase_get_open_orders to_time_t parse env api =
     reading (build_query [(''status'', ''open'')]) (\<lambda>query.
     coinbase_private env api GET ''/orders'' (coinbase_read_orders to_time_t parse) query [])"

definition coinbase_get_closed_orders ::
    "(string \<Rightarrow> string \<Rightarrow> time_t) \<Rightarrow> (string \<Rightarrow> json res) \<Rightarrow> 'w http_env \<Rightarrow> coinbase_api \<Rightarrow> ('w, order_description list) action" where
  "coinbase_get_closed_orders to_time_t parse env api =
     reading (build_query [(''status'', ''done'')]) (\<lambda>query.
     coinbase_private env api GET ''/orders'' (coinbase_read_orders to_time_t parse) query [])"

definition coinbase_order_json :: "order_request \<Rightarrow> json res" where
  "coinbase_order_json description =
     res_bind (coinbase_order_type_string (rq_orderType description)) (\<lambda>ty.
     Inr (json_object (
       [(''side'', JString (trade_action_to_string (rq_action description))),
        (''product_id'', JString (pair_to_string (rq_pair description) (CHR ''-''))),
        (''size'', JString (show_double (rq_get description VOLUME))),
        (''type'', JString ty)] @
       (if rq_orderType description \<noteq> MARKET
        then [(''price'', JString (show_double (rq_get description ASSET_PRICE)))] else []))))"

definition coinbase_add_order ::
    "(json \<Rightarrow> string) \<Rightarrow> (string \<Rightarrow> json res) \<Rightarrow> 'w http_env \<Rightarrow> coinbase_api \<Rightarrow> order_request \<Rightarrow> ('w, string) action" where
  "coinbase_add_order dump parse env api description =
     reading (coinbase_order_json description) (\<lambda>json.
     coinbase_private env api POST ''/orders'' (coinbase_read_add_order parse) [] (dump json))"

definition coinbase_cancel_order ::
    "(string \<Rightarrow> json res) \<Rightarrow> 'w http_env \<Rightarrow> coinbase_api \<Rightarrow> string \<Rightarrow> ('w, unit) action" where
  "coinbase_cancel_order parse env api orderId =
     coinbase_private env api HTTP_DELETE (''/orders/'' @ orderId) (coinbase_read_cancel_order parse) [] []"

section \<open>The stream\<close>

type_synonym ('h, 'c, 'w) coinbase_stream = "('h, 'c, 'w) websocket_stream ohlcv_subscription_service"

definition create_coinbase_stream :: "'w \<Rightarrow> ('h, 'c, 'w) coinbase_stream" where
  "create_coinbase_stream client = \<lparr>os_subscriptions = [], os_pairSeparator = CHR ''-'',
     os_client = create_websocket_stream ''wss://ws-feed.exchange.coinbase.com'' (CHR ''-'') client\<rparr>"

definition coinbase_create_message :: "string \<Rightarrow> string \<Rightarrow> tradable_pair list \<Rightarrow> json" where
  "coinbase_create_message ty channel pairs = json_object
     [(''type'', JString ty),
      (''product_ids'', JArray (map (\<lambda>pair. JString (pair_to_string pair (CHR ''-''))) pairs)),
      (''channels'', JArray [JString channel])]"

definition coinbase_get_channel :: "websocket_channel \<Rightarrow> string res" where
  "coinbase_get_channel channel = (case channel of
       TRADE \<Rightarrow> Inr ''ticker''
     | ORDER_BOOK \<Rightarrow> Inr ''level2''
     | OHLCV \<Rightarrow> Inl (Mb_exception ''Websocket channel not supported on Coinbase''))"

definition coinbase_trade :: "(string \<Rightarrow> string \<Rightarrow> time_t) \<Rightarrow> json \<Rightarrow> (string \<times> trade_update) res" where
  "coinbase_trade to_time_t json =
     res_bind (member get_stod json ''price'') (\<lambda>price.
     res_bind (member get_stod json ''last_size'') (\<lambda>volume.
     res_bind (member get_string json ''time'') (\<lambda>time.
     res_bind (member get_string json ''product_id'') (\<lambda>pairName.
     Inr (pairName, \<lparr>tu_timeStamp = to_time_t time ''%Y-%m-%dT%T'', tu_price = price, tu_volume = volume\<rparr>)))))"

definition coinbase_process_trade_message ::
    "(string \<Rightarrow> string \<Rightarrow> time_t) \<Rightarrow> ('h, 'c, 'w) stream_calls \<Rightarrow> json \<Rightarrow> (('h, 'c, 'w) coinbase_stream, unit) action" where
  "coinbase_process_trade_message to_time_t calls json =
     reading (coinbase_trade to_time_t json) (\<lambda>(pairName, trade). trade_and_candles calls pairName trade)"

definition coinbase_process_order_book_initialisation ::
    "time_t \<Rightarrow> ('h, 'c, 'w) stream_calls \<Rightarrow> json \<Rightarrow> (('h, 'c, 'w) coinbase_stream, unit) action" where
  "coinbase_process_order_book_initialisation now calls json =
     reading (json_element json ''asks'') (\<lambda>asks.
     reading (json_element json ''bids'') (\<lambda>bids.
     reading (read_cache now asks bids) (\<lambda>cache.
     reading (member get_string json ''product_id'') (\<lambda>pairName.
     on_ws (initialise_order_book (sc_book calls) pairName cache)))))"

definition coinbase_change :: "json \<Rightarrow> order_book_entry res" where
  "coinbase_change entryElement =
     res_bind (item get_string entryElement 0) (\<lambda>side.
     res_bind (item get_stod entryElement 1) (\<lambda>price.
     res_bind (item get_stod entryElement 2) (\<lambda>volume.
     Inr \<lparr>oe_price = price, oe_volume = volume, oe_side = (if side = ''buy'' then BID else ASK)\<rparr>)))"

definition coinbase_process_order_book_update ::
    "(string \<Rightarrow> string \<Rightarrow> time_t) \<Rightarrow> ('h, 'c, 'w) stream_calls \<Rightarrow> json \<Rightarrow> (('h, 'c, 'w) coinbase_stream, unit) action" where
  "coinbase_process_order_book_update to_time_t calls json =
     reading (member get_string json ''time'') (\<lambda>time.
     reading (json_element json ''changes'') (\<lambda>changesElement.
     reading (member get_string json ''product_id'') (\<lambda>pairName.
     on_ws (read_updates coinbase_change
       (ws_update_order_book (sc_book calls) pairName (to_time_t time ''%Y-%m-%dT%T''))
       (json_values changesElement)))))"

definition coinbase_on_message ::
    "(string \<Rightarrow> string \<Rightarrow> time_t) \<Rightarrow> time_t \<Rightarrow> (string \<Rightarrow> json res) \<Rightarrow> ('h, 'c, 'w) stream_calls \<Rightarrow> string \<Rightarrow>
     (('h, 'c, 'w) coinbase_stream, unit) action" where
  "coinbase_on_message to_time_t now parse calls message =
     reading (parse message) (\<lambda>json.
     reading (member get_string json ''type'') (\<lambda>messageType.
     if messageType = ''ticker'' then coinbase_process_trade_message to_time_t calls json
     else if messageType = ''snapshot'' then coinbase_process_order_book_initialisation now calls json
     else if messageType = ''l2update'' then coinbase_process_order_book_update to_time_t calls json
     else act_return ()))"

text \<open>
  A subscription to candles subscribes to the trades and has the candles built from them.
\<close>

definition coinbase_send_channel ::
    "(json \<Rightarrow> string) \<Rightarrow> (string \<Rightarrow> ('h, 'c, 'w, unit) ws_action) \<Rightarrow> string \<Rightarrow> websocket_subscription \<Rightarrow>
     (('h, 'c, 'w) coinbase_stream, unit) action" where
  "coinbase_send_channel dump send ty subscription =
     reading (coinbase_get_channel (sb_channel subscription)) (\<lambda>channelName.
     on_ws (send (dump (coinbase_create_message ty channelName (sb_pairItem subscription)))))"

definition coinbase_send_subscribe ::
    "(json \<Rightarrow> string) \<Rightarrow> (string \<Rightarrow> ('h, 'c, 'w, unit) ws_action) \<Rightarrow> ('h, 'c, 'w) stream_calls \<Rightarrow>
     (tradable_pair \<Rightarrow> ohlcv_interval \<Rightarrow> int \<Rightarrow> ohlcv_data list res) \<Rightarrow> websocket_subscription \<Rightarrow>
     (('h, 'c, 'w) coinbase_stream, unit) action" where
  "coinbase_send_subscribe dump send calls market_get_ohlcv subscription =
     (if sb_channel subscription = OHLCV
      then act_seq (coinbase_send_channel dump send ''subscribe'' (create_trade_sub (sb_pairItem subscription)))
        (add_subscription market_get_ohlcv (ws_update_ohlcv (sc_ohlcv calls)) subscription)
      else coinbase_send_channel dump send ''subscribe'' subscription)"

definition coinbase_send_unsubscribe ::
    "(json \<Rightarrow> string) \<Rightarrow> (string \<Rightarrow> ('h, 'c, 'w, unit) ws_action) \<Rightarrow> websocket_subscription \<Rightarrow>
     (('h, 'c, 'w) coinbase_stream, unit) action" where
  "coinbase_send_unsubscribe dump send subscription =
     (if sb_channel subscription = OHLCV then remove_subscription subscription
      else coinbase_send_channel dump send ''unsubscribe'' subscription)"

section \<open>Books\<close>

text \<open>
  The book is cut to the depth that was asked for, level by level, but every entry of the
  asks is marked as a bid and every entry of the bids as an ask.
\<close>

lemma coinbase_book_sides_swapped:
  assumes "parse text = Inr json" "\<not> has_member json ''message''" "0 \<le> depth"
    and "json_element json ''bids'' = Inr (JArray bids)" "json_element json ''asks'' = Inr (JArray asks)"
    and "member get_time json ''sequence'' = Inr t"
    and "res_traverse (entry_of get_stod ASK) bids = Inr bs" "res_traverse (entry_of get_stod BID) asks = Inr as"
  shows "coinbase_read_order_book parse text depth =
      Inr (Success \<lparr>ob_timeStamp = t, ob_asks = take (nat depth) as, ob_bids = take (nat depth) bs\<rparr>) \<and>
    (\<forall>e \<in> set as. oe_side e = BID) \<and> (\<forall>e \<in> set bs. oe_side e = ASK)"
proof -
  have "book_loop (entry_at ASK (JArray bids)) (entry_at BID (JArray asks))
      (take (nat depth) (indices (JArray bids))) (take (nat depth) (indices (JArray asks))) =
    Inr (take (nat depth) bs, take (nat depth) as)"
    by (intro book_loop_sides res_traverse_take entry_at_indices assms)
  then have "coinbase_order_book depth json =
      Inr \<lparr>ob_timeStamp = t, ob_asks = take (nat depth) as, ob_bids = take (nat depth) bs\<rparr>"
    using assms(3-6) by (simp add: coinbase_order_book_def)
  then show ?thesis
    using assms(1,2,7,8) entry_of_side
    by (auto simp: coinbase_read_order_book_def coinbase_read_result_def success_def try_result_def)
qed

lemma coinbase_book_sides_swapped_example:
  "coinbase_read_order_book (\<lambda>_. Inr (JObject [(''sequence'', JInt 7),
      (''bids'', JArray [JArray [JString ''1'', JString ''2''], JArray [JString ''0.5'', JString ''2'']]),
      (''asks'', JArray [JArray [JString ''3'', JString ''4'']])])) [] 1 =
    Inr (Success \<lparr>ob_timeStamp = 7, ob_asks = [\<lparr>oe_price = Fin 3, oe_volume = Fin 4, oe_side = BID\<rparr>],
      ob_bids = [\<lparr>oe_price = Fin 1, oe_volume = Fin 2, oe_side = ASK\<rparr>]\<rparr>)"
proof -
  let ?bids = "[JArray [JString ''1'', JString ''2''], JArray [JString ''0.5'', JString ''2'']]"
  let ?asks = "[JArray [JString ''3'', JString ''4'']]"
  let ?json = "JObject [(''sequence'', JInt 7), (''bids'', JArray ?bids), (''asks'', JArray ?asks)]"
  let ?bs = "[\<lparr>oe_price = Fin 1, oe_volume = Fin 2, oe_side = ASK\<rparr>, \<lparr>oe_price = Fin (1 / 2), oe_volume = Fin 2, oe_side = ASK\<rparr>]"
  let ?as = "[\<lparr>oe_price = Fin 3, oe_volume = Fin 4, oe_side = BID\<rparr>]"
  have b: "res_traverse (entry_of get_stod ASK) ?bids = Inr ?bs" by code_simp
  have a: "res_traverse (entry_of get_stod BID) ?asks = Inr ?as" by code_simp
  have t: "member get_time ?json ''sequence'' = Inr 7" by code_simp
  show ?thesis
    using coinbase_book_sides_swapped [of "\<lambda>_. Inr ?json" "[]" ?json 1 ?bids ?asks 7 ?bs ?as, OF refl _ _ _ _ t b a] by simp
qed

section \<open>Failures\<close>

interpretation coinbase_answers: answer_reader "coinbase_read_result parse reader" for parse reader
  by unfold_locales (auto simp: coinbase_read_result_def dest: try_result_no_throw)

lemma coinbase_requests_catchable [catchable_rules]:
  "catchable (coinbase_public env api path (coinbase_read_result parse reader) query)"
  "catchable (coinbase_private env api httpVerb path (coinbase_read_result parse reader) query content)"
  unfolding coinbase_public_def coinbase_private_def coinbase_send_request_def Let_def
  by (intro catchable_rules coinbase_answers.request_catchable)+

end
