(* ===== verification/Binance.thy ===== *)
theory Binance
  imports Requests
begin

text \<open>
  \<^verbatim>\<open>exchanges/binance/\<close>: the readers of the answers (\<^verbatim>\<open>binance_results.cpp\<close>), the
  market stream (\<^verbatim>\<open>binance_websocket.cpp\<close>), which asks the market for a snapshot of
  a book it does not know yet, and the filters of the orders. The parser is a parameter, and
  so is \<^verbatim>\<open>std::log10\<close>, whose rounding the language leaves to the platform.
\<close>

section \<open>Answers\<close>

record binance_order_filters =
  bf_pricePrecision :: int
  bf_qtyPrecision :: int
  bf_minQty :: double
  bf_minValue :: double

definition default_order_filters :: binance_order_filters where
  "default_order_filters = \<lparr>bf_pricePrecision = 2, bf_qtyPrecision = 4,
     bf_minQty = lit (1 / 100000), bf_minValue = of_int_d 10\<rparr>"

definition binance_read_result ::
    "(string \<Rightarrow> json res) \<Rightarrow> (json \<Rightarrow> 'v res) \<Rightarrow> string \<Rightarrow> 'v result res" where
  "binance_read_result parse reader text = try_result (res_bind (parse text) (\<lambda>json.
     if has_member json ''code'' then res_map Fail (member get_string json ''msg'')
     else success (reader json)))"

definition binance_to_trade_action :: "string \<Rightarrow> trade_action" where
  "binance_to_trade_action action = (if action = ''BUY'' then BUY else SELL)"

definition binance_to_order_type :: "string \<Rightarrow> order_type res" where
  "binance_to_order_type s =
     (if s = ''LIMIT'' then Inr LIMIT
      else if s = ''MARKET'' then Inr MARKET
      else if contains_str (c_str s) ''STOP_LOSS'' then Inr STOP_LOSS
      else if contains_str (c_str s) ''TAKE_PROFIT'' then Inr TAKE_PROFIT
      else Inl (Invalid_argument ''Unknown order type''))"

definition binance_to_order_status :: "string \<Rightarrow> order_status" where
  "binance_to_order_status statusString =
     (if statusString = ''NEW'' then OPEN
      else if statusString = ''PARTIALLY_FILLED'' then PARTIALLY_FILLED
      else if statusString = ''FILLED'' then CLOSED
      else CANCELLED)"

definition binance_order :: "json \<Rightarrow> order_description res" where
  "binance_order orderElement =
     res_bind (member get_time orderElement ''time'') (\<lambda>time.
     res_bind (member get_long_long orderElement ''orderId'') (\<lambda>orderId.
     res_bind (res_bind (member get_string orderElement ''type'') binance_to_order_type) (\<lambda>orderType.
     res_bind (member get_string orderElement ''symbol'') (\<lambda>symbol.
     res_bind (member get_string orderElement ''side'') (\<lambda>side.
     res_bind (member get_stod orderElement ''price'') (\<lambda>price.
     res_bind (member get_stod orderElement ''origQty'') (\<lambda>origQty.
     Inr \<lparr>od_timeStamp = time sdiv 1000, od_orderId = show_int orderId, od_orderType = orderType,
       od_pairName = symbol, od_action = binance_to_trade_action side, od_price = price, od_volume = origQty\<rparr>)))))))"

definition binance_read_system_status :: "(string \<Rightarrow> json res) \<Rightarrow> string \<Rightarrow> exchange_status result res" where
  "binance_read_system_status parse = binance_read_result parse (\<lambda>_. Inr ONLINE)"

text \<open>The values of the filters read so far: tick size, minimum quantity, step of the quantity, minimum value.\<close>

definition binance_filter ::
    "json \<Rightarrow> double \<times> double \<times> double \<times> double \<Rightarrow> (double \<times> double \<times> double \<times> double) res" where
  "binance_filter filterElement = (\<lambda>(tickSize, minQty, qtyStepSize, minValue).
     res_bind (member get_string filterElement ''filterType'') (\<lambda>filterType.
     if filterType = ''PRICE_FILTER''
     then res_map (\<lambda>t. (t, minQty, qtyStepSize, minValue)) (member get_stod filterElement ''tickSize'')
     else if filterType = ''LOT_SIZE''
     then res_bind (member get_stod filterElement ''minQty'') (\<lambda>q.
          res_map (\<lambda>step. (tickSize, q, step, minValue)) (member get_stod filterElement ''stepSize''))
     else if filterType = ''MIN_NOTIONAL''
     then res_map (\<lambda>v. (tickSize, minQty, qtyStepSize, v)) (member get_stod filterElement ''minNotional'')
     else Inr (tickSize, minQty, qtyStepSize, minValue)))"

fun binance_filters ::
    "json list \<Rightarrow> double \<times> double \<times> double \<times> double \<Rightarrow> (double \<times> double \<times> double \<times> double) res" where
  "binance_filters [] acc = Inr acc"
| "binance_filters (f # fs) acc = res_bind (binance_filter f acc) (binance_filters fs)"

definition binance_pair ::
    "(double \<Rightarrow> double) \<Rightarrow> json \<Rightarrow> (tradable_pair \<times> binance_order_filters) res" where
  "binance_pair log10 pairElement =
     res_bind (member get_string pairElement ''baseAsset'') (\<lambda>asset.
     res_bind (member get_string pairElement ''quoteAsset'') (\<lambda>priceUnit.
     res_bind (json_element pairElement ''filters'') (\<lambda>filtersElement.
     res_bind (binance_filters (json_values filtersElement) (0, 0, 0, 0)) (\<lambda>(tickSize, minQty, qtyStepSize, minValue).
     res_bind (truncate_to 32 (- log10 tickSize)) (\<lambda>pricePrecision.
     res_bind (truncate_to 32 (- log10 qtyStepSize)) (\<lambda>qtyPrecision.
     Inr (\<lparr>tp_asset = asset, tp_priceUnit = priceUnit\<rparr>,
       \<lparr>bf_pricePrecision = pricePrecision, bf_qtyPrecision = qtyPrecision,
        bf_minQty = minQty, bf_minValue = minValue\<rparr>)))))))"

definition binance_read_tradable_pairs ::
    "(double \<Rightarrow> double) \<Rightarrow> (string \<Rightarrow> json res) \<Rightarrow> string \<Rightarrow> (tradable_pair \<times> binance_order_filters) list result res" where
  "binance_read_tradable_pairs log10 parse = binance_read_result parse (\<lambda>json.
     res_bind (json_element json ''symbols'') (\<lambda>symbolsElement.
     res_map (\<lambda>ps. to_unordered_map ps fst snd)
       (res_traverse (binance_pair log10) (json_values symbolsElement))))"

definition binance_read_ohlcv :: "(string \<Rightarrow> json res) \<Rightarrow> string \<Rightarrow> ohlcv_data list result res" where
  "binance_read_ohlcv parse = binance_read_result parse (\<lambda>json.
     read_reversed (candle_of get_stod (\<lambda>t. t sdiv 1000) [1, 2, 3, 4, 5]) (json_values json))"

definition binance_read_price :: "(string \<Rightarrow> json res) \<Rightarrow> string \<Rightarrow> double result res" where
  "binance_read_price parse = binance_read_result parse (\<lambda>json. member get_stod json ''price'')"

definition binance_read_prices :: "(string \<Rightarrow> json res) \<Rightarrow> string \<Rightarrow> (string \<times> double) list result res" where
  "binance_read_prices parse = binance_read_result parse (read_map (\<lambda>(_, priceElement).
     res_bind (member get_string priceElement ''symbol'') (\<lambda>k.
     res_map (Pair k) (member get_stod priceElement ''price''))))"

definition binance_order_book :: "json \<Rightarrow> order_book_state res" where
  "binance_order_book json =
     res_bind (json_element json ''asks'') (\<lambda>asksElement.
     res_bind (json_element json ''bids'') (\<lambda>bidsElement.
     res_bind (book_loop (entry_of get_stod ASK) (entry_of get_stod BID)
         (json_values asksElement) (json_values bidsElement)) (\<lambda>(asks, bids).
     res_bind (member get_time json ''lastUpdateId'') (\<lambda>time.
     Inr \<lparr>ob_timeStamp = time, ob_asks = asks, ob_bids = bids\<rparr>))))"

definition binance_read_order_book :: "(string \<Rightarrow> json res) \<Rightarrow> string \<Rightarrow> order_book_state result res" where
  "binance_read_order_book parse = binance_read_result parse binance_order_book"

definition binance_read_fee :: "(string \<Rightarrow> json res) \<Rightarrow> string \<Rightarrow> double result res" where
  "binance_read_fee parse = binance_read_result parse (\<lambda>json.
     res_map (\<lambda>fee. fee / of_int_d 100) (member get_double json ''takerCommission''))"

definition binance_read_balances :: "(string \<Rightarrow> json res) \<Rightarrow> string \<Rightarrow> (string \<times> double) list result res" where
  "binance_read_balances parse = binance_read_result parse (\<lambda>json.
     res_bind (json_element json ''balances'') (read_map (\<lambda>(_, balanceElement).
     res_bind (member get_string balanceElement ''asset'') (\<lambda>asset.
     res_map (Pair asset) (member get_stod balanceElement ''free'')))))"

definition binance_read_open_orders :: "(string \<Rightarrow> json res) \<Rightarrow> string \<Rightarrow> order_description list result res" where
  "binance_read_open_orders parse = binance_read_result parse (read_vector binance_order)"

definition binance_read_closed_orders :: "string \<Rightarrow> order_description list result res" where
  "binance_read_closed_orders text =
     Inl (Not_implemented_exception ''Function: 'binance::read_closed_orders' not implemented'')"

definition binance_read_add_order :: "(string \<Rightarrow> json res) \<Rightarrow> string \<Rightarrow> string result res" where
  "binance_read_add_order parse = binance_read_result parse (\<lambda>json.
     res_map show_int (member get_long_long json ''orderId''))"

text \<open>The sums of value and quantity of the fills, in their order.\<close>

definition binance_fill :: "json \<Rightarrow> (double \<times> double) res" where
  "binance_fill fillElement =
     res_bind (member get_stod fillElement ''price'') (\<lambda>price.
     res_map (Pair price) (member get_stod fillElement ''qty''))"

definition binance_confirmation :: "json \<Rightarrow> order_confirmation res" where
  "binance_confirmation json =
     res_bind (json_element json ''fills'') (\<lambda>fillsElement.
     res_bind (res_traverse binance_fill (json_values fillsElement)) (\<lambda>fills.
     let avgPrice = foldl (\<lambda>v (price, qty). v + price * qty) 0 fills;
         filledQty = foldl (\<lambda>q (price, qty). q + qty) 0 fills in
     res_bind (member get_long_long json ''orderId'') (\<lambda>orderId.
     res_bind (member get_string json ''status'') (\<lambda>status.
     res_bind (member get_stod json ''origQty'') (\<lambda>origQty.
     res_bind (member get_stod json ''executedQty'') (\<lambda>executedQty.
     Inr \<lparr>oc_orderId = show_int orderId, oc_orderStatus = binance_to_order_status status,
       oc_originalQty = origQty, oc_filledQty = executedQty, oc_price = avgPrice / filledQty\<rparr>))))))"

definition binance_read_add_order_confirm :: "(string \<Rightarrow> json res) \<Rightarrow> string \<Rightarrow> order_confirmation result res" where
  "binance_read_add_order_confirm parse = binance_read_result parse binance_confirmation"

definition binance_read_cancel_order :: "(string \<Rightarrow> json res) \<Rightarrow> string \<Rightarrow> unit result res" where
  "binance_read_cancel_order parse = binance_read_result parse (\<lambda>_. Inr ())"

section \<open>Requests\<close>

text \<open>The interface remembers the filters of the pairs it was told last.\<close>

record 'w binance_api =
  na_baseUrl :: string
  na_apiKey :: string
  na_secretKey :: string
  na_orderFilters :: "(tradable_pair \<times> binance_order_filters) list"
  na_world :: 'w

abbreviation on_world :: "('w, 'a) action \<Rightarrow> ('w binance_api, 'a) action" where
  "on_world \<equiv> in_state na_world (\<lambda>w s. s\<lparr>na_world := w\<rparr>)"

definition binance_select_base_url :: "bool \<Rightarrow> string" where
  "binance_select_base_url enableTesting =
     (if enableTesting then ''https://testnet.binance.vision'' else ''https://api.binance.com'')"

definition binance_order_side :: "trade_action \<Rightarrow> string" where
  "binance_order_side action = (if action = BUY then ''BUY'' else ''SELL'')"

definition binance_order_type_string :: "order_type \<Rightarrow> string res" where
  "binance_order_type_string orderType = (case orderType of
       LIMIT \<Rightarrow> Inr ''LIMIT''
     | MARKET \<Rightarrow> Inr ''MARKET''
     | STOP_LOSS \<Rightarrow> Inr ''STOP_LOSS_LIMIT''
     | TRAILING_STOP_LOSS \<Rightarrow> Inr ''STOP_LOSS_LIMIT''
     | TAKE_PROFIT \<Rightarrow> Inl (Mb_exception ''Order type not supported''))"

text \<open>Without pairs the bracket itself is popped.\<close>

definition binance_create_symbols_list :: "tradable_pair list \<Rightarrow> string" where
  "binance_create_symbols_list pairs =
     butlast (''['' @ concat (map (\<lambda>pair. [CHR 0x22] @ pair_name pair @ [CHR 0x22] @ '','') pairs)) @ '']''"

definition is_limit_order :: "order_type \<Rightarrow> bool" where
  "is_limit_order orderType = (orderType = LIMIT \<or> orderType = STOP_LOSS \<or> orderType = TRAILING_STOP_LOSS)"

text \<open>A negative precision of a stream prints six digits.\<close>

definition binance_number :: "double \<Rightarrow> int \<Rightarrow> string" where
  "binance_number number precision = to_string_fixed number (if precision < 0 then 6 else nat precision)"

definition binance_order_parameters :: "order_request \<Rightarrow> binance_order_filters \<Rightarrow> (string \<times> string) list res" where
  "binance_order_parameters request filters =
     res_bind (binance_order_type_string (rq_orderType request)) (\<lambda>ty.
     let base = [(''symbol'', pair_name (rq_pair request)), (''side'', binance_order_side (rq_action request)),
           (''type'', ty), (''quantity'', binance_number (rq_get request VOLUME) (bf_qtyPrecision filters))];
         limit = (if is_limit_order (rq_orderType request)
           then [(''price'', binance_number (rq_get request ASSET_PRICE) (bf_pricePrecision filters)),
                 (''timeInForce'', ''GTC'')] else [])
     in (case rq_orderType request of
         STOP_LOSS \<Rightarrow> Inr (base @ limit @
           [(''stopPrice'', binance_number (rq_get request STOP_PRICE) (bf_pricePrecision filters))])
       | TRAILING_STOP_LOSS \<Rightarrow> res_bind (truncate_to 32 (rq_get request TRAILING_DELTA * of_int_d 10000)) (\<lambda>delta.
           Inr (base @ limit @ [(''trailingDelta'', show_int delta)]))
       | _ \<Rightarrow> Inr (base @ limit)))"

definition create_order_query :: "order_request \<Rightarrow> binance_order_filters \<Rightarrow> url_query_builder res" where
  "create_order_query request filters =
     res_bind (binance_order_parameters request filters) (\<lambda>ps. add_parameters ps new_query)"

definition binance_sign :: "'w http_env \<Rightarrow> 'w binance_api \<Rightarrow> string \<Rightarrow> string" where
  "binance_sign env api query = hex_encode (he_hmac_sha256 env query (na_secretKey api))"

definition binance_public ::
    "'w http_env \<Rightarrow> string \<Rightarrow> (string \<Rightarrow> 'v result res) \<Rightarrow> string \<Rightarrow> ('w binance_api, 'v) action" where
  "binance_public env path reader query =
     act_bind (act_res (\<lambda>s. build_url (na_baseUrl s) path query)) (\<lambda>url.
     on_world (request_value env (new_request GET url) reader))"

definition binance_private ::
    "'w http_env \<Rightarrow> http_verb \<Rightarrow> string \<Rightarrow> (string \<Rightarrow> 'v result res) \<Rightarrow> url_query_builder \<Rightarrow> ('w binance_api, 'v) action" where
  "binance_private env verb path reader query =
     act_bind (on_world (epoch_milliseconds env)) (\<lambda>timeStamp.
     reading (add_parameter ''timestamp'' timeStamp query) (\<lambda>query.
     act_bind (act_res (\<lambda>s. add_parameter ''signature'' (binance_sign env s (qb_query query)) query)) (\<lambda>query.
     act_bind (act_res (\<lambda>s. build_url (na_baseUrl s) path (qb_query query))) (\<lambda>url.
     act_bind (act_read na_apiKey) (\<lambda>key.
     on_world (request_value env (add_header ''X-MBX-APIKEY'' key (new_request verb url)) reader))))))"

definition binance_get_status :: "(string \<Rightarrow> json res) \<Rightarrow> 'w http_env \<Rightarrow> ('w binance_api, exchange_status) action" where
  "binance_get_status parse env = binance_public env ''/api/v3/time'' (binance_read_system_status parse) []"

text \<open>\<^verbatim>\<open>minValue\<close> is computed and not used.\<close>

definition binance_get_tradable_pairs ::
    "(double \<Rightarrow> double) \<Rightarrow> (string \<Rightarrow> json res) \<Rightarrow> 'w http_env \<Rightarrow> ('w binance_api, tradable_pair list) action" where
  "binance_get_tradable_pairs log10 parse env =
     act_bind (binance_public env ''/api/v3/exchangeInfo'' (binance_read_tradable_pairs log10 parse) []) (\<lambda>filters.
     act_seq (act_modify (\<lambda>s. s\<lparr>na_orderFilters := filters\<rparr>))
       (act_return (map fst filters)))"

definition binance_get_ohlcv ::
    "(string \<Rightarrow> json res) \<Rightarrow> 'w http_env \<Rightarrow> tradable_pair \<Rightarrow> ohlcv_interval \<Rightarrow> int \<Rightarrow> ('w binance_api, ohlcv_data list) action" where
  "binance_get_ohlcv parse env tradablePair interval count =
     reading (build_query [(''symbol'', pair_name tradablePair), (''interval'', interval_to_string interval),
       (''limit'', show_int count)]) (\<lambda>query.
     binance_public env ''/api/v3/klines'' (binance_read_ohlcv parse) query)"

definition binance_get_price :: "(string \<Rightarrow> json res) \<Rightarrow> 'w http_env \<Rightarrow> tradable_pair \<Rightarrow> ('w binance_api, double) action" where
  "binance_get_price parse env tradablePair =
     reading (build_query [(''symbol'', pair_name tradablePair)]) (\<lambda>query.
     binance_public env ''/api/v3/ticker/price'' (binance_read_price parse) query)"

definition binance_get_prices ::
    "(string \<Rightarrow> json res) \<Rightarrow> 'w http_env \<Rightarrow> tradable_pair list \<Rightarrow> ('w binance_api, (tradable_pair \<times> double) list) action" where
  "binance_get_prices parse env pairs =
     reading (build_query [(''symbols'', binance_create_symbols_list pairs)]) (\<lambda>query.
     pair_results pairs (binance_public env ''/api/v3/ticker/price'' (binance_read_prices parse) query))"

definition binance_get_order_book ::
    "(string \<Rightarrow> json res) \<Rightarrow> 'w http_env \<Rightarrow> tradable_pair \<Rightarrow> int \<Rightarrow> ('w binance_api, order_book_state) action" where
  "binance_get_order_book parse env tradablePair depth =
     reading (build_query [(''symbol'', pair_name tradablePair), (''limit'', show_int depth)]) (\<lambda>query.
     binance_public env ''/api/v3/depth'' (binance_read_order_book parse) query)"

definition binance_get_fee :: "(string \<Rightarrow> json res) \<Rightarrow> 'w http_env \<Rightarrow> tradable_pair \<Rightarrow> ('w binance_api, double) action" where
  "binance_get_fee parse env tradablePair =
     binance_private env GET ''/api/v3/account'' (binance_read_fee parse) new_query"

definition binance_get_balances ::
    "(string \<Rightarrow> json res) \<Rightarrow> 'w http_env \<Rightarrow> ('w binance_api, (string \<times> double) list) action" where
  "binance_get_balances parse env =
     binance_private env GET ''/api/v3/account'' (binance_read_balances parse) new_query"

definition binance_get_open_orders ::
    "(string \<Rightarrow> json res) \<Rightarrow> 'w http_env \<Rightarrow> ('w binance_api, order_description list) action" where
  "binance_get_open_orders parse env =
     binance_private env GET ''/api/v3/openOrders'' (binance_read_open_orders parse) new_query"

definition binance_get_closed_orders :: "order_description list res" where
  "binance_get_closed_orders =
     Inl (Not_implemented_exception ''Function: 'binance::get_closed_orders' not implemented'')"

text \<open>\<^verbatim>\<open>_orderFilters[pair]\<close>: a pair without filters gets the default ones.\<close>

definition order_filters_of :: "tradable_pair \<Rightarrow> ('w binance_api, binance_order_filters) action" where
  "order_filters_of pair =
     act_seq (act_modify (\<lambda>s. s\<lparr>na_orderFilters := emplace pair default_order_filters (na_orderFilters s)\<rparr>))
       (act_res (\<lambda>s. case map_of (na_orderFilters s) pair of
            Some filters \<Rightarrow> Inr filters | None \<Rightarrow> Inl (Undefined_behaviour ''emplaced entry'')))"

definition binance_order_request ::
    "'w http_env \<Rightarrow> (string \<Rightarrow> 'v result res) \<Rightarrow> order_request \<Rightarrow> ('w binance_api, 'v) action" where
  "binance_order_request env reader request =
     act_bind (order_filters_of (rq_pair request)) (\<lambda>filters.
     reading (create_order_query request filters) (\<lambda>query.
     binance_private env POST ''/api/v3/order'' reader query))"

definition binance_add_order ::
    "(string \<Rightarrow> json res) \<Rightarrow> 'w http_env \<Rightarrow> order_request \<Rightarrow> ('w binance_api, string) action" where
  "binance_add_order parse env = binance_order_request env (binance_read_add_order parse)"

definition binance_add_order_confirm ::
    "(string \<Rightarrow> json res) \<Rightarrow> 'w http_env \<Rightarrow> order_request \<Rightarrow> ('w binance_api, order_confirmation) action" where
  "binance_add_order_confirm parse env = binance_order_request env (binance_read_add_order_confirm parse)"

text \<open>The pair of the last open order with the id; without one nothing is cancelled.\<close>

definition binance_cancel_order :: "(string \<Rightarrow> json res) \<Rightarrow> 'w http_env \<Rightarrow> string \<Rightarrow> ('w binance_api, unit) action" where
  "binance_cancel_order parse env orderId =
     act_bind (binance_get_open_orders parse env) (\<lambda>openOrders.
     let pair = foldl (\<lambda>pair order. if od_orderId order = orderId then od_pairName order else pair) [] openOrders in
     if pair = [] then act_return ()
     else reading (add_parameters [(''symbol'', pair), (''orderId'', orderId)] new_query) (\<lambda>query.
       binance_private env HTTP_DELETE ''/api/v3/order'' (binance_read_cancel_order parse) query))"

section \<open>Cancelling\<close>

lemma found_pair:
  "distinct (map od_orderId orders) \<Longrightarrow>
    foldl (\<lambda>pair order. if od_orderId order = orderId then od_pairName order else pair) pair orders =
    (case find (\<lambda>order. od_orderId order = orderId) orders of None \<Rightarrow> pair | Some order \<Rightarrow> od_pairName order)"
proof (induction orders arbitrary: pair)
  case (Cons order orders)
  have "find (\<lambda>order. od_orderId order = orderId) orders = None" if "od_orderId order = orderId"
    using that Cons.prems by (auto simp: find_None_iff image_iff)
  with Cons show ?case by auto
qed simp

text \<open>
  An order that is not among the open ones is cancelled without an error and without a
  request; an open one is cancelled by its id on its own pair.
\<close>

lemma binance_cancel_order_spec:
  assumes "binance_get_open_orders parse env s = (Inr orders, t)" "distinct (map od_orderId orders)"
    and "[] \<notin> od_pairName ` set orders" "orderId \<noteq> []"
  shows "binance_cancel_order parse env orderId s =
    (case find (\<lambda>order. od_orderId order = orderId) orders of
       None \<Rightarrow> (Inr (), t)
     | Some order \<Rightarrow> binance_private env HTTP_DELETE ''/api/v3/order'' (binance_read_cancel_order parse)
         \<lparr>qb_query = ''symbol='' @ od_pairName order @ ''&orderId='' @ orderId, qb_started = True\<rparr> t)"
proof -
  have "od_pairName order \<noteq> []" if "find (\<lambda>order. od_orderId order = orderId) orders = Some order" for order
    using that assms(3) by (force simp: find_Some_iff in_set_conv_nth image_iff)
  with assms(1,4) found_pair [OF assms(2)] show ?thesis
    by (auto simp: binance_cancel_order_def act_bind_def new_query_def add_parameter_def act_simps split: option.split)
qed

text \<open>One open order: the exchange is asked to delete it, and nothing is asked for another one.\<close>

lemma binance_cancel_order_spec_example:
  "let order = JObject [(''time'', JInt 5000), (''orderId'', JInt 7), (''type'', JString ''LIMIT''), (''symbol'', JString ''BTCUSDT''),
         (''side'', JString ''BUY''), (''price'', JString ''2''), (''origQty'', JString ''1'')];
       parse = (\<lambda>m. Inr (if m = ''orders'' then JArray [order] else JObject []));
       env = \<lparr>he_perform = \<lambda>r w. (Inr (200, if cq_verb r = ''GET'' then ''orders'' else ''deleted''), w @ [cq_verb r]),
         he_now_ms = \<lambda>_. 9, he_sha256 = id, he_hmac_sha256 = \<lambda>d k. k, he_hmac_sha512 = \<lambda>d k. k, he_b64_encode = id\<rparr>;
       s = \<lparr>na_baseUrl = binance_select_base_url True, na_apiKey = ''key'', na_secretKey = ''secret'',
         na_orderFilters = [], na_world = []\<rparr>
   in na_world (snd (binance_cancel_order parse env ''7'' s)) = [''GET'', ''DELETE''] \<and>
     na_world (snd (binance_cancel_order parse env ''8'' s)) = [''GET'']"
proof -
  let ?order = "JObject [(''time'', JInt 5000), (''orderId'', JInt 7), (''type'', JString ''LIMIT''), (''symbol'', JString ''BTCUSDT''),
    (''side'', JString ''BUY''), (''price'', JString ''2''), (''origQty'', JString ''1'')]"
  let ?parse = "\<lambda>m. Inr (if m = ''orders'' then JArray [?order] else JObject [])"
  let ?env = "\<lparr>he_perform = \<lambda>r w. (Inr (200, if cq_verb r = ''GET'' then ''orders'' else ''deleted''), w @ [cq_verb r]),
    he_now_ms = \<lambda>_. 9, he_sha256 = id, he_hmac_sha256 = \<lambda>d k. k, he_hmac_sha512 = \<lambda>d k. k, he_b64_encode = id\<rparr>"
  let ?s = "\<lparr>na_baseUrl = binance_select_base_url True, na_apiKey = ''key'', na_secretKey = ''secret'',
    na_orderFilters = [], na_world = []\<rparr>"
  let ?o = "\<lparr>od_timeStamp = 5, od_orderId = ''7'', od_orderType = LIMIT, od_pairName = ''BTCUSDT'', od_action = BUY,
    od_price = Fin 2, od_volume = Fin 1\<rparr>"
  let ?t = "?s\<lparr>na_world := [''GET'']\<rparr>"
  have o: "binance_get_open_orders ?parse ?env ?s = (Inr [?o], ?t)" by code_simp
  have d: "na_world (snd (binance_private ?env HTTP_DELETE ''/api/v3/order'' (binance_read_cancel_order ?parse)
      \<lparr>qb_query = ''symbol=BTCUSDT&orderId=7'', qb_started = True\<rparr> ?t)) = [''GET'', ''DELETE'']" by code_simp
  show ?thesis
    unfolding Let_def
    using binance_cancel_order_spec [OF o, of "''7''"] binance_cancel_order_spec [OF o, of "''8''"] d by simp
qed

section \<open>The stream\<close>

record ('h, 'c, 'w) binance_stream =
  bn_stream :: "('h, 'c, 'w) websocket_stream"
  bn_orderBookIds :: "string \<rightharpoonup> time_t"

abbreviation on_bn :: "('h, 'c, 'w, 'a) ws_action \<Rightarrow> (('h, 'c, 'w) binance_stream, 'a) action" where
  "on_bn \<equiv> in_state bn_stream (\<lambda>w s. s\<lparr>bn_stream := w\<rparr>)"

definition create_binance_stream :: "'w \<Rightarrow> ('h, 'c, 'w) binance_stream" where
  "create_binance_stream client = \<lparr>bn_stream = create_websocket_stream
     ''wss://stream.binance.com:9443/ws'' (CHR 0x00) client, bn_orderBookIds = Map.empty\<rparr>"

definition binance_create_message :: "string \<Rightarrow> string \<Rightarrow> tradable_pair list \<Rightarrow> json" where
  "binance_create_message method channel pairs = json_object
     [(''method'', JString method),
      (''params'', JArray (map (\<lambda>pair. JString (to_lower (pair_name pair) @ ''@'' @ channel)) pairs)),
      (''id'', JInt 1)]"

definition binance_get_channel_name :: "websocket_subscription \<Rightarrow> string res" where
  "binance_get_channel_name subscription = (case sb_channel subscription of
       TRADE \<Rightarrow> Inr ''trade''
     | OHLCV \<Rightarrow> res_map (\<lambda>i. ''kline_'' @ interval_to_string i) (get_ohlcv_interval subscription)
     | ORDER_BOOK \<Rightarrow> Inr ''depth@100ms'')"

definition binance_trade :: "json \<Rightarrow> (string \<times> trade_update) res" where
  "binance_trade json =
     res_bind (member get_string json ''s'') (\<lambda>symbol.
     res_bind (member get_stod json ''p'') (\<lambda>price.
     res_bind (member get_stod json ''q'') (\<lambda>volume.
     res_bind (member get_time json ''T'') (\<lambda>time.
     Inr (symbol, \<lparr>tu_timeStamp = time sdiv 1000, tu_price = price, tu_volume = volume\<rparr>)))))"

definition binance_process_trade_message ::
    "('h, 'c, 'w) stream_calls \<Rightarrow> json \<Rightarrow> (('h, 'c, 'w) binance_stream, unit) action" where
  "binance_process_trade_message calls json =
     reading (binance_trade json) (\<lambda>(symbol, trade). on_bn (ws_update_trade (sc_trade calls) symbol trade))"

definition binance_process_ohlcv_message ::
    "('h, 'c, 'w) stream_calls \<Rightarrow> json \<Rightarrow> (('h, 'c, 'w) binance_stream, unit) action" where
  "binance_process_ohlcv_message calls json =
     reading (member get_string json ''s'') (\<lambda>symbol.
     reading (json_element json ''k'') (\<lambda>klineElement.
     reading (member get_string klineElement ''i'') (\<lambda>interval.
     reading (named_candle klineElement) (\<lambda>ohlcv.
     on_bn (ws_update_ohlcv (sc_ohlcv calls) symbol (parse_ohlcv_interval interval) ohlcv)))))"

definition binance_process_order_book_element ::
    "('h, 'c, 'w) stream_calls \<Rightarrow> order_book_side \<Rightarrow> string \<Rightarrow> time_t \<Rightarrow> json \<Rightarrow> (('h, 'c, 'w) binance_stream, unit) action" where
  "binance_process_order_book_element calls side pair uid element =
     on_bn (read_updates (entry_of get_stod side) (ws_update_order_book (sc_book calls) pair uid) (json_values element))"

definition set_book_id :: "string \<Rightarrow> time_t \<Rightarrow> (('h, 'c, 'w) binance_stream, unit) action" where
  "set_book_id symbol uid = act_modify (\<lambda>s. s\<lparr>bn_orderBookIds := (bn_orderBookIds s)(symbol \<mapsto> uid)\<rparr>)"

definition binance_initialise_book ::
    "('h, 'c, 'w) stream_calls \<Rightarrow> (tradable_pair \<Rightarrow> int \<Rightarrow> order_book_state res) \<Rightarrow> string \<Rightarrow>
     (('h, 'c, 'w) binance_stream, unit) action" where
  "binance_initialise_book calls market_get_order_book symbol =
     act_bind (act_res (\<lambda>s. case ws_pairs (bn_stream s) symbol of
          None \<Rightarrow> Inl (Out_of_range ''unordered_map::at'') | Some pair \<Rightarrow> Inr pair)) (\<lambda>pair.
     reading (market_get_order_book pair 100) (\<lambda>snapshot.
     act_seq (set_book_id symbol (ob_timeStamp snapshot))
       (on_bn (initialise_order_book (sc_book calls) symbol (from_snapshot snapshot)))))"

definition binance_process_order_book_message ::
    "('h, 'c, 'w) stream_calls \<Rightarrow> (tradable_pair \<Rightarrow> int \<Rightarrow> order_book_state res) \<Rightarrow> json \<Rightarrow>
     (('h, 'c, 'w) binance_stream, unit) action" where
  "binance_process_order_book_message calls market_get_order_book json =
     reading (member get_string json ''s'') (\<lambda>symbol.
     act_bind (act_read (\<lambda>s. bn_orderBookIds s symbol)) (\<lambda>known.
     case known of
       None \<Rightarrow> binance_initialise_book calls market_get_order_book symbol
     | Some lastUpdate \<Rightarrow>
         reading (member get_time json ''u'') (\<lambda>finalUpdateId.
         if finalUpdateId \<le> lastUpdate then act_return () else
         act_seq (reading (json_element json ''a'') (binance_process_order_book_element calls ASK symbol finalUpdateId))
        (act_seq (reading (json_element json ''b'') (binance_process_order_book_element calls BID symbol finalUpdateId))
         (set_book_id symbol finalUpdateId)))))"

definition binance_on_message ::
    "(string \<Rightarrow> json res) \<Rightarrow> ('h, 'c, 'w) stream_calls \<Rightarrow> (tradable_pair \<Rightarrow> int \<Rightarrow> order_book_state res) \<Rightarrow> string \<Rightarrow>
     (('h, 'c, 'w) binance_stream, unit) action" where
  "binance_on_message parse calls market_get_order_book message =
     reading (parse message) (\<lambda>json.
     if has_member json ''msg'' then reading (member get_string json ''msg'') (\<lambda>_. act_return ())
     else if has_member json ''e'' then
       reading (member get_string json ''e'') (\<lambda>channel.
       if channel = ''trade'' then binance_process_trade_message calls json
       else if channel = ''kline'' then binance_process_ohlcv_message calls json
       else if channel = ''depthUpdate'' then binance_process_order_book_message calls market_get_order_book json
       else act_return ())
     else act_return ())"

definition binance_send ::
    "(json \<Rightarrow> string) \<Rightarrow> (string \<Rightarrow> ('h, 'c, 'w, unit) ws_action) \<Rightarrow> string \<Rightarrow> websocket_subscription \<Rightarrow>
     (('h, 'c, 'w) binance_stream, unit) action" where
  "binance_send dump send method subscription =
     reading (binance_get_channel_name subscription) (\<lambda>channel.
     on_bn (send (dump (binance_create_message method channel (sb_pairItem subscription)))))"

definition binance_send_subscribe ::
    "(json \<Rightarrow> string) \<Rightarrow> (string \<Rightarrow> ('h, 'c, 'w, unit) ws_action) \<Rightarrow> websocket_subscription \<Rightarrow>
     (('h, 'c, 'w) binance_stream, unit) action" where
  "binance_send_subscribe dump send = binance_send dump send ''SUBSCRIBE''"

definition binance_send_unsubscribe ::
    "(json \<Rightarrow> string) \<Rightarrow> (string \<Rightarrow> ('h, 'c, 'w, unit) ws_action) \<Rightarrow> websocket_subscription \<Rightarrow>
     (('h, 'c, 'w) binance_stream, unit) action" where
  "binance_send_unsubscribe dump send = binance_send dump send ''UNSUBSCRIBE''"

section \<open>A book that is kept up to date\<close>

text \<open>A message of changes: its last update id, and the changes of both sides.\<close>

definition depth_json :: "string \<Rightarrow> time_t \<times> json list \<times> json list \<Rightarrow> json" where
  "depth_json name m = JObject [(''e'', JString ''depthUpdate''), (''s'', JString name), (''u'', JInt (fst m)),
     (''a'', JArray (fst (snd m))), (''b'', JArray (snd (snd m)))]"

definition depth_reads :: "time_t \<times> json list \<times> json list \<Rightarrow> time_t \<times> order_book_entry list \<Rightarrow> bool" where
  "depth_reads m u \<longleftrightarrow> int64 (fst m) \<and> fst u = fst m \<and> (\<exists>as bs. snd u = as @ bs \<and>
     res_traverse (entry_of get_stod ASK) (fst (snd m)) = Inr as \<and>
     res_traverse (entry_of get_stod BID) (snd (snd m)) = Inr bs)"

text \<open>The messages that are newer than every one before them.\<close>

fun newer :: "time_t \<Rightarrow> (time_t \<times> 'a) list \<Rightarrow> (time_t \<times> 'a) list" where
  "newer latest [] = []"
| "newer latest (u # us) = (if fst u \<le> latest then newer latest us else u # newer (fst u) us)"

definition changes :: "(time_t \<times> order_book_entry list) list \<Rightarrow> (time_t \<times> order_book_entry) list" where
  "changes us = concat (map (\<lambda>(t, es). map (Pair t) es) us)"

definition binance_book :: "string \<Rightarrow> order_book_cache \<Rightarrow> time_t \<Rightarrow> ('h, 'c, 'w) binance_stream \<Rightarrow> bool" where
  "binance_book name cache latest s \<longleftrightarrow> ws_pairs (bn_stream s) name \<noteq> None \<and>
     ws_orderBooks (bn_stream s) name = Some cache \<and> bn_orderBookIds s name = Some latest"

lemma depth_message:
  assumes "binance_book name cache latest s" "depth_reads m u" "parse message = Inr (depth_json name m)"
    and "sc_book calls = log_call"
  shows "\<exists>t. binance_on_message parse calls market message s = (Inr (), t) \<and>
    (if fst u \<le> latest then t = s else binance_book name (cache_run cache (map (Pair (fst u)) (snd u))) (fst u) t)"
proof -
  obtain as bs where r: "snd u = as @ bs" "res_traverse (entry_of get_stod ASK) (fst (snd m)) = Inr as"
      "res_traverse (entry_of get_stod BID) (snd (snd m)) = Inr bs" "int64 (fst m)" "fst u = fst m"
    using assms(2) by (auto simp: depth_reads_def)
  obtain p where s: "ws_pairs (bn_stream s) name = Some p" "ws_orderBooks (bn_stream s) name = Some cache"
      "bn_orderBookIds s name = Some latest" using assms(1) by (auto simp: binance_book_def)
  show ?thesis
    using assms(3,4) s r
    by (auto simp: binance_on_message_def depth_json_def member_def binance_process_order_book_message_def
        act_simps int64_narrow binance_process_order_book_element_def in_state_def set_book_id_def json_simps o_def
        read_updates_all [OF r(2)] read_updates_all [OF r(3)] logged_book_entries [of _ name p] binance_book_def
        cache_run_append)
qed

lemma depth_messages:
  assumes "binance_book name cache latest s" "sc_book calls = log_call"
    and "list_all2 (\<lambda>message m. parse message = Inr (depth_json name m)) messages ms" "list_all2 depth_reads ms us"
  shows "\<exists>t latest'. act_iter (binance_on_message parse calls market) messages s = (Inr (), t) \<and>
    binance_book name (cache_run cache (changes (newer latest us))) latest' t"
  using assms(3,4,1)
proof (induction messages ms arbitrary: us s cache latest rule: list_all2_induct)
  case Nil
  then show ?case by (auto simp: changes_def cache_run_def)
next
  case (Cons message messages m ms)
  then obtain u vs where us: "us = u # vs" "depth_reads m u" "list_all2 depth_reads ms vs"
    by (auto simp: list_all2_Cons1)
  obtain t where t: "binance_on_message parse calls market message s = (Inr (), t)"
      "if fst u \<le> latest then t = s else binance_book name (cache_run cache (map (Pair (fst u)) (snd u))) (fst u) t"
    using depth_message [of name cache latest s m u parse message calls market, OF Cons.prems(2) us(2) Cons.hyps(1) assms(2)] by blast
  show ?case
  proof (cases "fst u \<le> latest")
    case True
    with t Cons.IH [OF us(3) Cons.prems(2)] show ?thesis by (simp add: us(1) act_bind_def)
  next
    case False
    with t have "binance_book name (cache_run cache (map (Pair (fst u)) (snd u))) (fst u) t" by simp
    from Cons.IH [OF us(3) this] t(1) False show ?thesis
      by (auto simp: us(1) act_bind_def changes_def cache_run_append split: prod.split)
  qed
qed

lemma first_depth_message:
  assumes "ws_pairs (bn_stream s) name = Some p" "bn_orderBookIds s name = None" "sc_book calls = log_call"
    and "market p 100 = Inr snap" "parse message = Inr (depth_json name m)"
  shows "\<exists>t. binance_on_message parse calls market message s = (Inr (), t) \<and>
    binance_book name (from_snapshot snap) (ob_timeStamp snap) t"
  using assms
  by (auto simp: binance_on_message_def depth_json_def member_def binance_process_order_book_message_def
      act_simps binance_initialise_book_def set_book_id_def in_state_def initialise_order_book_def
      store_order_book_def with_shared_pair_def fire_order_book_update_def fire_handlers_def log_calls
      binance_book_def json_simps)

text \<open>
  C13: the first message for a subscribed pair only fetches the snapshot; of the messages after
  it, those that are newer than the snapshot and than every message before them are applied in
  order, and repeated or late ones change nothing. Nothing detects a message that is missing,
  and the changes of the first message are lost when they are newer than the snapshot.
\<close>

theorem binance_book_follows_messages:
  assumes "ws_pairs (bn_stream s) name = Some p" "bn_orderBookIds s name = None" "sc_book calls = log_call"
    and "market p 100 = Inr snap" "parse message = Inr (depth_json name m)"
    and "list_all2 (\<lambda>message m. parse message = Inr (depth_json name m)) messages ms" "list_all2 depth_reads ms us"
  shows "\<exists>t. act_iter (binance_on_message parse calls market) (message # messages) s = (Inr (), t) \<and>
    ws_orderBooks (bn_stream t) name =
      Some (cache_run (from_snapshot snap) (changes (newer (ob_timeStamp snap) us)))"
proof -
  obtain t where t: "binance_on_message parse calls market message s = (Inr (), t)"
      "binance_book name (from_snapshot snap) (ob_timeStamp snap) t"
    using first_depth_message [of s name p calls market snap parse message m, OF assms(1-5)] by blast
  then show ?thesis
    using depth_messages [OF t(2) assms(3,6,7), of market] by (auto simp: act_bind_def binance_book_def)
qed

text \<open>A late message that would remove the ask at 2, a newer one that changes its volume.\<close>

theorem binance_book_follows_messages_witness:
  "let p = \<lparr>tp_asset = ''BTC'', tp_priceUnit = ''USDT''\<rparr>; level = \<lambda>v. JArray [JString ''2'', JString v];
       s = (create_binance_stream [] :: (nat, nat, (nat \<times> order_book_update_message) list) binance_stream)
         \<lparr>bn_stream := (create_websocket_stream [] (CHR 0x00) [])\<lparr>ws_pairs := [''BTCUSDT'' \<mapsto> p]\<rparr>\<rparr>;
       calls = \<lparr>sc_trade = \<lambda>_ _. act_return (), sc_ohlcv = \<lambda>_ _. act_return (), sc_book = log_call\<rparr>;
       parse = (\<lambda>t. Inr (depth_json ''BTCUSDT'' (if t = ''late'' then (9, [level ''0''], [])
         else (12, [level ''5''], []))));
       market = (\<lambda>_ _. Inr \<lparr>ob_timeStamp = 10, ob_asks = [ask_at 2 1], ob_bids = []\<rparr>)
   in \<exists>t. act_iter (binance_on_message parse calls market) [''new'', ''late'', ''new''] s = (Inr (), t) \<and>
      ws_orderBooks (bn_stream t) ''BTCUSDT'' =
        Some \<lparr>bc_lastUpdate = 12, bc_asks = [ask_at 2 5], bc_bids = []\<rparr>"
proof -
  let ?p = "\<lparr>tp_asset = ''BTC'', tp_priceUnit = ''USDT''\<rparr>" and ?level = "\<lambda>v. JArray [JString ''2'', JString v]"
  let ?s = "(create_binance_stream [] :: (nat, nat, (nat \<times> order_book_update_message) list) binance_stream)
    \<lparr>bn_stream := (create_websocket_stream [] (CHR 0x00) [])\<lparr>ws_pairs := [''BTCUSDT'' \<mapsto> ?p]\<rparr>\<rparr>"
  let ?calls = "\<lparr>sc_trade = \<lambda>_ _. act_return (), sc_ohlcv = \<lambda>_ _. act_return (), sc_book = log_call\<rparr>"
  let ?late = "(9, [?level ''0''], [])" and ?new = "(12, [?level ''5''], [])"
  let ?parse = "\<lambda>t. Inr (depth_json ''BTCUSDT'' (if t = ''late'' then ?late else ?new))"
  let ?snap = "\<lparr>ob_timeStamp = 10, ob_asks = [ask_at 2 1], ob_bids = []\<rparr>"
  have "res_traverse (entry_of get_stod ASK) [?level ''0''] = Inr [ask_at 2 0]"
    "res_traverse (entry_of get_stod ASK) [?level ''5''] = Inr [ask_at 2 5]" by code_simp+
  then have r: "list_all2 depth_reads [?late, ?new] [(9, [ask_at 2 0]), (12, [ask_at 2 5])]"
    by (simp add: depth_reads_def int64_def)
  have c: "cache_run (from_snapshot ?snap) (changes (newer 10 [(9, [ask_at 2 0]), (12, [ask_at 2 5])])) =
    \<lparr>bc_lastUpdate = 12, bc_asks = [ask_at 2 5], bc_bids = []\<rparr>" by code_simp
  have s: "ws_pairs (bn_stream ?s) ''BTCUSDT'' = Some ?p" "bn_orderBookIds ?s ''BTCUSDT'' = None"
    by (simp_all add: create_binance_stream_def)
  show ?thesis
    unfolding Let_def
    using binance_book_follows_messages [of ?s "''BTCUSDT''" ?p ?calls "\<lambda>_ _. Inr ?snap" ?snap ?parse "''new''" ?new
        "[''late'', ''new'']" "[?late, ?new]" "[(9, [ask_at 2 0]), (12, [ask_at 2 5])]", OF s] r c by simp
qed

section \<open>A book after the connection was lost\<close>

text \<open>A new connection forgets the books of the stream, not the ids of their updates.\<close>

lemma reset_forgets_books:
  assumes "on_bn (ws_reset close connect) s = (Inr (), t)" "ws_connection (bn_stream s) = Some c"
  shows "ws_orderBooks (bn_stream t) = Map.empty" "ws_pairs (bn_stream t) = ws_pairs (bn_stream s)"
    "bn_orderBookIds t = bn_orderBookIds s"
  using assms
  by (auto simp: in_state_def ws_reset_def ws_disconnect_def clear_subscriptions_def act_simps act_bind_def
      act_res_def act_read_def act_modify_def split: sum.splits prod.splits)

lemma logged_first_entry:
  "ws_pairs s name = Some p \<Longrightarrow> ws_orderBooks s name = None \<Longrightarrow>
    ws_update_order_book log_call name t e s =
    ws_update_order_book log_call name t e (s\<lparr>ws_orderBooks := (ws_orderBooks s)(name \<mapsto> empty_order_book_cache)\<rparr>)"
  by (simp add: ws_update_order_book_def act_simps store_order_book_def with_shared_pair_def
      fire_order_book_update_def fire_handlers_def log_calls)

lemma logged_first_entries:
  assumes "ws_pairs s name = Some p" "ws_orderBooks s name = None" "es \<noteq> []"
  shows "\<exists>t. act_iter (ws_update_order_book log_call name time) es s = (Inr (), t) \<and> ws_pairs t name = Some p \<and>
    ws_orderBooks t name = Some (cache_run empty_order_book_cache (map (Pair time) es))"
proof -
  let ?s = "s\<lparr>ws_orderBooks := (ws_orderBooks s)(name \<mapsto> empty_order_book_cache)\<rparr>"
  have "act_iter (ws_update_order_book log_call name time) es s = act_iter (ws_update_order_book log_call name time) es ?s"
    using logged_first_entry [OF assms(1,2)] assms(3) by (cases es) (simp_all add: act_bind_def)
  with logged_book_entries [of ?s name p _ time es] assms(1) show ?thesis by simp
qed

lemma depth_message_steps:
  assumes "parse message = Inr (depth_json name m)" "depth_reads m u" "bn_orderBookIds s name = Some latest" "latest < fst u"
  shows "binance_on_message parse calls market message s =
    act_seq (on_bn (act_iter (ws_update_order_book (sc_book calls) name (fst u)) (snd u))) (set_book_id name (fst u)) s"
proof -
  obtain as bs where r: "snd u = as @ bs" "res_traverse (entry_of get_stod ASK) (fst (snd m)) = Inr as"
      "res_traverse (entry_of get_stod BID) (snd (snd m)) = Inr bs" "int64 (fst m)" "fst u = fst m"
    using assms(2) by (auto simp: depth_reads_def)
  have e: "read_updates (entry_of get_stod ASK) f (fst (snd m)) = act_iter f as"
      "read_updates (entry_of get_stod BID) f (snd (snd m)) = act_iter f bs" for f :: "_ \<Rightarrow> ('d, unit) action"
    by (simp_all add: fun_eq_iff read_updates_all [OF r(2)] read_updates_all [OF r(3)])
  show ?thesis
    using assms r
    by (simp add: binance_on_message_def depth_json_def member_def binance_process_order_book_message_def
        act_simps int64_narrow binance_process_order_book_element_def json_simps o_def e in_state_def
        act_iter_append split: prod.split sum.split)
qed

text \<open>
  C38: a stream that reconnects forgets its books but not the ids of their updates, so the next
  message is not taken as the first one: no snapshot is fetched, and the book of the pair holds
  nothing but the changes of the messages since.
\<close>

theorem binance_reconnect_loses_snapshot:
  assumes "binance_book name cache latest s" "ws_connection (bn_stream s) = Some c"
    and "on_bn (ws_reset close connect) s = (Inr (), t)" "sc_book calls = log_call"
    and "parse message = Inr (depth_json name m)" "depth_reads m u" "latest < fst u" "snd u \<noteq> []"
  shows "\<exists>t'. binance_on_message parse calls market message t = (Inr (), t') \<and>
    ws_orderBooks (bn_stream t') name = Some (cache_run empty_order_book_cache (map (Pair (fst u)) (snd u)))"
proof -
  note r = reset_forgets_books [OF assms(3,2)]
  have i: "bn_orderBookIds t name = Some latest" and "\<exists>p. ws_pairs (bn_stream t) name = Some p"
    using assms(1) r by (auto simp: binance_book_def)
  then obtain p where "ws_pairs (bn_stream t) name = Some p" by blast
  from logged_first_entries [OF this _ assms(8)] r(1)
  obtain w where "act_iter (ws_update_order_book log_call name (fst u)) (snd u) (bn_stream t) = (Inr (), w)"
      "ws_orderBooks w name = Some (cache_run empty_order_book_cache (map (Pair (fst u)) (snd u)))" by auto
  then show ?thesis
    using depth_message_steps [of parse message name m u t latest calls market, OF assms(5,6) i assms(7)] assms(4)
    by (simp add: act_bind_def in_state_def set_book_id_def act_simps)
qed

text \<open>A book of two asks of which only the changed one is left after the reconnection.\<close>

theorem binance_reconnect_loses_snapshot_witness:
  "let w = (create_websocket_stream [] (CHR 0x00) [] :: (nat, nat, (nat \<times> order_book_update_message) list) websocket_stream)
         \<lparr>ws_connection := Some 1, ws_pairs := [''BTCUSDT'' \<mapsto> \<lparr>tp_asset = ''BTC'', tp_priceUnit = ''USDT''\<rparr>],
          ws_orderBooks := [''BTCUSDT'' \<mapsto> \<lparr>bc_lastUpdate = 10, bc_asks = [ask_at 2 1, ask_at 3 1], bc_bids = []\<rparr>]\<rparr>;
       s = \<lparr>bn_stream = w, bn_orderBookIds = [''BTCUSDT'' \<mapsto> 10]\<rparr>;
       t = s\<lparr>bn_stream := w\<lparr>ws_connection := Some 2, ws_orderBooks := Map.empty\<rparr>\<rparr>;
       calls = \<lparr>sc_trade = \<lambda>_ _. act_return (), sc_ohlcv = \<lambda>_ _. act_return (), sc_book = log_call\<rparr>;
       parse = (\<lambda>_. Inr (depth_json ''BTCUSDT'' (12, [JArray [JString ''2'', JString ''5'']], [])));
       market = (\<lambda>_ _. Inr \<lparr>ob_timeStamp = 11, ob_asks = [ask_at 2 1, ask_at 3 1], ob_bids = []\<rparr>)
   in on_bn (ws_reset (\<lambda>_. Inr ()) (\<lambda>_. Inr 2)) s = (Inr (), t) \<and>
     (\<exists>t'. binance_on_message parse calls market ''depth'' t = (Inr (), t') \<and>
      ws_orderBooks (bn_stream t') ''BTCUSDT'' = Some \<lparr>bc_lastUpdate = 12, bc_asks = [ask_at 2 5], bc_bids = []\<rparr>)"
proof -
  let ?b = "\<lparr>bc_lastUpdate = 10, bc_asks = [ask_at 2 1, ask_at 3 1], bc_bids = []\<rparr>"
  let ?w = "(create_websocket_stream [] (CHR 0x00) [] :: (nat, nat, (nat \<times> order_book_update_message) list) websocket_stream)
    \<lparr>ws_connection := Some 1, ws_pairs := [''BTCUSDT'' \<mapsto> \<lparr>tp_asset = ''BTC'', tp_priceUnit = ''USDT''\<rparr>],
     ws_orderBooks := [''BTCUSDT'' \<mapsto> ?b]\<rparr>"
  let ?s = "\<lparr>bn_stream = ?w, bn_orderBookIds = [''BTCUSDT'' \<mapsto> 10]\<rparr>"
  let ?t = "?s\<lparr>bn_stream := ?w\<lparr>ws_connection := Some 2, ws_orderBooks := Map.empty\<rparr>\<rparr>"
  let ?calls = "\<lparr>sc_trade = \<lambda>_ _. act_return (), sc_ohlcv = \<lambda>_ _. act_return (), sc_book = log_call\<rparr>"
  let ?m = "(12, [JArray [JString ''2'', JString ''5'']], [])" and ?u = "(12, [ask_at 2 5])"
  let ?parse = "\<lambda>_. Inr (depth_json ''BTCUSDT'' ?m)"
  let ?market = "\<lambda>_ _. Inr \<lparr>ob_timeStamp = 11, ob_asks = [ask_at 2 1, ask_at 3 1], ob_bids = []\<rparr>"
  have t: "on_bn (ws_reset (\<lambda>_. Inr ()) (\<lambda>_. Inr 2)) ?s = (Inr (), ?t)"
    by (simp add: in_state_def ws_reset_def ws_disconnect_def clear_subscriptions_def create_websocket_stream_def act_simps)
  have "res_traverse (entry_of get_stod ASK) [JArray [JString ''2'', JString ''5'']] = Inr [ask_at 2 5]" by code_simp
  then have "depth_reads ?m ?u" by (simp add: depth_reads_def int64_def)
  moreover have "cache_run empty_order_book_cache (map (Pair 12) [ask_at 2 5]) =
      \<lparr>bc_lastUpdate = 12, bc_asks = [ask_at 2 5], bc_bids = []\<rparr>" by code_simp
  moreover have "binance_book ''BTCUSDT'' ?b 10 ?s" "ws_connection (bn_stream ?s) = Some 1"
    by (simp_all add: binance_book_def)
  ultimately show ?thesis
    unfolding Let_def
    using t binance_reconnect_loses_snapshot [of "''BTCUSDT''" ?b 10 ?s 1 "\<lambda>_. Inr ()" "\<lambda>_. Inr 2" ?t ?calls ?parse "''depth''" ?m ?u ?market]
    by simp
qed

section \<open>Failures\<close>

interpretation binance_answers: answer_reader "binance_read_result parse reader" for parse reader
  by unfold_locales (auto simp: binance_read_result_def dest: try_result_no_throw)

lemma binance_requests_catchable [catchable_rules]:
  "catchable (binance_public env path (binance_read_result parse reader) query)"
  "catchable (binance_private env verb path (binance_read_result parse reader) b)"
  unfolding binance_public_def binance_private_def Let_def
  by (intro catchable_rules binance_answers.request_catchable)+

end
