(* ===== verification/Bybit.thy ===== *)
theory Bybit
  imports Requests "HOL-Library.Char_ord" "HOL-Library.List_Lexorder"
begin

text \<open>
  \<^verbatim>\<open>exchanges/bybit/\<close>: the readers of the answers (\<^verbatim>\<open>bybit_results.cpp\<close>) and the
  market stream (\<^verbatim>\<open>bybit_websocket.cpp\<close>). The parser is a parameter.
\<close>

section \<open>Answers\<close>

definition bybit_read_result ::
    "(string \<Rightarrow> json res) \<Rightarrow> (json \<Rightarrow> 'v res) \<Rightarrow> string \<Rightarrow> 'v result res" where
  "bybit_read_result parse reader text = try_result (res_bind (parse text) (\<lambda>json.
     res_bind (member get_int json ''ret_code'') (\<lambda>code.
     if code \<noteq> 0 then res_map Fail (member get_string json ''ret_msg'')
     else res_bind (json_element json ''result'') (\<lambda>r. success (reader r)))))"

definition bybit_to_trade_action :: "string \<Rightarrow> trade_action" where
  "bybit_to_trade_action sideString = (if sideString = ''BUY'' then BUY else SELL)"

text \<open>The quantity of a market order to buy is what it costs.\<close>

definition bybit_order_qty :: "json \<Rightarrow> trade_action \<Rightarrow> double \<Rightarrow> double \<Rightarrow> double res" where
  "bybit_order_qty orderElement action price qty =
     (if action = BUY then res_map (\<lambda>ty. if ty = ''MARKET'' then calculate_volume price qty else qty)
        (member get_string orderElement ''type'')
      else Inr qty)"

definition bybit_order :: "json \<Rightarrow> order_description res" where
  "bybit_order orderElement =
     res_bind (res_map bybit_to_trade_action (member get_string orderElement ''side'')) (\<lambda>action.
     res_bind (member get_stod orderElement ''price'') (\<lambda>price.
     res_bind (member get_stod orderElement ''origQty'') (\<lambda>origQty.
     res_bind (bybit_order_qty orderElement action price origQty) (\<lambda>qty.
     res_bind (res_bind (member get_string orderElement ''time'') stoll) (\<lambda>time.
     res_bind (member get_string orderElement ''orderId'') (\<lambda>orderId.
     res_bind (member get_string orderElement ''type'') (\<lambda>ty.
     res_bind (member get_string orderElement ''symbol'') (\<lambda>symbol.
     Inr \<lparr>od_timeStamp = time sdiv 1000, od_orderId = orderId,
       od_orderType = (if ty = ''LIMIT'' then LIMIT else MARKET), od_pairName = symbol, od_action = action,
       od_price = price, od_volume = qty\<rparr>))))))))"

definition bybit_read_system_status :: "(string \<Rightarrow> json res) \<Rightarrow> string \<Rightarrow> exchange_status result res" where
  "bybit_read_system_status parse = bybit_read_result parse (\<lambda>_. Inr ONLINE)"

definition bybit_pair :: "json \<Rightarrow> tradable_pair res" where
  "bybit_pair pairElement =
     res_bind (member get_string pairElement ''baseCurrency'') (\<lambda>asset.
     res_bind (member get_string pairElement ''quoteCurrency'') (\<lambda>priceUnit.
     Inr \<lparr>tp_asset = asset, tp_priceUnit = priceUnit\<rparr>))"

definition bybit_read_tradable_pairs :: "(string \<Rightarrow> json res) \<Rightarrow> string \<Rightarrow> tradable_pair list result res" where
  "bybit_read_tradable_pairs parse = bybit_read_result parse (read_vector bybit_pair)"

definition bybit_read_ohlcv :: "(string \<Rightarrow> json res) \<Rightarrow> string \<Rightarrow> ohlcv_data list result res" where
  "bybit_read_ohlcv parse = bybit_read_result parse (\<lambda>r.
     read_reversed (candle_of get_stod (\<lambda>t. t sdiv 1000) [1, 2, 3, 4, 5]) (json_values r))"

definition bybit_read_price :: "(string \<Rightarrow> json res) \<Rightarrow> string \<Rightarrow> double result res" where
  "bybit_read_price parse = bybit_read_result parse (\<lambda>r. member get_stod r ''price'')"

definition bybit_order_book :: "json \<Rightarrow> order_book_state res" where
  "bybit_order_book r =
     res_bind (json_element r ''asks'') (\<lambda>asksElement.
     res_bind (json_element r ''bids'') (\<lambda>bidsElement.
     res_bind (book_loop (entry_of get_stod ASK) (entry_of get_stod BID)
         (json_values asksElement) (json_values bidsElement)) (\<lambda>(asks, bids).
     res_bind (member get_time r ''time'') (\<lambda>time.
     Inr \<lparr>ob_timeStamp = time sdiv 1000, ob_asks = asks, ob_bids = bids\<rparr>))))"

definition bybit_read_order_book :: "(string \<Rightarrow> json res) \<Rightarrow> string \<Rightarrow> order_book_state result res" where
  "bybit_read_order_book parse = bybit_read_result parse bybit_order_book"

definition bybit_read_balances :: "(string \<Rightarrow> json res) \<Rightarrow> string \<Rightarrow> (string \<times> double) list result res" where
  "bybit_read_balances parse = bybit_read_result parse (\<lambda>r.
     res_bind (json_element r ''balances'') (read_map (\<lambda>(_, assetElement).
     res_bind (member get_string assetElement ''coin'') (\<lambda>asset.
     res_map (Pair asset) (member get_stod assetElement ''free'')))))"

definition bybit_read_open_orders :: "(string \<Rightarrow> json res) \<Rightarrow> string \<Rightarrow> order_description list result res" where
  "bybit_read_open_orders parse = bybit_read_result parse (read_vector bybit_order)"

definition bybit_closed_order :: "json \<Rightarrow> order_description option res" where
  "bybit_closed_order orderElement =
     res_bind (member get_string orderElement ''status'') (\<lambda>status.
     if status = ''FILLED'' then res_map Some (bybit_order orderElement) else Inr None)"

definition bybit_read_closed_orders :: "(string \<Rightarrow> json res) \<Rightarrow> string \<Rightarrow> order_description list result res" where
  "bybit_read_closed_orders parse = bybit_read_result parse (\<lambda>r.
     res_map (List.map_filter id) (read_vector bybit_closed_order r))"

definition bybit_read_add_order :: "(string \<Rightarrow> json res) \<Rightarrow> string \<Rightarrow> string result res" where
  "bybit_read_add_order parse = bybit_read_result parse (\<lambda>r. member get_string r ''orderId'')"

text \<open>A result without a value does not look at the result element.\<close>

definition bybit_read_cancel_order :: "(string \<Rightarrow> json res) \<Rightarrow> string \<Rightarrow> unit result res" where
  "bybit_read_cancel_order parse text = try_result (res_bind (parse text) (\<lambda>json.
     res_bind (member get_int json ''ret_code'') (\<lambda>code.
     if code \<noteq> 0 then res_map Fail (member get_string json ''ret_msg'') else Inr (Success ()))))"

section \<open>Requests\<close>

record bybit_api =
  ya_baseUrl :: string
  ya_apiKey :: string
  ya_apiSecret :: string
  ya_fee :: double

definition bybit_select_base_url :: "bool \<Rightarrow> string" where
  "bybit_select_base_url enableTesting =
     (if enableTesting then ''https://api-testnet.bybit.com'' else ''https://api.bybit.com'')"

text \<open>A market order to buy is sized by what it costs at the price of the moment.\<close>

definition bybit_order_quantity :: "order_request \<Rightarrow> ('w, double) action \<Rightarrow> ('w, double) action" where
  "bybit_order_quantity orderRequest price =
     (let volume = rq_get orderRequest VOLUME in
      if rq_orderType orderRequest = MARKET \<and> rq_action orderRequest = BUY
      then act_bind price (\<lambda>p. act_return (calculate_cost p volume))
      else act_return volume)"

definition bybit_side_string :: "trade_action \<Rightarrow> string" where
  "bybit_side_string action = (if action = BUY then ''Buy'' else ''Sell'')"

definition bybit_type_string :: "order_type \<Rightarrow> string" where
  "bybit_type_string orderType = (if orderType = MARKET then ''MARKET'' else ''LIMIT'')"

definition bybit_sign :: "'w http_env \<Rightarrow> bybit_api \<Rightarrow> string \<Rightarrow> string" where
  "bybit_sign env api query = hex_encode (he_hmac_sha256 env query (ya_apiSecret api))"

definition bybit_public ::
    "'w http_env \<Rightarrow> bybit_api \<Rightarrow> string \<Rightarrow> (string \<Rightarrow> 'v result res) \<Rightarrow> string \<Rightarrow> ('w, 'v) action" where
  "bybit_public env api path reader query =
     reading (build_url (ya_baseUrl api) path query) (\<lambda>url. request_value env (new_request GET url) reader)"

text \<open>The parameters are a \<^verbatim>\<open>std::map\<close>: sorted by their keys, and an entry that is there stays.\<close>

definition sorted_emplace :: "string \<Rightarrow> string \<Rightarrow> (string \<times> string) list \<Rightarrow> (string \<times> string) list" where
  "sorted_emplace key value m = (if key \<in> fst ` set m then m else insort_key fst (key, value) m)"

definition bybit_private_request ::
    "bybit_api \<Rightarrow> http_verb \<Rightarrow> string \<Rightarrow> string \<Rightarrow> http_request res" where
  "bybit_private_request api verb path signedQuery =
     (let (query, content) = (if verb = POST then ([], signedQuery) else (signedQuery, [])) in
      res_map (\<lambda>url. set_content content (new_request verb url)) (build_url (ya_baseUrl api) path query))"

definition bybit_private ::
    "'w http_env \<Rightarrow> bybit_api \<Rightarrow> http_verb \<Rightarrow> string \<Rightarrow> (string \<Rightarrow> 'v result res) \<Rightarrow> (string \<times> string) list \<Rightarrow>
     ('w, 'v) action" where
  "bybit_private env api verb path reader queryParams =
     act_bind (epoch_milliseconds env) (\<lambda>timestamp.
     let queryParams = sorted_emplace ''timestamp'' timestamp (sorted_emplace ''api_key'' (ya_apiKey api)
           (fold (\<lambda>(k, v). sorted_emplace k v) queryParams [])) in
     reading (add_parameters queryParams new_query) (\<lambda>queryBuilder.
     reading (add_parameter ''sign'' (bybit_sign env api (qb_query queryBuilder)) queryBuilder) (\<lambda>signed.
     reading (bybit_private_request api verb path (qb_query signed)) (\<lambda>request.
     request_value env request reader))))"

definition bybit_get_status :: "(string \<Rightarrow> json res) \<Rightarrow> 'w http_env \<Rightarrow> bybit_api \<Rightarrow> ('w, exchange_status) action" where
  "bybit_get_status parse env api = bybit_public env api ''spot/v1/time'' (bybit_read_system_status parse) []"

definition bybit_get_tradable_pairs ::
    "(string \<Rightarrow> json res) \<Rightarrow> 'w http_env \<Rightarrow> bybit_api \<Rightarrow> ('w, tradable_pair list) action" where
  "bybit_get_tradable_pairs parse env api =
     bybit_public env api ''spot/v1/symbols'' (bybit_read_tradable_pairs parse) []"

definition bybit_get_ohlcv ::
    "(string \<Rightarrow> json res) \<Rightarrow> 'w http_env \<Rightarrow> bybit_api \<Rightarrow> tradable_pair \<Rightarrow> ohlcv_interval \<Rightarrow> int \<Rightarrow>
     ('w, ohlcv_data list) action" where
  "bybit_get_ohlcv parse env api tradablePair interval count =
     reading (build_query [(''symbol'', pair_name tradablePair), (''interval'', interval_to_string interval),
       (''limit'', show_int count)]) (\<lambda>query.
     bybit_public env api ''/spot/quote/v1/kline'' (bybit_read_ohlcv parse) query)"

definition bybit_get_price ::
    "(string \<Rightarrow> json res) \<Rightarrow> 'w http_env \<Rightarrow> bybit_api \<Rightarrow> tradable_pair \<Rightarrow> ('w, double) action" where
  "bybit_get_price parse env api tradablePair =
     reading (build_query [(''symbol'', pair_name tradablePair)]) (\<lambda>query.
     bybit_public env api ''/spot/quote/v1/ticker/price'' (bybit_read_price parse) query)"

definition bybit_get_order_book ::
    "(string \<Rightarrow> json res) \<Rightarrow> 'w http_env \<Rightarrow> bybit_api \<Rightarrow> tradable_pair \<Rightarrow> int \<Rightarrow> ('w, order_book_state) action" where
  "bybit_get_order_book parse env api tradablePair depth =
     reading (build_query [(''symbol'', pair_name tradablePair), (''limit'', show_int depth)]) (\<lambda>query.
     bybit_public env api ''/spot/quote/v1/depth'' (bybit_read_order_book parse) query)"

definition bybit_get_fee :: "bybit_api \<Rightarrow> tradable_pair \<Rightarrow> double" where
  "bybit_get_fee api tradablePair = ya_fee api"

definition bybit_get_balances ::
    "(string \<Rightarrow> json res) \<Rightarrow> 'w http_env \<Rightarrow> bybit_api \<Rightarrow> ('w, (string \<times> double) list) action" where
  "bybit_get_balances parse env api = bybit_private env api GET ''spot/v1/account'' (bybit_read_balances parse) []"

definition bybit_get_open_orders ::
    "(string \<Rightarrow> json res) \<Rightarrow> 'w http_env \<Rightarrow> bybit_api \<Rightarrow> ('w, order_description list) action" where
  "bybit_get_open_orders parse env api =
     bybit_private env api GET ''/spot/v1/open-orders'' (bybit_read_open_orders parse) []"

definition bybit_get_closed_orders ::
    "(string \<Rightarrow> json res) \<Rightarrow> 'w http_env \<Rightarrow> bybit_api \<Rightarrow> ('w, order_description list) action" where
  "bybit_get_closed_orders parse env api =
     bybit_private env api GET ''/spot/v1/history-orders'' (bybit_read_closed_orders parse) []"

definition bybit_add_order ::
    "(string \<Rightarrow> json res) \<Rightarrow> 'w http_env \<Rightarrow> bybit_api \<Rightarrow> order_request \<Rightarrow> ('w, string) action" where
  "bybit_add_order parse env api description =
     act_bind (bybit_order_quantity description (bybit_get_price parse env api (rq_pair description))) (\<lambda>qty.
     bybit_private env api POST ''spot/v1/order'' (bybit_read_add_order parse)
       [(''symbol'', pair_name (rq_pair description)),
        (''qty'', show_double qty),
        (''side'', bybit_side_string (rq_action description)),
        (''type'', bybit_type_string (rq_orderType description)),
        (''price'', show_double (rq_get description ASSET_PRICE))])"

definition bybit_cancel_order ::
    "(string \<Rightarrow> json res) \<Rightarrow> 'w http_env \<Rightarrow> bybit_api \<Rightarrow> string \<Rightarrow> ('w, unit) action" where
  "bybit_cancel_order parse env api orderId =
     bybit_private env api HTTP_DELETE ''spot/v1/order'' (bybit_read_cancel_order parse) [(''orderId'', orderId)]"

section \<open>The stream\<close>

definition create_bybit_stream :: "'w \<Rightarrow> ('h, 'c, 'w) websocket_stream" where
  "create_bybit_stream client = create_websocket_stream ''wss://stream.bybit.com/spot/quote/ws/v1'' (CHR 0x00) client"

definition bybit_get_topic :: "websocket_subscription \<Rightarrow> string res" where
  "bybit_get_topic subscription = (case sb_channel subscription of
       TRADE \<Rightarrow> Inr ''trade''
     | OHLCV \<Rightarrow> res_map (\<lambda>i. ''kline_'' @ interval_to_string i) (get_ohlcv_interval subscription)
     | ORDER_BOOK \<Rightarrow> Inr ''diffDepth'')"

text \<open>The last comma is erased: without pairs there is none.\<close>

definition bybit_create_message :: "string \<Rightarrow> string \<Rightarrow> tradable_pair list \<Rightarrow> (string \<times> string) list \<Rightarrow> json res" where
  "bybit_create_message topic eventName tradablePairs params =
     (let tradablePairsList = concat (map (\<lambda>pair. pair_name pair @ '','') tradablePairs) in
      if tradablePairsList = [] then Inl (Undefined_behaviour ''std::prev of begin'')
      else Inr (json_object
        [(''symbol'', JString (butlast tradablePairsList)),
         (''topic'', JString topic),
         (''event'', JString eventName),
         (''params'', json_object ((''binary'', JBool False) # map (\<lambda>(key, value). (key, JString value)) params))]))"

definition bybit_trade :: "json \<Rightarrow> trade_update res" where
  "bybit_trade dataElement =
     res_bind (member get_stod dataElement ''p'') (\<lambda>price.
     res_bind (member get_stod dataElement ''q'') (\<lambda>volume.
     res_bind (member get_time dataElement ''t'') (\<lambda>time.
     Inr \<lparr>tu_timeStamp = time sdiv 1000, tu_price = price, tu_volume = volume\<rparr>)))"

definition bybit_data :: "json \<Rightarrow> json res" where
  "bybit_data json = res_bind (json_element json ''data'') first_value"

definition bybit_process_trade_message ::
    "('h, 'c, 'w) stream_calls \<Rightarrow> string \<Rightarrow> json \<Rightarrow> ('h, 'c, 'w, unit) ws_action" where
  "bybit_process_trade_message calls pairName json =
     reading (bybit_data json) (\<lambda>dataElement.
     reading (bybit_trade dataElement) (ws_update_trade (sc_trade calls) pairName))"

definition bybit_process_ohlcv_message ::
    "('h, 'c, 'w) stream_calls \<Rightarrow> string \<Rightarrow> json \<Rightarrow> ('h, 'c, 'w, unit) ws_action" where
  "bybit_process_ohlcv_message calls pairName json =
     reading (bybit_data json) (\<lambda>dataElement.
     reading (named_candle dataElement) (\<lambda>candle.
     reading (json_element json ''params'') (\<lambda>params.
     reading (member get_string params ''klineType'') (\<lambda>klineType.
     ws_update_ohlcv (sc_ohlcv calls) pairName (parse_ohlcv_interval klineType) candle))))"

text \<open>At each index the ask, then the bid, as long as the side has one.\<close>

definition book_steps :: "json \<Rightarrow> json \<Rightarrow> (order_book_side \<times> json \<times> int) list" where
  "book_steps asks bids = concat (map (\<lambda>i.
     (if i < json_size asks then [(ASK, asks, int i)] else []) @
     (if i < json_size bids then [(BID, bids, int i)] else []))
     [0..<max (json_size asks) (json_size bids)])"

definition bybit_process_order_book_message ::
    "('h, 'c, 'w) stream_calls \<Rightarrow> string \<Rightarrow> json \<Rightarrow> ('h, 'c, 'w, unit) ws_action" where
  "bybit_process_order_book_message calls pairName json =
     reading (bybit_data json) (\<lambda>dataElement.
     reading (member get_time dataElement ''t'') (\<lambda>timeStamp.
     reading (json_element dataElement ''a'') (\<lambda>asksElement.
     reading (json_element dataElement ''b'') (\<lambda>bidsElement.
     reading (member get_bool json ''f'') (\<lambda>first.
     if first
     then reading (read_cache timeStamp asksElement bidsElement) (\<lambda>orderBook.
            initialise_order_book (sc_book calls) pairName orderBook)
     else read_updates (\<lambda>(side, element, i). entry_at side element i)
            (ws_update_order_book (sc_book calls) pairName timeStamp) (book_steps asksElement bidsElement))))))"

text \<open>
  An error is logged, but the message is read on: a member that is not there is undefined
  behaviour of the constant subscript operator.
\<close>

definition bybit_error :: "json \<Rightarrow> unit res" where
  "bybit_error json =
     (if has_member json ''code''
      then res_bind (member get_string json ''code'') (\<lambda>errorCode.
        if errorCode \<noteq> ''0'' then res_map (\<lambda>_. ()) (member get_string json ''desc'') else Inr ())
      else Inr ())"

definition bybit_on_message ::
    "(string \<Rightarrow> json res) \<Rightarrow> ('h, 'c, 'w) stream_calls \<Rightarrow> string \<Rightarrow> ('h, 'c, 'w, unit) ws_action" where
  "bybit_on_message parse calls message =
     reading (parse message) (\<lambda>json.
     reading (bybit_error json) (\<lambda>_.
     reading (member get_string json ''symbol'') (\<lambda>symbol.
     reading (member get_string json ''topic'') (\<lambda>topic.
     if topic = ''trade'' then bybit_process_trade_message calls symbol json
     else if topic = ''kline'' then bybit_process_ohlcv_message calls symbol json
     else if topic = ''diffDepth'' then bybit_process_order_book_message calls symbol json
     else act_return ()))))"

definition bybit_send ::
    "(json \<Rightarrow> string) \<Rightarrow> (string \<Rightarrow> ('h, 'c, 'w, unit) ws_action) \<Rightarrow> string \<Rightarrow> websocket_subscription \<Rightarrow>
     ('h, 'c, 'w, unit) ws_action" where
  "bybit_send dump send eventName subscription =
     reading (bybit_get_topic subscription) (\<lambda>topic.
     reading (bybit_create_message topic eventName (sb_pairItem subscription) []) (\<lambda>json. send (dump json)))"

definition bybit_send_subscribe ::
    "(json \<Rightarrow> string) \<Rightarrow> (string \<Rightarrow> ('h, 'c, 'w, unit) ws_action) \<Rightarrow> websocket_subscription \<Rightarrow> ('h, 'c, 'w, unit) ws_action" where
  "bybit_send_subscribe dump send = bybit_send dump send ''sub''"

definition bybit_send_unsubscribe ::
    "(json \<Rightarrow> string) \<Rightarrow> (string \<Rightarrow> ('h, 'c, 'w, unit) ws_action) \<Rightarrow> websocket_subscription \<Rightarrow> ('h, 'c, 'w, unit) ws_action" where
  "bybit_send_unsubscribe dump send = bybit_send dump send ''cancel''"

section \<open>The changes of a book\<close>

definition bybit_book_json :: "string \<Rightarrow> time_t \<Rightarrow> json list \<Rightarrow> json list \<Rightarrow> json" where
  "bybit_book_json name t asks bids = JObject [(''symbol'', JString name), (''topic'', JString ''diffDepth''),
     (''f'', JBool False), (''data'', JArray [JObject [(''t'', JInt t), (''a'', JArray asks), (''b'', JArray bids)]])]"

fun alternate :: "'a list \<Rightarrow> 'a list \<Rightarrow> 'a list" where
  "alternate (a # as) (b # bs) = a # b # alternate as bs"
| "alternate as [] = as"
| "alternate [] bs = bs"

lemma alternate_steps:
  "concat (map (\<lambda>i. (if i < length as then [as ! i] else []) @ (if i < length bs then [bs ! i] else []))
    [0..<max (length as) (length bs)]) = alternate as bs"
proof (induction as bs rule: alternate.induct)
  case (1 a as b bs)
  have "[0..<Suc n] = 0 # map Suc [0..<n]" for n by (simp add: upt_conv_Cons map_Suc_upt del: upt_Suc)
  then have "map f [0..<Suc n] = f 0 # map (f \<circ> Suc) [0..<n]" for n and f :: "nat \<Rightarrow> 'a list" by simp
  with 1 show ?case by (simp add: o_def cong: if_cong del: upt_Suc)
next
  case (2 as)
  have "concat (map (\<lambda>i. if i < length as then [as ! i] else []) [0..<length as]) = map (\<lambda>i. as ! i) [0..<length as]"
    by (intro trans [OF arg_cong [of _ _ concat] concat_map_singleton]) simp
  then show ?case by (simp add: map_nth)
next
  case (3 b bs)
  have "concat (map (\<lambda>i. if i < length (b # bs) then [(b # bs) ! i] else []) [0..<length (b # bs)]) = map (\<lambda>i. (b # bs) ! i) [0..<length (b # bs)]"
    by (intro trans [OF arg_cong [of _ _ concat] concat_map_singleton]) simp
  then show ?case using map_nth [of "b # bs"] by simp
qed

lemma res_traverse_append:
  "res_traverse f (xs @ ys) = res_bind (res_traverse f xs) (\<lambda>as. res_map (append as) (res_traverse f ys))"
proof (induction xs)
  case (Cons x xs)
  then show ?case by (cases "f x"; cases "res_traverse f xs"; cases "res_traverse f ys") simp_all
qed (cases "res_traverse f ys"; simp add: id_def)

lemma res_traverse_concat:
  "(\<And>x. x \<in> set xs \<Longrightarrow> res_traverse f (g x) = Inr (h x)) \<Longrightarrow>
    res_traverse f (concat (map g xs)) = Inr (concat (map h xs))"
  by (induction xs) (simp_all add: res_traverse_append)

text \<open>The sides of a book do not see each other's changes.\<close>

lemma sides_commute:
  "oe_side a = ASK \<Longrightarrow> oe_side b = BID \<Longrightarrow>
    update_cache t a (update_cache t b c) = update_cache t b (update_cache t a c)"
  by (simp add: update_cache_def Let_def)

lemma bid_past_asks:
  "(\<And>a. a \<in> set as \<Longrightarrow> oe_side a = ASK) \<Longrightarrow> oe_side b = BID \<Longrightarrow>
    cache_run c (map (Pair t) (b # as @ bs)) = cache_run c (map (Pair t) (as @ b # bs))"
proof (induction as arbitrary: c)
  case (Cons a as)
  then have "update_cache t a (update_cache t b c) = update_cache t b (update_cache t a c)"
    by (intro sides_commute) simp_all
  with Cons show ?case by (simp add: cache_run_def)
qed simp

lemma alternate_run:
  "(\<And>a. a \<in> set as \<Longrightarrow> oe_side a = ASK) \<Longrightarrow> (\<And>b. b \<in> set bs \<Longrightarrow> oe_side b = BID) \<Longrightarrow>
    cache_run c (map (Pair t) (alternate as bs)) = cache_run c (map (Pair t) (as @ bs))"
proof (induction as bs arbitrary: c rule: alternate.induct)
  case (1 a as b bs)
  then have "cache_run c (map (Pair t) (alternate (a # as) (b # bs))) =
      cache_run (update_cache t a c) (map (Pair t) (b # as @ bs))"
    by (simp add: cache_run_def)
  with bid_past_asks [of as b "update_cache t a c" t bs] 1 show ?case by (simp add: cache_run_def)
qed simp_all

lemma steps_read:
  assumes "res_traverse (entry_of get_stod ASK) asks = Inr as" "res_traverse (entry_of get_stod BID) bids = Inr bs"
  shows "res_traverse (\<lambda>(side, element, i). entry_at side element i) (book_steps (JArray asks) (JArray bids)) =
    Inr (alternate as bs)"
proof -
  have a: "length as = length asks" "\<And>i. i < length asks \<Longrightarrow> entry_of get_stod ASK (asks ! i) = Inr (as ! i)"
    and b: "length bs = length bids" "\<And>i. i < length bids \<Longrightarrow> entry_of get_stod BID (bids ! i) = Inr (bs ! i)"
    using res_traverse_Inr [OF assms(1)] res_traverse_Inr [OF assms(2)] by (auto simp: list_all2_conv_all_nth)
  show ?thesis
    unfolding book_steps_def json_size.simps alternate_steps [symmetric] a(1) b(1)
    by (rule res_traverse_concat) (simp add: entry_at_def read_at_def a b)
qed

text \<open>
  C14: a message of changes to a known book is read one ask and one bid at a time, and every
  handler sees the changes in that order; the stored book is the same as if all the asks had
  been applied before all the bids.
\<close>

theorem bybit_book_changes_applied:
  assumes "parse message = Inr (bybit_book_json name t asks bids)" "int64 t"
    and "res_traverse (entry_of get_stod ASK) asks = Inr as" "res_traverse (entry_of get_stod BID) bids = Inr bs"
    and "ws_pairs s name = Some p" "ws_orderBooks s name = Some cache" "sc_book calls = log_call"
  shows "\<exists>u. bybit_on_message parse calls message s = (Inr (), u) \<and>
    ws_orderBooks u name = Some (cache_run cache (map (Pair t) (as @ bs))) \<and>
    ws_client u = ws_client s @ concat (map (\<lambda>e. map (\<lambda>h. (h, \<lparr>bm_pair = p, bm_entry = e\<rparr>))
      (ws_orderBookUpdateHandlers s)) (alternate as bs))"
proof -
  note run = read_updates_all [OF steps_read [OF assms(3,4)]]
  have "bybit_on_message parse calls message s = act_iter (ws_update_order_book log_call name t) (alternate as bs) s"
    using assms(1,2,7)
    by (simp add: bybit_on_message_def bybit_book_json_def bybit_error_def member_def bybit_process_order_book_message_def
        bybit_data_def json_simps o_def int64_narrow run)
  moreover have "cache_run cache (map (Pair t) (alternate as bs)) = cache_run cache (map (Pair t) (as @ bs))"
    using entry_of_side [OF assms(3)] entry_of_side [OF assms(4)] by (rule alternate_run)
  ultimately show ?thesis using logged_book_entries [OF assms(5,6)] by simp
qed

text \<open>Two asks and a bid: the bid is seen between the asks.\<close>

theorem bybit_book_changes_applied_witness:
  "let p = \<lparr>tp_asset = ''BTC'', tp_priceUnit = ''USDT''\<rparr>; level = \<lambda>p v. JArray [JString p, JString v];
       s = (create_bybit_stream [] :: (nat, nat, (nat \<times> order_book_update_message) list) websocket_stream)
         \<lparr>ws_pairs := [''BTCUSDT'' \<mapsto> p], ws_orderBookUpdateHandlers := [7],
          ws_orderBooks := [''BTCUSDT'' \<mapsto> \<lparr>bc_lastUpdate = 1, bc_asks = [ask_at 2 1], bc_bids = []\<rparr>]\<rparr>;
       bid = \<lparr>oe_price = Fin 1, oe_volume = Fin 4, oe_side = BID\<rparr>;
       calls = \<lparr>sc_trade = \<lambda>_ _. act_return (), sc_ohlcv = \<lambda>_ _. act_return (), sc_book = log_call\<rparr>;
       parse = (\<lambda>_. Inr (bybit_book_json ''BTCUSDT'' 9 [level ''2'' ''0'', level ''3'' ''5''] [level ''1'' ''4'']))
   in \<exists>u. bybit_on_message parse calls [] s = (Inr (), u) \<and>
     ws_orderBooks u ''BTCUSDT'' = Some \<lparr>bc_lastUpdate = 9, bc_asks = [ask_at 3 5], bc_bids = [bid]\<rparr> \<and>
     map (bm_entry \<circ> snd) (ws_client u) = [ask_at 2 0, bid, ask_at 3 5]"
proof -
  let ?p = "\<lparr>tp_asset = ''BTC'', tp_priceUnit = ''USDT''\<rparr>" and ?level = "\<lambda>p v. JArray [JString p, JString v]"
  let ?c = "\<lparr>bc_lastUpdate = 1, bc_asks = [ask_at 2 1], bc_bids = []\<rparr>"
  let ?s = "(create_bybit_stream [] :: (nat, nat, (nat \<times> order_book_update_message) list) websocket_stream)
    \<lparr>ws_pairs := [''BTCUSDT'' \<mapsto> ?p], ws_orderBookUpdateHandlers := [7], ws_orderBooks := [''BTCUSDT'' \<mapsto> ?c]\<rparr>"
  let ?bid = "\<lparr>oe_price = Fin 1, oe_volume = Fin 4, oe_side = BID\<rparr>"
  let ?a = "[?level ''2'' ''0'', ?level ''3'' ''5'']" and ?b = "[?level ''1'' ''4'']"
  let ?calls = "\<lparr>sc_trade = \<lambda>_ _. act_return (), sc_ohlcv = \<lambda>_ _. act_return (), sc_book = log_call\<rparr>"
  have a: "res_traverse (entry_of get_stod ASK) ?a = Inr [ask_at 2 0, ask_at 3 5]"
    and b: "res_traverse (entry_of get_stod BID) ?b = Inr [?bid]" by code_simp+
  have "cache_run ?c (map (Pair 9) ([ask_at 2 0, ask_at 3 5] @ [?bid])) =
    \<lparr>bc_lastUpdate = 9, bc_asks = [ask_at 3 5], bc_bids = [?bid]\<rparr>" by code_simp
  moreover have "ws_client ?s = []" by (simp add: create_bybit_stream_def create_websocket_stream_def)
  moreover obtain u where "bybit_on_message (\<lambda>_. Inr (bybit_book_json ''BTCUSDT'' 9 ?a ?b)) ?calls [] ?s = (Inr (), u)"
      "ws_orderBooks u ''BTCUSDT'' = Some (cache_run ?c (map (Pair 9) ([ask_at 2 0, ask_at 3 5] @ [?bid])))"
      "ws_client u = ws_client ?s @ concat (map (\<lambda>e. map (\<lambda>h. (h, \<lparr>bm_pair = ?p, bm_entry = e\<rparr>))
        (ws_orderBookUpdateHandlers ?s)) (alternate [ask_at 2 0, ask_at 3 5] [?bid]))"
    using bybit_book_changes_applied [of "\<lambda>_. Inr (bybit_book_json ''BTCUSDT'' 9 ?a ?b)" "[]" "''BTCUSDT''" 9 ?a ?b
        "[ask_at 2 0, ask_at 3 5]" "[?bid]" ?s ?p ?c ?calls, OF refl _ a b] by (auto simp: int64_def)
  ultimately show ?thesis unfolding Let_def by (intro exI [of _ u]) simp
qed

section \<open>Failures\<close>

interpretation bybit_answers: answer_reader "bybit_read_result parse reader" for parse reader
  by unfold_locales (auto simp: bybit_read_result_def dest: try_result_no_throw)

interpretation bybit_cancels: answer_reader "bybit_read_cancel_order parse" for parse
  by unfold_locales (auto simp: bybit_read_cancel_order_def dest: try_result_no_throw)

lemma bybit_request_undefined: "bybit_private_request api verb path signedQuery = Inl e \<Longrightarrow> is_undefined e"
  unfolding bybit_private_request_def
  by (auto split: if_splits) (metis build_url_undefined res_map.elims sum.distinct(1) sum.inject(1))+

lemma bybit_requests_catchable [catchable_rules]:
  "catchable (bybit_public env api path (bybit_read_result parse reader) query)"
  "catchable (bybit_private env api verb path (bybit_read_result parse reader) queryParams)"
  "catchable (bybit_private env api verb path (bybit_read_cancel_order parse) queryParams)"
  unfolding bybit_public_def bybit_private_def Let_def
  by (intro catchable_rules bybit_answers.request_catchable bybit_cancels.request_catchable catchable_reading;
      auto dest: bybit_request_undefined)+

end
