(* ===== verification/Digifinex.thy ===== *)
theory Digifinex
  imports Requests
begin

text \<open>
  \<^verbatim>\<open>exchanges/digifinex/\<close>: the readers of the answers (\<^verbatim>\<open>digifinex_results.cpp\<close>)
  and the market stream (\<^verbatim>\<open>digifinex_websocket.cpp\<close>), which has only trades and builds
  its candles from them. The parser is a parameter.
\<close>

section \<open>Answers\<close>

definition digifinex_error_messages :: "(int \<times> string) list" where
  "digifinex_error_messages = [
     (10001, ''Wrong request method, please check it'' @ [CHR 0x27] @ ''s a GET or POST request''),
     (10002, ''Invalid ApiKey''),
     (10003, ''Sign doesn'' @ [CHR 0x27] @ ''t match''),
     (10004, ''Illegal request parameters''),
     (10005, ''Request frequency exceeds the limit''),
     (10006, ''Unauthorized to execute this request''),
     (10007, ''IP address Unauthorized''),
     (10008, ''Timestamp for this request is invalid''),
     (10009, ''Endpoint does not exist or missing ACCESS-KEY, please check endpoint URL''),
     (10011, ''ApiKey expired. Please go to client side to re-create an ApiKey''),
     (20002, ''Trade of this trading pair is suspended''),
     (20007, ''Price precision error''),
     (20008, ''Amount precision error''),
     (20009, ''Amount is less than the minimum requirement''),
     (20010, ''Cash Amount is less than the minimum requirement''),
     (20011, ''Insufficient balance''),
     (20012, ''Invalid trade type (valid value: buy/sell)''),
     (20013, ''No order info found''),
     (20014, ''Invalid date (Valid format: 2018-07-25)''),
     (20015, ''Date exceeds the limit''),
     (20018, ''Your have been banned for API trading by the system''),
     (20019, ''Wrong trading pair symbol, correct format:'' @ [CHR 0x22] @ ''base_quote'' @ [CHR 0x22] @ '', e.g. '' @ [CHR 0x22] @ ''btc_usdt'' @ [CHR 0x22]),
     (20020, ''You have violated the API trading rules and temporarily banned for trading. At present, we have certain restrictions on the user'' @ [CHR 0x27] @ ''s transaction rate and withdrawal rate.''),
     (20021, ''Invalid currency''),
     (20022, ''The ending timestamp must be larger than the starting timestamp''),
     (20023, ''Invalid transfer type''),
     (20024, ''Invalid amount''),
     (20025, ''This currency is not transferable at the moment''),
     (20026, ''Transfer amount exceed your balance''),
     (20027, ''Abnormal account status''),
     (20028, ''Blacklist for transfer''),
     (20029, ''Transfer amount exceed your daily limit''),
     (20030, ''You have no position on this trading pair''),
     (20032, ''Withdrawal limited''),
     (20033, ''Wrong Withdrawal ID''),
     (20034, ''Withdrawal service of this crypto has been closed''),
     (20035, ''Withdrawal limit''),
     (20036, ''Withdrawal cancellation failed''),
     (20037, ''The withdrawal address, Tag or chain type is not included in the withdrawal management list''),
     (20038, ''The withdrawal address is not on the white list''),
     (20039, ''Can'' @ [CHR 0x27] @ ''t be canceled in current status''),
     (20040, ''Withdraw too frequently; limitation: 3 times a minute, 100 times a day''),
     (20041, ''Beyond the daily withdrawal limit''),
     (20042, ''Current trading pair does not support API trading''),
     (50000, ''Exception error''),
     (- 99999, ''This is an error'')]"

definition digifinex_get_error_message :: "int \<Rightarrow> string" where
  "digifinex_get_error_message code = (case map_of digifinex_error_messages code of
       None \<Rightarrow> ''Unknown error occured. Error code: '' @ show_int code
     | Some message \<Rightarrow> message)"

definition digifinex_read_result ::
    "(string \<Rightarrow> json res) \<Rightarrow> (json \<Rightarrow> 'v res) \<Rightarrow> string \<Rightarrow> 'v result res" where
  "digifinex_read_result parse reader text = try_result (res_bind (parse text) (\<lambda>json.
     res_bind (member get_int json ''code'') (\<lambda>errorCode.
     if errorCode \<noteq> 0 then Inr (Fail (digifinex_get_error_message errorCode))
     else success (reader json))))"

definition digifinex_order :: "json \<Rightarrow> order_description res" where
  "digifinex_order orderElement =
     res_bind (member get_string orderElement ''type'') (\<lambda>orderType.
     res_bind (member get_time orderElement ''created_date'') (\<lambda>time.
     res_bind (member get_string orderElement ''order_id'') (\<lambda>orderId.
     res_bind (member get_string orderElement ''symbol'') (\<lambda>symbol.
     res_bind (member get_double orderElement ''price'') (\<lambda>price.
     res_bind (member get_double orderElement ''amount'') (\<lambda>amount.
     Inr \<lparr>od_timeStamp = time, od_orderId = orderId,
       od_orderType = (if contains_str orderType ''market'' then MARKET else LIMIT), od_pairName = symbol,
       od_action = (if contains_str orderType ''buy'' then BUY else SELL), od_price = price, od_volume = amount\<rparr>))))))"

definition digifinex_read_system_status :: "(string \<Rightarrow> json res) \<Rightarrow> string \<Rightarrow> exchange_status result res" where
  "digifinex_read_system_status parse = digifinex_read_result parse (\<lambda>_. Inr ONLINE)"

definition digifinex_pair :: "json \<Rightarrow> tradable_pair res" where
  "digifinex_pair pairElement =
     res_bind (member get_string pairElement ''base_asset'') (\<lambda>asset.
     res_bind (member get_string pairElement ''quote_asset'') (\<lambda>priceUnit.
     Inr \<lparr>tp_asset = asset, tp_priceUnit = priceUnit\<rparr>))"

definition digifinex_read_tradable_pairs :: "(string \<Rightarrow> json res) \<Rightarrow> string \<Rightarrow> tradable_pair list result res" where
  "digifinex_read_tradable_pairs parse = digifinex_read_result parse (\<lambda>json.
     res_bind (json_element json ''symbol_list'') (\<lambda>resultElement.
     res_map to_unordered_set (read_vector digifinex_pair resultElement)))"

definition digifinex_candles :: "int \<Rightarrow> json \<Rightarrow> ohlcv_data list res" where
  "digifinex_candles count json =
     res_bind (json_element json ''data'') (\<lambda>dataElement.
     res_map rev (read_limited (\<lambda>i. res_bind (json_index dataElement i) (candle_of get_double (\<lambda>t. t) [5, 3, 4, 2, 1]))
       (min (int (json_size dataElement)) count)))"

definition digifinex_read_ohlcv_data ::
    "(string \<Rightarrow> json res) \<Rightarrow> string \<Rightarrow> int \<Rightarrow> ohlcv_data list result res" where
  "digifinex_read_ohlcv_data parse text count = digifinex_read_result parse (digifinex_candles count) text"

definition digifinex_read_price :: "(string \<Rightarrow> json res) \<Rightarrow> string \<Rightarrow> double result res" where
  "digifinex_read_price parse = digifinex_read_result parse (\<lambda>json.
     res_bind (json_element json ''ticker'') (\<lambda>ticker.
     res_bind (first_value ticker) (\<lambda>tickerElement. member get_double tickerElement ''last'')))"

definition digifinex_order_book :: "json \<Rightarrow> order_book_state res" where
  "digifinex_order_book json =
     res_bind (json_element json ''bids'') (\<lambda>bidsElement.
     res_bind (json_element json ''asks'') (\<lambda>asksElement.
     res_bind (book_loop (entry_of get_double ASK) (entry_of get_double BID)
         (json_values asksElement) (json_values bidsElement)) (\<lambda>(asks, bids).
     res_bind (member get_time json ''date'') (\<lambda>time.
     Inr \<lparr>ob_timeStamp = time, ob_asks = asks, ob_bids = bids\<rparr>))))"

definition digifinex_read_order_book :: "(string \<Rightarrow> json res) \<Rightarrow> string \<Rightarrow> order_book_state result res" where
  "digifinex_read_order_book parse = digifinex_read_result parse digifinex_order_book"

definition digifinex_read_balances :: "(string \<Rightarrow> json res) \<Rightarrow> string \<Rightarrow> (string \<times> double) list result res" where
  "digifinex_read_balances parse = digifinex_read_result parse (\<lambda>json.
     res_bind (json_element json ''list'') (read_map (\<lambda>(_, balanceElement).
     res_bind (member get_string balanceElement ''currency'') (\<lambda>asset.
     res_map (Pair asset) (member get_double balanceElement ''free'')))))"

definition digifinex_read_open_orders :: "(string \<Rightarrow> json res) \<Rightarrow> string \<Rightarrow> order_description list result res" where
  "digifinex_read_open_orders parse = digifinex_read_result parse (\<lambda>json.
     res_bind (json_element json ''data'') (read_vector digifinex_order))"

definition digifinex_closed_order :: "json \<Rightarrow> order_description option res" where
  "digifinex_closed_order orderElement =
     res_bind (member get_int orderElement ''status'') (\<lambda>status.
     if status \<noteq> 2 then Inr None else res_map Some (digifinex_order orderElement))"

definition digifinex_read_closed_orders :: "(string \<Rightarrow> json res) \<Rightarrow> string \<Rightarrow> order_description list result res" where
  "digifinex_read_closed_orders parse = digifinex_read_result parse (\<lambda>json.
     res_bind (json_element json ''data'') (\<lambda>dataElement.
     res_map (List.map_filter id) (read_vector digifinex_closed_order dataElement)))"

definition digifinex_read_add_order :: "(string \<Rightarrow> json res) \<Rightarrow> string \<Rightarrow> string result res" where
  "digifinex_read_add_order parse = digifinex_read_result parse (\<lambda>json. member get_string json ''order_id'')"

definition digifinex_read_cancel_order :: "(string \<Rightarrow> json res) \<Rightarrow> string \<Rightarrow> unit result res" where
  "digifinex_read_cancel_order parse = digifinex_read_result parse (\<lambda>_. Inr ())"

section \<open>Requests\<close>

record digifinex_api =
  da_apiKey :: string
  da_apiSecret :: string

definition digifinex_base_url :: string where
  "digifinex_base_url = ''https://openapi.digifinex.com/v3''"

definition digifinex_ohlcv_period :: "ohlcv_interval \<Rightarrow> string res" where
  "digifinex_ohlcv_period interval =
     (if interval = D1 then Inr ''1D''
      else if interval = W1 then Inr ''1W''
      else res_map (\<lambda>seconds. show_int (seconds sdiv 60)) (to_seconds interval))"

definition digifinex_order_type :: "order_type \<Rightarrow> trade_action \<Rightarrow> string res" where
  "digifinex_order_type orderType action =
     (if orderType = LIMIT then Inr (if action = BUY then ''buy'' else ''sell'')
      else if orderType = MARKET then Inr (if action = BUY then ''buy_market'' else ''sell_market'')
      else Inl (Mb_exception ''Order type not supported''))"

text \<open>A market order of either side is sized by what it costs.\<close>

definition digifinex_amount :: "order_request \<Rightarrow> ('w, double) action \<Rightarrow> ('w, double) action" where
  "digifinex_amount orderRequest price =
     (let volume = rq_get orderRequest VOLUME in
      if rq_orderType orderRequest = MARKET then act_bind price (\<lambda>p. act_return (calculate_cost p volume))
      else act_return volume)"

definition digifinex_sign :: "'w http_env \<Rightarrow> digifinex_api \<Rightarrow> string \<Rightarrow> string" where
  "digifinex_sign env api query = hex_encode (he_hmac_sha256 env query (da_apiSecret api))"

definition digifinex_public ::
    "'w http_env \<Rightarrow> string \<Rightarrow> (string \<Rightarrow> 'v result res) \<Rightarrow> string \<Rightarrow> ('w, 'v) action" where
  "digifinex_public env path reader query =
     reading (build_url digifinex_base_url path query) (\<lambda>url. request_value env (new_request GET url) reader)"

definition digifinex_private ::
    "'w http_env \<Rightarrow> digifinex_api \<Rightarrow> http_verb \<Rightarrow> string \<Rightarrow> (string \<Rightarrow> 'v result res) \<Rightarrow> string \<Rightarrow> ('w, 'v) action" where
  "digifinex_private env api verb path reader query =
     reading (build_url digifinex_base_url path query) (\<lambda>url.
     act_bind (epoch_seconds env) (\<lambda>timestamp.
     request_value env
       (add_header ''ACCESS-SIGN'' (digifinex_sign env api query)
       (add_header ''ACCESS-TIMESTAMP'' timestamp
       (add_header ''ACCESS-KEY'' (da_apiKey api) (new_request verb url)))) reader))"

definition digifinex_get_status :: "(string \<Rightarrow> json res) \<Rightarrow> 'w http_env \<Rightarrow> ('w, exchange_status) action" where
  "digifinex_get_status parse env = digifinex_public env ''/ping'' (digifinex_read_system_status parse) []"

definition digifinex_get_tradable_pairs :: "(string \<Rightarrow> json res) \<Rightarrow> 'w http_env \<Rightarrow> ('w, tradable_pair list) action" where
  "digifinex_get_tradable_pairs parse env =
     digifinex_public env ''/spot/symbols'' (digifinex_read_tradable_pairs parse) []"

definition digifinex_get_ohlcv ::
    "(string \<Rightarrow> json res) \<Rightarrow> 'w http_env \<Rightarrow> tradable_pair \<Rightarrow> ohlcv_interval \<Rightarrow> int \<Rightarrow> ('w, ohlcv_data list) action" where
  "digifinex_get_ohlcv parse env tradablePair interval count =
     reading (digifinex_ohlcv_period interval) (\<lambda>period.
     reading (build_query [(''symbol'', pair_to_string tradablePair (CHR ''_'')), (''period'', period)]) (\<lambda>query.
     digifinex_public env ''/kline'' (\<lambda>answer. digifinex_read_ohlcv_data parse answer count) query))"

definition digifinex_get_price ::
    "(string \<Rightarrow> json res) \<Rightarrow> 'w http_env \<Rightarrow> tradable_pair \<Rightarrow> ('w, double) action" where
  "digifinex_get_price parse env tradablePair =
     reading (build_query [(''symbol'', pair_to_string tradablePair (CHR ''_''))]) (\<lambda>query.
     digifinex_public env ''/ticker'' (digifinex_read_price parse) query)"

definition digifinex_get_order_book ::
    "(string \<Rightarrow> json res) \<Rightarrow> 'w http_env \<Rightarrow> tradable_pair \<Rightarrow> int \<Rightarrow> ('w, order_book_state) action" where
  "digifinex_get_order_book parse env tradablePair depth =
     reading (build_query [(''symbol'', pair_to_string tradablePair (CHR ''_'')), (''limit'', show_int depth)]) (\<lambda>query.
     digifinex_public env ''order_book'' (digifinex_read_order_book parse) query)"

definition digifinex_get_fee :: "tradable_pair \<Rightarrow> double" where
  "digifinex_get_fee tradablePair = lit (2 / 10)"

definition digifinex_get_balances ::
    "(string \<Rightarrow> json res) \<Rightarrow> 'w http_env \<Rightarrow> digifinex_api \<Rightarrow> ('w, (string \<times> double) list) action" where
  "digifinex_get_balances parse env api =
     digifinex_private env api GET ''spot/assets'' (digifinex_read_balances parse) []"

definition digifinex_get_open_orders ::
    "(string \<Rightarrow> json res) \<Rightarrow> 'w http_env \<Rightarrow> digifinex_api \<Rightarrow> ('w, order_description list) action" where
  "digifinex_get_open_orders parse env api =
     digifinex_private env api GET ''spot/order/current'' (digifinex_read_open_orders parse) []"

definition digifinex_get_closed_orders ::
    "(string \<Rightarrow> json res) \<Rightarrow> 'w http_env \<Rightarrow> digifinex_api \<Rightarrow> ('w, order_description list) action" where
  "digifinex_get_closed_orders parse env api =
     digifinex_private env api GET ''spot/order/history'' (digifinex_read_closed_orders parse) []"

definition digifinex_add_order ::
    "(string \<Rightarrow> json res) \<Rightarrow> 'w http_env \<Rightarrow> digifinex_api \<Rightarrow> order_request \<Rightarrow> ('w, string) action" where
  "digifinex_add_order parse env api description =
     reading (digifinex_order_type (rq_orderType description) (rq_action description)) (\<lambda>ty.
     act_bind (digifinex_amount description (digifinex_get_price parse env (rq_pair description))) (\<lambda>amount.
     reading (build_query [(''market'', ''spot''),
        (''symbol'', pair_to_string (rq_pair description) (CHR ''_'')),
        (''type'', ty),
        (''amount'', show_double amount),
        (''price'', show_double (rq_get description ASSET_PRICE))]) (\<lambda>query.
     digifinex_private env api POST ''spot/order/new'' (digifinex_read_add_order parse) query)))"

definition digifinex_cancel_order ::
    "(string \<Rightarrow> json res) \<Rightarrow> 'w http_env \<Rightarrow> digifinex_api \<Rightarrow> string \<Rightarrow> ('w, unit) action" where
  "digifinex_cancel_order parse env api orderId =
     reading (build_query [(''market'', ''spot''), (''order_id'', orderId)]) (\<lambda>query.
     digifinex_private env api POST ''spot/order/cancel'' (digifinex_read_cancel_order parse) query)"

section \<open>The stream\<close>

type_synonym ('h, 'c, 'w) digifinex_stream = "('h, 'c, 'w) websocket_stream ohlcv_subscription_service"

definition create_digifinex_stream :: "'w \<Rightarrow> ('h, 'c, 'w) digifinex_stream" where
  "create_digifinex_stream client = \<lparr>os_subscriptions = [], os_pairSeparator = CHR ''_'',
     os_client = create_websocket_stream ''wss://openapi.digifinex.com/ws/v1/'' (CHR ''_'') client\<rparr>"

definition digifinex_get_channel :: "websocket_channel \<Rightarrow> string res" where
  "digifinex_get_channel channel =
     (if channel = TRADE then Inr ''trades''
      else Inl (Mb_exception ''Websocket channel not supported on Digfinex''))"

definition digifinex_create_message :: "string \<Rightarrow> string \<Rightarrow> tradable_pair list \<Rightarrow> json" where
  "digifinex_create_message action channel pairs = json_object
     [(''method'', JString (channel @ ''.'' @ action)),
      (''params'', JArray (map (\<lambda>pair. JString (pair_to_string pair (CHR ''_''))) pairs))]"

text \<open>Only the last trade of a message is delivered.\<close>

definition digifinex_trade :: "json \<Rightarrow> (string \<times> trade_update) res" where
  "digifinex_trade json =
     res_bind (json_element json ''params'') (\<lambda>paramsElement.
     res_bind (json_index paramsElement 1) (\<lambda>tradesElement.
     res_bind (item get_string paramsElement 2) (\<lambda>pairName.
     res_bind (json_index tradesElement (int (json_size tradesElement) - 1)) (\<lambda>lastTrade.
     res_bind (member get_stod lastTrade ''price'') (\<lambda>price.
     res_bind (member get_stod lastTrade ''amount'') (\<lambda>volume.
     res_bind (member get_time lastTrade ''time'') (\<lambda>time.
     Inr (pairName, \<lparr>tu_timeStamp = time, tu_price = price, tu_volume = volume\<rparr>))))))))"

definition digifinex_process_trade_message ::
    "('h, 'c, 'w) stream_calls \<Rightarrow> json \<Rightarrow> (('h, 'c, 'w) digifinex_stream, unit) action" where
  "digifinex_process_trade_message calls json =
     reading (digifinex_trade json) (\<lambda>(pairName, trade). trade_and_candles calls pairName trade)"

definition digifinex_on_message ::
    "(string \<Rightarrow> json res) \<Rightarrow> ('h, 'c, 'w) stream_calls \<Rightarrow> string \<Rightarrow> (('h, 'c, 'w) digifinex_stream, unit) action" where
  "digifinex_on_message parse calls message =
     reading (parse message) (\<lambda>json.
     reading (member get_string json ''method'') (\<lambda>method.
     if method = ''trades.update'' then digifinex_process_trade_message calls json else act_return ()))"

definition digifinex_send_channel ::
    "(json \<Rightarrow> string) \<Rightarrow> (string \<Rightarrow> ('h, 'c, 'w, unit) ws_action) \<Rightarrow> string \<Rightarrow> websocket_subscription \<Rightarrow>
     (('h, 'c, 'w) digifinex_stream, unit) action" where
  "digifinex_send_channel dump send action subscription =
     reading (digifinex_get_channel (sb_channel subscription)) (\<lambda>channelName.
     on_ws (send (dump (digifinex_create_message action channelName (sb_pairItem subscription)))))"

definition digifinex_send_subscribe ::
    "(json \<Rightarrow> string) \<Rightarrow> (string \<Rightarrow> ('h, 'c, 'w, unit) ws_action) \<Rightarrow> ('h, 'c, 'w) stream_calls \<Rightarrow>
     (tradable_pair \<Rightarrow> ohlcv_interval \<Rightarrow> int \<Rightarrow> ohlcv_data list res) \<Rightarrow> websocket_subscription \<Rightarrow>
     (('h, 'c, 'w) digifinex_stream, unit) action" where
  "digifinex_send_subscribe dump send calls market_get_ohlcv subscription =
     (if sb_channel subscription = OHLCV
      then act_seq (digifinex_send_channel dump send ''subscribe'' (create_trade_sub (sb_pairItem subscription)))
        (add_subscription market_get_ohlcv (ws_update_ohlcv (sc_ohlcv calls)) subscription)
      else digifinex_send_channel dump send ''subscribe'' subscription)"

definition digifinex_send_unsubscribe ::
    "(json \<Rightarrow> string) \<Rightarrow> (string \<Rightarrow> ('h, 'c, 'w, unit) ws_action) \<Rightarrow> websocket_subscription \<Rightarrow>
     (('h, 'c, 'w) digifinex_stream, unit) action" where
  "digifinex_send_unsubscribe dump send subscription =
     (if sb_channel subscription = OHLCV then remove_subscription subscription
      else digifinex_send_channel dump send ''unsubscribe'' subscription)"

section \<open>The trades of a message\<close>

definition digifinex_trades_json :: "string \<Rightarrow> json list \<Rightarrow> json" where
  "digifinex_trades_json name trades = JObject [(''method'', JString ''trades.update''),
     (''params'', JArray [JBool False, JArray trades, JString name])]"

text \<open>
  Of the trades of a message only the last one is delivered and put into the candles: the
  message leaves the stream as if the others had not been in it, so their volumes and prices are
  missing from the candles. A message without trades reads past the front of the list.
\<close>

lemma digifinex_last_trade_only:
  assumes "parse message = Inr (digifinex_trades_json name (trades @ [trade]))"
    and "parse last_only = Inr (digifinex_trades_json name [trade])"
    and "parse none = Inr (digifinex_trades_json name [])"
  shows "digifinex_on_message parse calls message s = digifinex_on_message parse calls last_only s \<and>
    (\<exists>m. digifinex_on_message parse calls none s = (Inl (Undefined_behaviour m), s))"
  using assms
  by (simp add: digifinex_on_message_def digifinex_trades_json_def digifinex_process_trade_message_def
      digifinex_trade_def json_simps read_at_def nth_append)

lemma digifinex_last_trade_only_example:
  "let trade = \<lambda>price time. JObject [(''price'', JString price), (''amount'', JString ''1''), (''time'', JInt time)];
       parse = (\<lambda>m. Inr (digifinex_trades_json ''BTC_USDT''
         (if m = ''none'' then [] else if m = ''last'' then [trade ''3'' 8] else [trade ''2'' 7, trade ''3'' 8])));
       calls = \<lparr>sc_trade = \<lambda>_ _. act_return (), sc_ohlcv = \<lambda>_ _. act_return (), sc_book = \<lambda>_ _. act_return ()\<rparr>;
       s = create_digifinex_stream [] :: (nat, nat, nat list) digifinex_stream
   in digifinex_on_message parse calls ''both'' s = digifinex_on_message parse calls ''last'' s \<and>
     ws_trades (os_client (snd (digifinex_on_message parse calls ''last'' s))) ''BTC_USDT'' =
       Some \<lparr>tu_timeStamp = 8, tu_price = Fin 3, tu_volume = Fin 1\<rparr> \<and>
     (\<exists>m. digifinex_on_message parse calls ''none'' s = (Inl (Undefined_behaviour m), s))"
proof -
  let ?trade = "\<lambda>price time. JObject [(''price'', JString price), (''amount'', JString ''1''), (''time'', JInt time)]"
  let ?parse = "\<lambda>m. Inr (digifinex_trades_json ''BTC_USDT''
    (if m = ''none'' then [] else if m = ''last'' then [?trade ''3'' 8] else [?trade ''2'' 7, ?trade ''3'' 8]))"
  let ?calls = "\<lparr>sc_trade = \<lambda>_ _. act_return (), sc_ohlcv = \<lambda>_ _. act_return (), sc_book = \<lambda>_ _. act_return ()\<rparr>"
  let ?s = "create_digifinex_stream [] :: (nat, nat, nat list) digifinex_stream"
  have "ws_trades (os_client (snd (digifinex_on_message ?parse ?calls ''last'' ?s))) ''BTC_USDT'' =
      Some \<lparr>tu_timeStamp = 8, tu_price = Fin 3, tu_volume = Fin 1\<rparr>" by code_simp
  then show ?thesis
    unfolding Let_def
    using digifinex_last_trade_only [of ?parse "''both''" "''BTC_USDT''" "[?trade ''2'' 7]" "?trade ''3'' 8" "''last''" "''none''" ?calls ?s]
    by simp
qed

section \<open>Failures\<close>

interpretation digifinex_answers: answer_reader "digifinex_read_result parse reader" for parse reader
  by unfold_locales (auto simp: digifinex_read_result_def dest: try_result_no_throw)

lemma digifinex_requests_catchable [catchable_rules]:
  "catchable (digifinex_public env path (digifinex_read_result parse reader) query)"
  "catchable (digifinex_private env api verb path (digifinex_read_result parse reader) query)"
  unfolding digifinex_public_def digifinex_private_def Let_def
  by (intro catchable_rules digifinex_answers.request_catchable)+

end
