(* ===== verification/Exchanges.thy ===== *)
theory Exchanges
  imports Kraken Coinbase Binance Bybit Digifinex
begin

text \<open>
  The interface of \<^verbatim>\<open>exchanges/exchange.h\<close> a strategy sees, the five exchanges behind it
  and \<^verbatim>\<open>exchanges/multi_component_exchange.h\<close>, which takes the market from one exchange
  and the account from another. The locale \<open>exchange_reads\<close> is what a strategy that places
  no orders may rely on: a call fails with an exception the runners catch. Its extensions add the
  closed orders and the prices of many pairs, which not every exchange has. The lemmas show what
  each exchange keeps, what a live run makes of it, and which calls do not keep it.
\<close>

section \<open>The interface\<close>

text \<open>The virtual functions of \<^verbatim>\<open>market_api\<close> and \<^verbatim>\<open>trade_api\<close>.\<close>

record 's exchange_ops =
  eo_status :: "('s, exchange_status) action"
  eo_tradable_pairs :: "('s, tradable_pair list) action"
  eo_ohlcv :: "tradable_pair \<Rightarrow> ohlcv_interval \<Rightarrow> int \<Rightarrow> ('s, ohlcv_data list) action"
  eo_price :: "tradable_pair \<Rightarrow> ('s, double) action"
  eo_prices :: "tradable_pair list \<Rightarrow> ('s, (tradable_pair \<times> double) list) action"
  eo_order_book :: "tradable_pair \<Rightarrow> int \<Rightarrow> ('s, order_book_state) action"
  eo_order_books :: "tradable_pair list \<Rightarrow> int \<Rightarrow> ('s, (tradable_pair \<times> order_book_state) list) action"
  eo_balances :: "('s, (string \<times> double) list) action"
  eo_fee :: "tradable_pair \<Rightarrow> ('s, double) action"
  eo_open_orders :: "('s, order_description list) action"
  eo_closed_orders :: "('s, order_description list) action"
  eo_add_order :: "order_request \<Rightarrow> ('s, string) action"
  eo_add_order_confirm :: "order_request \<Rightarrow> ('s, order_confirmation) action"
  eo_cancel_order :: "string \<Rightarrow> ('s, unit) action"

abbreviation unconfirmed :: "order_request \<Rightarrow> ('s, order_confirmation) action" where
  "unconfirmed \<equiv> \<lambda>description. act_res (\<lambda>_. trade_api_add_order_confirm description)"

text \<open>What an exchange does not override is taken from the interface.\<close>

definition kraken_exchange ::
    "(string \<Rightarrow> json res) \<Rightarrow> 'w http_env \<Rightarrow> kraken_api \<Rightarrow> 'w exchange_ops" where
  "kraken_exchange parse env api = \<lparr>
     eo_status = kraken_get_status parse env,
     eo_tradable_pairs = kraken_get_tradable_pairs parse env,
     eo_ohlcv = kraken_get_ohlcv parse env,
     eo_price = kraken_get_price parse env,
     eo_prices = kraken_get_prices parse env,
     eo_order_book = kraken_get_order_book parse env,
     eo_order_books = get_order_books (kraken_get_order_book parse env),
     eo_balances = kraken_get_balances parse env api,
     eo_fee = kraken_get_fee parse env api,
     eo_open_orders = kraken_get_open_orders parse env api,
     eo_closed_orders = kraken_get_closed_orders parse env api,
     eo_add_order = kraken_add_order parse env api,
     eo_add_order_confirm = unconfirmed,
     eo_cancel_order = kraken_cancel_order parse env api\<rparr>"

definition coinbase_exchange ::
    "(string \<Rightarrow> string \<Rightarrow> time_t) \<Rightarrow> (json \<Rightarrow> string) \<Rightarrow> (string \<Rightarrow> json res) \<Rightarrow> 'w http_env \<Rightarrow> coinbase_api \<Rightarrow>
     'w exchange_ops" where
  "coinbase_exchange to_time_t dump parse env api = \<lparr>
     eo_status = act_res (\<lambda>_. coinbase_get_status),
     eo_tradable_pairs = coinbase_get_tradable_pairs parse env api,
     eo_ohlcv = coinbase_get_ohlcv parse env api,
     eo_price = coinbase_get_price parse env api,
     eo_prices = get_prices (coinbase_get_price parse env api),
     eo_order_book = coinbase_get_order_book parse env api,
     eo_order_books = get_order_books (coinbase_get_order_book parse env api),
     eo_balances = coinbase_get_balances parse env api,
     eo_fee = coinbase_get_fee parse env api,
     eo_open_orders = coinbase_get_open_orders to_time_t parse env api,
     eo_closed_orders = coinbase_get_closed_orders to_time_t parse env api,
     eo_add_order = coinbase_add_order dump parse env api,
     eo_add_order_confirm = unconfirmed,
     eo_cancel_order = coinbase_cancel_order parse env api\<rparr>"

definition binance_exchange ::
    "(double \<Rightarrow> double) \<Rightarrow> (string \<Rightarrow> json res) \<Rightarrow> 'w http_env \<Rightarrow> 'w binance_api exchange_ops" where
  "binance_exchange log10 parse env = \<lparr>
     eo_status = binance_get_status parse env,
     eo_tradable_pairs = binance_get_tradable_pairs log10 parse env,
     eo_ohlcv = binance_get_ohlcv parse env,
     eo_price = binance_get_price parse env,
     eo_prices = binance_get_prices parse env,
     eo_order_book = binance_get_order_book parse env,
     eo_order_books = get_order_books (binance_get_order_book parse env),
     eo_balances = binance_get_balances parse env,
     eo_fee = binance_get_fee parse env,
     eo_open_orders = binance_get_open_orders parse env,
     eo_closed_orders = act_res (\<lambda>_. binance_get_closed_orders),
     eo_add_order = binance_add_order parse env,
     eo_add_order_confirm = binance_add_order_confirm parse env,
     eo_cancel_order = binance_cancel_order parse env\<rparr>"

definition bybit_exchange ::
    "(string \<Rightarrow> json res) \<Rightarrow> 'w http_env \<Rightarrow> bybit_api \<Rightarrow> 'w exchange_ops" where
  "bybit_exchange parse env api = \<lparr>
     eo_status = bybit_get_status parse env api,
     eo_tradable_pairs = bybit_get_tradable_pairs parse env api,
     eo_ohlcv = bybit_get_ohlcv parse env api,
     eo_price = bybit_get_price parse env api,
     eo_prices = get_prices (bybit_get_price parse env api),
     eo_order_book = bybit_get_order_book parse env api,
     eo_order_books = get_order_books (bybit_get_order_book parse env api),
     eo_balances = bybit_get_balances parse env api,
     eo_fee = \<lambda>pair. act_return (bybit_get_fee api pair),
     eo_open_orders = bybit_get_open_orders parse env api,
     eo_closed_orders = bybit_get_closed_orders parse env api,
     eo_add_order = bybit_add_order parse env api,
     eo_add_order_confirm = unconfirmed,
     eo_cancel_order = bybit_cancel_order parse env api\<rparr>"

definition digifinex_exchange ::
    "(string \<Rightarrow> json res) \<Rightarrow> 'w http_env \<Rightarrow> digifinex_api \<Rightarrow> 'w exchange_ops" where
  "digifinex_exchange parse env api = \<lparr>
     eo_status = digifinex_get_status parse env,
     eo_tradable_pairs = digifinex_get_tradable_pairs parse env,
     eo_ohlcv = digifinex_get_ohlcv parse env,
     eo_price = digifinex_get_price parse env,
     eo_prices = get_prices (digifinex_get_price parse env),
     eo_order_book = digifinex_get_order_book parse env,
     eo_order_books = get_order_books (digifinex_get_order_book parse env),
     eo_balances = digifinex_get_balances parse env api,
     eo_fee = \<lambda>pair. act_return (digifinex_get_fee pair),
     eo_open_orders = digifinex_get_open_orders parse env api,
     eo_closed_orders = digifinex_get_closed_orders parse env api,
     eo_add_order = digifinex_add_order parse env api,
     eo_add_order_confirm = unconfirmed,
     eo_cancel_order = digifinex_cancel_order parse env api\<rparr>"

definition multi_component_exchange :: "'s exchange_ops \<Rightarrow> 's exchange_ops \<Rightarrow> 's exchange_ops" where
  "multi_component_exchange marketApi tradeApi = marketApi\<lparr>
     eo_balances := eo_balances tradeApi,
     eo_fee := eo_fee tradeApi,
     eo_open_orders := eo_open_orders tradeApi,
     eo_closed_orders := eo_closed_orders tradeApi,
     eo_add_order := eo_add_order tradeApi,
     eo_add_order_confirm := eo_add_order_confirm tradeApi,
     eo_cancel_order := eo_cancel_order tradeApi\<rparr>"

section \<open>Creating an exchange\<close>

text \<open>
  The constructors take what they need of their configuration; Kraken has no test address and
  Digifinex ignores the flag. The keys of Kraken and Coinbase are decoded.
\<close>

definition create_kraken_api :: "(string \<Rightarrow> nat \<Rightarrow> string option) \<Rightarrow> kraken_config \<Rightarrow> bool \<Rightarrow> kraken_api res" where
  "create_kraken_api bio_read config enableTesting =
     res_map (\<lambda>key. \<lparr>ka_publicKey = kc_publicKey config, ka_decodedPrivateKey = key\<rparr>)
       (b64_decode bio_read (kc_privateKey config))"

definition create_coinbase_api ::
    "(string \<Rightarrow> nat \<Rightarrow> string option) \<Rightarrow> 'w http_env \<Rightarrow> coinbase_config \<Rightarrow> bool \<Rightarrow> ('w, coinbase_api) action" where
  "create_coinbase_api bio_read env config enableTesting =
     act_bind (epoch_seconds env) (\<lambda>userAgentId.
     reading (b64_decode bio_read (cc_apiSecret config)) (\<lambda>secret.
     act_return \<lparr>ca_baseUrl = coinbase_select_base_url enableTesting, ca_userAgentId = userAgentId,
       ca_apiKey = cc_apiKey config, ca_decodedApiSecret = secret, ca_apiPassphrase = cc_apiPassphrase config\<rparr>))"

definition create_binance_api :: "binance_config \<Rightarrow> bool \<Rightarrow> 'w \<Rightarrow> 'w binance_api" where
  "create_binance_api config enableTesting world =
     \<lparr>na_baseUrl = binance_select_base_url enableTesting, na_apiKey = nc_apiKey config,
      na_secretKey = nc_secretKey config, na_orderFilters = [], na_world = world\<rparr>"

definition create_bybit_api :: "bybit_config \<Rightarrow> bool \<Rightarrow> bybit_api" where
  "create_bybit_api config enableTesting =
     \<lparr>ya_baseUrl = bybit_select_base_url enableTesting, ya_apiKey = yc_apiKey config,
      ya_apiSecret = yc_apiSecret config, ya_fee = yc_fee config\<rparr>"

definition create_digifinex_api :: "digifinex_config \<Rightarrow> bool \<Rightarrow> digifinex_api" where
  "create_digifinex_api config enableTesting = \<lparr>da_apiKey = dc_apiKey config, da_apiSecret = dc_apiSecret config\<rparr>"

definition default_kraken_config :: kraken_config where
  "default_kraken_config = \<lparr>kc_publicKey = [], kc_privateKey = []\<rparr>"

definition default_coinbase_config :: coinbase_config where
  "default_coinbase_config = \<lparr>cc_apiKey = [], cc_apiSecret = [], cc_apiPassphrase = []\<rparr>"

definition default_bybit_config :: bybit_config where
  "default_bybit_config = \<lparr>yc_apiKey = [], yc_apiSecret = [], yc_fee = lit (1 / 10)\<rparr>"

definition default_digifinex_config :: digifinex_config where
  "default_digifinex_config = \<lparr>dc_apiKey = [], dc_apiSecret = []\<rparr>"

definition default_binance_config :: binance_config where
  "default_binance_config = \<lparr>nc_apiKey = [], nc_secretKey = []\<rparr>"

text \<open>\<^verbatim>\<open>create_exchange_api\<close>: the configuration is read from its file, or written to it.\<close>

definition create_kraken_exchange ::
    "(string \<Rightarrow> json res) \<Rightarrow> (json \<Rightarrow> string) \<Rightarrow> (string \<Rightarrow> nat \<Rightarrow> string option) \<Rightarrow> bool \<Rightarrow> (file_system, kraken_api) action" where
  "create_kraken_exchange parse dump bio_read testing =
     act_bind (load_or_create_config parse dump kraken_config_from_json kraken_config_to_json default_kraken_config ''kraken'')
       (\<lambda>config. act_res (\<lambda>_. create_kraken_api bio_read config testing))"

text \<open>The stream of Coinbase has an interface of its own, without keys.\<close>

definition create_coinbase_stream_api :: "(string \<Rightarrow> nat \<Rightarrow> string option) \<Rightarrow> 'w http_env \<Rightarrow> ('w, coinbase_api) action" where
  "create_coinbase_stream_api bio_read env = create_coinbase_api bio_read env default_coinbase_config False"

definition create_coinbase_exchange ::
    "(string \<Rightarrow> json res) \<Rightarrow> (json \<Rightarrow> string) \<Rightarrow> (string \<Rightarrow> nat \<Rightarrow> string option) \<Rightarrow> 'w http_env \<Rightarrow> bool \<Rightarrow>
     (file_system \<times> 'w, coinbase_api) action" where
  "create_coinbase_exchange parse dump bio_read env testing =
     act_bind (in_state fst (\<lambda>fs s. (fs, snd s)) (load_or_create_config parse dump coinbase_config_from_json
       coinbase_config_to_json default_coinbase_config ''coinbase''))
       (\<lambda>config. in_state snd (\<lambda>w s. (fst s, w))
         (act_bind (create_coinbase_stream_api bio_read env) (\<lambda>marketApi. create_coinbase_api bio_read env config testing)))"

definition create_bybit_exchange ::
    "(string \<Rightarrow> json res) \<Rightarrow> (json \<Rightarrow> string) \<Rightarrow> bool \<Rightarrow> (file_system, bybit_api) action" where
  "create_bybit_exchange parse dump testing =
     act_bind (load_or_create_config parse dump bybit_config_from_json bybit_config_to_json default_bybit_config ''bybit'')
       (\<lambda>config. act_return (create_bybit_api config testing))"

definition create_digifinex_exchange ::
    "(string \<Rightarrow> json res) \<Rightarrow> (json \<Rightarrow> string) \<Rightarrow> bool \<Rightarrow> (file_system, digifinex_api) action" where
  "create_digifinex_exchange parse dump testing =
     act_bind (load_or_create_config parse dump digifinex_config_from_json digifinex_config_to_json
       default_digifinex_config ''digifinex'') (\<lambda>config. act_return (create_digifinex_api config testing))"

text \<open>The streams of Binance and Digifinex have an interface of their own as well.\<close>

definition create_binance_stream_api :: "'w \<Rightarrow> 'w binance_api" where
  "create_binance_stream_api world = create_binance_api default_binance_config False world"

definition create_digifinex_stream_api :: digifinex_api where
  "create_digifinex_stream_api = create_digifinex_api default_digifinex_config False"

definition create_binance_exchange ::
    "(string \<Rightarrow> json res) \<Rightarrow> (json \<Rightarrow> string) \<Rightarrow> 'w \<Rightarrow> bool \<Rightarrow> (file_system, 'w binance_api) action" where
  "create_binance_exchange parse dump world testing =
     act_bind (load_or_create_config parse dump binance_config_from_json binance_config_to_json default_binance_config ''binance'')
       (\<lambda>config. act_return (create_binance_api config testing world))"

section \<open>What a strategy asks\<close>

datatype call =
    Get_status | Get_tradable_pairs | Get_ohlcv tradable_pair ohlcv_interval int | Get_price tradable_pair
  | Get_prices "tradable_pair list" | Get_order_book tradable_pair int | Get_order_books "tradable_pair list" int
  | Get_balances | Get_fee tradable_pair | Get_open_orders | Get_closed_orders
  | Add_order order_request | Add_order_confirm order_request | Cancel_order string

datatype answer =
    Status_is exchange_status | Pairs_are "tradable_pair list" | Candles_are "ohlcv_data list" | Number_is double
  | Prices_are "(tradable_pair \<times> double) list" | Book_is order_book_state
  | Books_are "(tradable_pair \<times> order_book_state) list" | Balances_are "(string \<times> double) list"
  | Orders_are "order_description list" | Order_is string | Confirmed order_confirmation | Done

abbreviation answer_with :: "('a \<Rightarrow> answer) \<Rightarrow> ('s, 'a) action \<Rightarrow> ('s, answer) action" where
  "answer_with f m \<equiv> act_bind m (\<lambda>a. act_return (f a))"

fun ask :: "'s exchange_ops \<Rightarrow> call \<Rightarrow> ('s, answer) action" where
  "ask ops Get_status = answer_with Status_is (eo_status ops)"
| "ask ops Get_tradable_pairs = answer_with Pairs_are (eo_tradable_pairs ops)"
| "ask ops (Get_ohlcv pair interval count) = answer_with Candles_are (eo_ohlcv ops pair interval count)"
| "ask ops (Get_price pair) = answer_with Number_is (eo_price ops pair)"
| "ask ops (Get_prices pairs) = answer_with Prices_are (eo_prices ops pairs)"
| "ask ops (Get_order_book pair depth) = answer_with Book_is (eo_order_book ops pair depth)"
| "ask ops (Get_order_books pairs depth) = answer_with Books_are (eo_order_books ops pairs depth)"
| "ask ops Get_balances = answer_with Balances_are (eo_balances ops)"
| "ask ops (Get_fee pair) = answer_with Number_is (eo_fee ops pair)"
| "ask ops Get_open_orders = answer_with Orders_are (eo_open_orders ops)"
| "ask ops Get_closed_orders = answer_with Orders_are (eo_closed_orders ops)"
| "ask ops (Add_order request) = answer_with Order_is (eo_add_order ops request)"
| "ask ops (Add_order_confirm request) = answer_with Confirmed (eo_add_order_confirm ops request)"
| "ask ops (Cancel_order orderId) = answer_with (\<lambda>_. Done) (eo_cancel_order ops orderId)"

text \<open>An iteration makes up to \<open>n\<close> calls, each decided on by the answers so far.\<close>

fun iteration :: "'s exchange_ops \<Rightarrow> (answer list \<Rightarrow> call option) \<Rightarrow> nat \<Rightarrow> answer list \<Rightarrow> ('s, unit) action" where
  "iteration ops decide 0 answers = act_return ()"
| "iteration ops decide (Suc n) answers = (case decide answers of
     None \<Rightarrow> act_return ()
   | Some c \<Rightarrow> act_bind (ask ops c) (\<lambda>a. iteration ops decide n (answers @ [a])))"

text \<open>
  The calls a live run goes through on an exchange, whatever they answer. Placing an order is
  none of them. The prices of many pairs at once are read by name on Kraken and Binance, where
  a name that was not asked for throws what the runners do not catch; Binance has no closed
  orders.
\<close>

fun places_order :: "call \<Rightarrow> bool" where
  "places_order (Add_order _) = True"
| "places_order (Add_order_confirm _) = True"
| "places_order _ = False"

fun asks_prices :: "call \<Rightarrow> bool" where
  "asks_prices (Get_prices _) = True"
| "asks_prices _ = False"

definition kraken_call :: "call \<Rightarrow> bool" where
  "kraken_call c \<longleftrightarrow> \<not> places_order c \<and> \<not> asks_prices c"

definition binance_call :: "call \<Rightarrow> bool" where
  "binance_call c \<longleftrightarrow> \<not> places_order c \<and> \<not> asks_prices c \<and> c \<noteq> Get_closed_orders"

text \<open>A strategy that makes only calls of a kind.\<close>

definition asks_only :: "(call \<Rightarrow> bool) \<Rightarrow> (answer list \<Rightarrow> call option) \<Rightarrow> bool" where
  "asks_only P decide \<longleftrightarrow> (\<forall>answers c. decide answers = Some c \<longrightarrow> P c)"

section \<open>The contract\<close>

definition undefined_result :: "'a res \<Rightarrow> bool" where
  "undefined_result r = (case r of Inl e \<Rightarrow> is_undefined e | Inr _ \<Rightarrow> False)"

text \<open>
  The state after a number of iterations, each begun where the one before it ended, returned or
  thrown. A live run goes through all of them when it returns in that state; it is let off only
  by an iteration whose behaviour is undefined.
\<close>

definition after_iterations :: "('s, unit) action \<Rightarrow> nat \<Rightarrow> 's \<Rightarrow> 's" where
  "after_iterations m n s = ((\<lambda>u. snd (m u)) ^^ n) s"

definition goes_through :: "('s, unit) action \<Rightarrow> bool" where
  "goes_through m \<longleftrightarrow> (\<forall>n s. (\<forall>k < n. \<not> undefined_result (fst (m (after_iterations m k s)))) \<longrightarrow>
     live_run m n s = (Inr (), after_iterations m n s))"

lemma after_iterations_simps [simp]:
  "after_iterations m 0 s = s"
  "after_iterations m (Suc n) s = after_iterations m n (snd (m s))"
  by (simp_all add: after_iterations_def funpow_Suc_right del: funpow.simps(2))

lemma catch_catchable:
  assumes "catchable m" "\<not> undefined_result (fst (m s))"
  shows "catch_mb m s = (Inr (), snd (m s))"
  using assms unfolding catchable_def
  by (cases "m s") (auto simp: catch_mb_def undefined_result_def split: sum.splits, metis fst_conv)

lemma catchable_goes_through:
  assumes "catchable m"
  shows "goes_through m"
proof -
  have "live_run m n s = (Inr (), after_iterations m n s)"
    if "\<forall>k < n. \<not> undefined_result (fst (m (after_iterations m k s)))" for n s
    using that
  proof (induction n arbitrary: s)
    case (Suc n)
    have "\<not> undefined_result (fst (m s))" using Suc.prems by (elim allE [of _ 0]) simp
    moreover have "\<forall>k < n. \<not> undefined_result (fst (m (after_iterations m k (snd (m s)))))"
    proof (intro allI impI)
      fix k assume "k < n"
      then show "\<not> undefined_result (fst (m (after_iterations m k (snd (m s)))))"
        using Suc.prems by (elim allE [of _ "Suc k"]) simp
    qed
    ultimately show ?case using Suc.IH catch_catchable [OF assms] by (simp add: act_bind_def)
  qed (simp add: act_simps)
  then show ?thesis by (simp add: goes_through_def)
qed

lemma iteration_goes_through:
  assumes "\<And>c. P c \<Longrightarrow> catchable (ask ops c)" "asks_only P decide"
  shows "goes_through (iteration ops decide n answers)"
proof (rule catchable_goes_through)
  show "catchable (iteration ops decide n answers)"
  proof (induction n arbitrary: answers)
    case (Suc n)
    then show ?case using assms unfolding asks_only_def
      by (cases "decide answers") (auto intro!: catchable_rules)
  qed (simp add: catchable_basic)
qed

lemma catchable_traverse: "(\<And>x. catchable (f x)) \<Longrightarrow> catchable (act_traverse f xs)"
  by (induction xs) (auto intro!: catchable_rules)

lemma catchable_pairs [catchable_rules]: "(\<And>pair. catchable (f pair)) \<Longrightarrow> catchable (pairs_to_map f pairs)"
  unfolding pairs_to_map_def by (auto intro!: catchable_rules catchable_traverse)

locale exchange_reads =
  fixes ops :: "'s exchange_ops"
  assumes status: "catchable (eo_status ops)"
    and tradable_pairs: "catchable (eo_tradable_pairs ops)"
    and ohlcv: "catchable (eo_ohlcv ops pair interval count)"
    and price: "catchable (eo_price ops pair)"
    and order_book: "catchable (eo_order_book ops pair depth)"
    and order_books: "catchable (eo_order_books ops pairs depth)"
    and balances: "catchable (eo_balances ops)"
    and fee: "catchable (eo_fee ops pair)"
    and open_orders: "catchable (eo_open_orders ops)"
    and cancel_order: "catchable (eo_cancel_order ops orderId)"
begin

lemma ask_catchable: "binance_call c \<Longrightarrow> catchable (ask ops c)"
  by (cases c) (auto simp: binance_call_def intro!: catchable_rules status tradable_pairs ohlcv price order_book
      order_books balances fee open_orders cancel_order)

lemmas run_goes_through = iteration_goes_through [OF ask_catchable]

end

locale exchange_closed_orders = exchange_reads ops for ops :: "'s exchange_ops" +
  assumes closed_orders: "catchable (eo_closed_orders ops)"
begin

lemma ask_closed_catchable: "kraken_call c \<Longrightarrow> catchable (ask ops c)"
  using ask_catchable [of c] closed_orders
  by (cases "c = Get_closed_orders") (auto simp: kraken_call_def binance_call_def intro!: catchable_rules)

lemmas run_closed_goes_through = iteration_goes_through [OF ask_closed_catchable]

end

locale exchange_prices = exchange_closed_orders ops for ops :: "'s exchange_ops" +
  assumes prices: "catchable (eo_prices ops pairs)"
begin

lemma ask_prices_catchable: "\<not> places_order c \<Longrightarrow> catchable (ask ops c)"
  using ask_closed_catchable [of c] prices by (cases c) (auto simp: kraken_call_def intro!: catchable_rules)

lemmas run_prices_goes_through = iteration_goes_through [where P = "\<lambda>c. \<not> places_order c", OF ask_prices_catchable]

end

text \<open>An exchange made of two parts keeps the contract when its parts do.\<close>

lemma multi_component_reads:
  assumes "exchange_reads marketApi" "exchange_reads tradeApi"
  shows "exchange_reads (multi_component_exchange marketApi tradeApi)"
  using assms unfolding exchange_reads_def multi_component_exchange_def by simp

section \<open>The exchanges keep the contract\<close>

lemmas kraken_reads_defs = kraken_exchange_def kraken_get_status_def kraken_get_tradable_pairs_def kraken_get_ohlcv_def
  kraken_get_price_def kraken_get_order_book_def kraken_get_balances_def kraken_get_fee_def kraken_get_open_orders_def
  kraken_read_system_status_def kraken_read_tradable_pairs_def kraken_read_ohlcv_data_def kraken_read_price_def
  kraken_read_order_book_def kraken_read_balances_def kraken_read_fee_def kraken_read_open_orders_def [abs_def]
  kraken_read_open_closed_orders_def [abs_def] kraken_get_closed_orders_def kraken_read_closed_orders_def [abs_def]
  kraken_cancel_order_def get_order_books_def

interpretation kraken_reads: exchange_closed_orders "kraken_exchange parse env api" for parse env api
  by unfold_locales (auto simp: kraken_reads_defs intro!: catchable_rules)

lemmas coinbase_reads_defs = coinbase_exchange_def coinbase_get_status_def coinbase_get_tradable_pairs_def
  coinbase_get_ohlcv_def coinbase_get_price_def coinbase_get_order_book_def coinbase_get_balances_def
  coinbase_get_fee_def coinbase_get_open_orders_def coinbase_read_tradable_pairs_def coinbase_read_ohlcv_data_def
  coinbase_read_price_def coinbase_read_order_book_def coinbase_read_balances_def coinbase_read_fee_def
  coinbase_read_orders_def coinbase_get_closed_orders_def coinbase_cancel_order_def coinbase_read_cancel_order_def
  get_prices_def get_order_books_def

interpretation coinbase_reads: exchange_prices "coinbase_exchange to_time_t dump parse env api" for to_time_t dump parse env api
  by unfold_locales (auto simp: coinbase_reads_defs intro!: catchable_rules catchable_res)

lemmas binance_reads_defs = binance_exchange_def binance_get_status_def binance_get_tradable_pairs_def
  binance_get_ohlcv_def binance_get_price_def binance_get_order_book_def binance_get_balances_def
  binance_get_fee_def binance_get_open_orders_def binance_read_system_status_def binance_read_tradable_pairs_def
  binance_read_ohlcv_def binance_read_price_def binance_read_order_book_def binance_read_balances_def
  binance_read_fee_def binance_read_open_orders_def binance_cancel_order_def binance_read_cancel_order_def
  Let_def get_order_books_def

interpretation binance_reads: exchange_reads "binance_exchange log10 parse env" for log10 parse env
  by unfold_locales (auto simp: binance_reads_defs simp del: add_parameters.simps intro!: catchable_rules)

lemmas bybit_reads_defs = bybit_exchange_def bybit_get_status_def bybit_get_tradable_pairs_def bybit_get_ohlcv_def
  bybit_get_price_def bybit_get_order_book_def bybit_get_balances_def bybit_get_open_orders_def
  bybit_read_system_status_def bybit_read_tradable_pairs_def bybit_read_ohlcv_def bybit_read_price_def
  bybit_read_order_book_def bybit_read_balances_def bybit_read_open_orders_def bybit_get_closed_orders_def
  bybit_read_closed_orders_def bybit_cancel_order_def get_prices_def get_order_books_def

interpretation bybit_reads: exchange_prices "bybit_exchange parse env api" for parse env api
  by unfold_locales (auto simp: bybit_reads_defs intro!: catchable_rules)

lemma catchable_period [catchable_rules]:
  "(\<And>period. catchable (f period)) \<Longrightarrow> catchable (reading (digifinex_ohlcv_period interval) f)"
  by (cases interval) (simp_all add: digifinex_ohlcv_period_def catchable_def)

lemmas digifinex_reads_defs = digifinex_exchange_def digifinex_get_status_def digifinex_get_tradable_pairs_def
  digifinex_get_ohlcv_def digifinex_get_price_def digifinex_get_order_book_def digifinex_get_balances_def
  digifinex_get_open_orders_def digifinex_read_system_status_def digifinex_read_tradable_pairs_def
  digifinex_read_ohlcv_data_def digifinex_read_price_def digifinex_read_order_book_def digifinex_read_balances_def
  digifinex_read_open_orders_def digifinex_get_closed_orders_def digifinex_read_closed_orders_def
  digifinex_cancel_order_def digifinex_read_cancel_order_def get_prices_def get_order_books_def

interpretation digifinex_reads: exchange_prices "digifinex_exchange parse env api" for parse env api
  by unfold_locales (auto simp: digifinex_reads_defs intro!: catchable_rules)

section \<open>Live runs\<close>

text \<open>
  C15: a call that fails ends its iteration only. On every exchange, whatever it answers and the
  connection to it does, a live run whose iterations decide on their calls by the answers so far
  goes through any number of iterations and ends in the state they lead to one after the other,
  unless the behaviour of one is undefined. On Coinbase, Bybit and Digifinex the calls may be any
  but those that place orders, on Kraken any of these but the prices of many pairs, on Binance
  not the closed orders either.
\<close>

theorem live_run_survives_failed_reads:
  "(asks_only kraken_call decide \<longrightarrow> goes_through (iteration (kraken_exchange parse env kraken) decide n [])) \<and>
   (asks_only binance_call decide \<longrightarrow> goes_through (iteration (binance_exchange log10 parse env') decide n [])) \<and>
   (asks_only (\<lambda>c. \<not> places_order c) decide \<longrightarrow>
     goes_through (iteration (coinbase_exchange to_time_t dump parse env coinbase) decide n []) \<and>
     goes_through (iteration (bybit_exchange parse env bybit) decide n []) \<and>
     goes_through (iteration (digifinex_exchange parse env digifinex) decide n []))"
  by (intro conjI impI kraken_reads.run_closed_goes_through binance_reads.run_goes_through
      coinbase_reads.run_prices_goes_through bybit_reads.run_prices_goes_through
      digifinex_reads.run_prices_goes_through)

theorem live_run_survives_failed_reads_witness:
  "let pair = \<lparr>tp_asset = ''BTC'', tp_priceUnit = ''USDT''\<rparr>;
       decide = (\<lambda>answers. Some (if answers = [] then Get_prices [pair] else Get_closed_orders));
       env = \<lparr>he_perform = \<lambda>r w. (Inl ''Timeout was reached'', Suc w), he_now_ms = \<lambda>_. 9, he_sha256 = id,
         he_hmac_sha256 = \<lambda>d k. k, he_hmac_sha512 = \<lambda>d k. k, he_b64_encode = id\<rparr>;
       m = iteration (digifinex_exchange (\<lambda>_. Inr JNull) env \<lparr>da_apiKey = [], da_apiSecret = []\<rparr>) decide 2 []
   in \<not> undefined_result (fst (m 0)) \<and> after_iterations m 3 0 = 3 \<and> live_run m 3 0 = (Inr (), 3)"
proof -
  let ?pair = "\<lparr>tp_asset = ''BTC'', tp_priceUnit = ''USDT''\<rparr>"
  let ?decide = "\<lambda>answers. Some (if answers = [] then Get_prices [?pair] else Get_closed_orders)"
  let ?env = "\<lparr>he_perform = \<lambda>r w. (Inl ''Timeout was reached'', Suc w), he_now_ms = \<lambda>_. 9, he_sha256 = id,
    he_hmac_sha256 = \<lambda>d k. k, he_hmac_sha512 = \<lambda>d k. k, he_b64_encode = id\<rparr>"
  let ?m = "iteration (digifinex_exchange (\<lambda>_. Inr JNull) ?env \<lparr>da_apiKey = [], da_apiSecret = []\<rparr>) ?decide 2 []"
  have a: "asks_only (\<lambda>c. \<not> places_order c) ?decide" by (auto simp: asks_only_def)
  have g: "goes_through ?m"
    by (rule live_run_survives_failed_reads [THEN conjunct2, THEN conjunct2, THEN mp, OF a, THEN conjunct2, THEN conjunct2])
  have u: "\<not> undefined_result (fst (?m 0))" "\<not> undefined_result (fst (?m 1))" "\<not> undefined_result (fst (?m 2))"
    "after_iterations ?m 0 0 = 0" "after_iterations ?m 1 0 = 1" "after_iterations ?m 2 0 = 2"
    "after_iterations ?m 3 0 = 3" by code_simp+
  have "\<not> undefined_result (fst (?m (after_iterations ?m k 0)))" if "k < 3" for k
  proof -
    from that consider "k = 0" | "k = 1" | "k = 2" by linarith
    then show ?thesis by cases (simp_all only: u not_False_eq_True)
  qed
  then have "live_run ?m 3 0 = (Inr (), after_iterations ?m 3 0)" using g unfolding goes_through_def by blast
  with u show ?thesis unfolding Let_def by simp
qed

text \<open>
  The calls an exchange does not support end a live run at its first iteration: an order
  type Kraken does not know, the closed orders of Binance, and a confirmed order anywhere but on
  Binance throw exceptions the runner does not catch.
\<close>

lemma unsupported_calls_end_live_run:
  "live_run (iteration (kraken_exchange parse env kraken) (\<lambda>_. Some (Add_order
      (create_trailing_stop_loss_order pair action delta volume limit))) (Suc m) []) (Suc n) w =
     (Inl (Invalid_argument ''Order Type not recognized''), w) \<and>
   live_run (iteration (binance_exchange log10 parse env') (\<lambda>_. Some Get_closed_orders) (Suc m) []) (Suc n) b =
     (Inl (Not_implemented_exception ''Function: 'binance::get_closed_orders' not implemented''), b) \<and>
   list_all (\<lambda>ops. live_run (iteration ops (\<lambda>_. Some (Add_order_confirm request)) (Suc m) []) (Suc n) w =
      (Inl (Not_implemented_exception ''Function: 'exchange::add_order_confirm' not implemented''), w))
    [kraken_exchange parse env kraken, coinbase_exchange to_time_t dump parse env coinbase,
     bybit_exchange parse env bybit, digifinex_exchange parse env digifinex]"
  by (simp add: act_simps catch_mb_def kraken_exchange_def coinbase_exchange_def binance_exchange_def bybit_exchange_def
      digifinex_exchange_def kraken_add_order_def kraken_order_parameters_def kraken_order_type_string_def
      create_trailing_stop_loss_order_def binance_get_closed_orders_def trade_api_add_order_confirm_def)

text \<open>
  Asked for the price of XBTUSD, Kraken answers for XXBTZUSD: the name was not asked for, and the
  exception goes past the catch of the runner.
\<close>

lemma unasked_name_ends_live_run:
  "let env = \<lparr>he_perform = \<lambda>r w. (Inr (200, []), Suc w), he_now_ms = \<lambda>_. 9, he_sha256 = id,
         he_hmac_sha256 = \<lambda>d k. k, he_hmac_sha512 = \<lambda>d k. k, he_b64_encode = id\<rparr>;
       parse = (\<lambda>_. Inr (JObject [(''error'', JArray []),
         (''result'', JObject [(''XXBTZUSD'', JObject [(''c'', JArray [JString ''2'', JString ''1''])])])]));
       decide = (\<lambda>_. Some (Get_prices [\<lparr>tp_asset = ''XBT'', tp_priceUnit = ''USD''\<rparr>]))
   in live_run (iteration (kraken_exchange parse env \<lparr>ka_publicKey = [], ka_decodedPrivateKey = []\<rparr>) decide 1 []) 2 0 =
     (Inl (Out_of_range ''unordered_map::at''), 1)"
  by code_simp

end
