(* ===== verification/FrontEnd.thy ===== *)
theory FrontEnd
  imports Exchanges
begin

text \<open>
  \<^verbatim>\<open>runner/runner.h\<close> and \<^verbatim>\<open>runner/runner.cpp\<close>: how the program starts, chooses what
  runs the strategy, and ends. Waiting for a key and ending the process is a value: nothing
  happens after it.
\<close>

section \<open>The runner\<close>

datatype runner_kind = Live_runner | Live_test_runner | Back_test_runner back_testing_config

text \<open>The runner of a back test reads its configuration when it is created.\<close>

definition create_runner_implementation ::
    "(string \<Rightarrow> json res) \<Rightarrow> (json \<Rightarrow> string) \<Rightarrow> run_mode \<Rightarrow> (file_system, runner_kind) action" where
  "create_runner_implementation parse dump runMode = (case runMode of
       LIVE \<Rightarrow> act_return Live_runner
     | LIVETEST \<Rightarrow> act_return Live_test_runner
     | BACKTEST \<Rightarrow> act_bind (load_or_create_config parse dump back_testing_config_from_json
         back_testing_config_to_json default_back_testing_config ''back_testing'')
         (\<lambda>config. act_return (Back_test_runner config))
     | UNKNOWN_MODE \<Rightarrow> act_throw (Invalid_argument ''Run mode is not supported''))"

definition create_synchronizer_if_enabled :: "run_mode \<Rightarrow> bool \<Rightarrow> bool" where
  "create_synchronizer_if_enabled runMode enabled = (enabled \<and> (runMode = LIVE \<or> runMode = LIVETEST))"

record runner =
  rn_implementation :: runner_kind
  rn_config :: runner_config
  rn_initialised :: bool
  rn_timeSynchronizer :: bool

definition new_runner :: "runner_kind \<Rightarrow> runner_config \<Rightarrow> runner" where
  "new_runner implementation config = \<lparr>rn_implementation = implementation, rn_config = config,
     rn_initialised = False,
     rn_timeSynchronizer = create_synchronizer_if_enabled (rc_runMode config) (rc_syncTime config)\<rparr>"

datatype 'a process = Continues 'a | Exits int

definition exit_on_key :: "'a process" where
  "exit_on_key = Exits (- 1)"

text \<open>Any exception is logged, and the process ends.\<close>

definition guarded :: "('s, 'a) action \<Rightarrow> ('s, 'a process) action" where
  "guarded m s = (case m s of
       (Inr a, t) \<Rightarrow> (Inr (Continues a), t)
     | (Inl e, t) \<Rightarrow> (if is_undefined e then Inl e else Inr exit_on_key, t))"

definition and_then :: "('s, 'a process) action \<Rightarrow> ('a \<Rightarrow> ('s, 'b process) action) \<Rightarrow> ('s, 'b process) action" where
  "and_then m k = act_bind m (\<lambda>p. case p of Continues a \<Rightarrow> k a | Exits n \<Rightarrow> act_return (Exits n))"

text \<open>
  Creating the directory of the configurations has no counterpart here: a file system is a map
  from paths to contents, in which any file can be made.
\<close>

definition create_runner :: "(string \<Rightarrow> json res) \<Rightarrow> (json \<Rightarrow> string) \<Rightarrow> (file_system, runner process) action" where
  "create_runner parse dump = guarded
     (act_bind (act_res (\<lambda>_. default_runner_config)) (\<lambda>dflt.
      act_bind (load_or_create_config parse dump runner_config_from_json runner_config_to_json dflt ''runner'') (\<lambda>config.
      act_bind (create_runner_implementation parse dump (rc_runMode config)) (\<lambda>implementation.
      act_return (new_runner implementation config)))))"

definition load_custom_config ::
    "(string \<Rightarrow> json res) \<Rightarrow> (json \<Rightarrow> string) \<Rightarrow> (json \<Rightarrow> 'c res) \<Rightarrow> ('c \<Rightarrow> json) \<Rightarrow> 'c \<Rightarrow> string \<Rightarrow>
     (file_system, 'c process) action" where
  "load_custom_config parse dump from_json to_json dflt name =
     guarded (load_or_create_config parse dump from_json to_json dflt name)"

text \<open>The strategy is made, then given the exchanges of the implementation.\<close>

definition runner_initialise ::
    "('s, unit) action \<Rightarrow> (runner \<Rightarrow> ('s, 'e) action) \<Rightarrow> ('e \<Rightarrow> ('s, unit) action) \<Rightarrow> runner \<Rightarrow> ('s, runner process) action" where
  "runner_initialise make_strategy make_exchanges strategy_initialise r = guarded
     (act_seq make_strategy
     (act_bind (make_exchanges r) (\<lambda>exchanges.
      act_seq (strategy_initialise exchanges)
        (act_return (r\<lparr>rn_initialised := True\<rparr>)))))"

definition runner_run :: "(runner \<Rightarrow> ('s, unit) action) \<Rightarrow> runner \<Rightarrow> ('s, 'a process) action" where
  "runner_run run r =
     (if \<not> rn_initialised r then act_throw (Undefined_behaviour ''assert'')
      else and_then (guarded (run r)) (\<lambda>_. act_return exit_on_key))"

text \<open>
  A live test gives every exchange a paper account with the same configuration, on the stream of
  the exchange, which asking for it may open.
\<close>

definition live_test_create_exchanges ::
    "(string \<Rightarrow> json res) \<Rightarrow> (json \<Rightarrow> string) \<Rightarrow> (file_system \<times> 's, 'e list) action \<Rightarrow>
     ('e \<Rightarrow> (file_system \<times> 's, 'w) action) \<Rightarrow> (file_system \<times> 's, ('e \<times> 'w paper_trade_api) list) action" where
  "live_test_create_exchanges parse dump create_apis get_stream =
     act_bind create_apis (\<lambda>exchangeApis.
     act_bind (in_state fst (\<lambda>fs s. (fs, snd s)) (load_or_create_config parse dump paper_trading_config_from_json
       paper_trading_config_to_json default_paper_trading_config ''paper_trading''))
       (\<lambda>paperTradingConfig. act_traverse (\<lambda>exchange. act_bind (get_stream exchange) (\<lambda>stream.
          act_res (\<lambda>_. res_map (Pair exchange) (create_paper_trade_api paperTradingConfig stream)))) exchangeApis))"

text \<open>The program a user writes: the files and the state of the strategy and its exchanges.\<close>

definition program ::
    "(string \<Rightarrow> json res) \<Rightarrow> (json \<Rightarrow> string) \<Rightarrow> (file_system \<times> 's, unit) action \<Rightarrow>
     (runner \<Rightarrow> (file_system \<times> 's, 'e) action) \<Rightarrow> ('e \<Rightarrow> (file_system \<times> 's, unit) action) \<Rightarrow>
     (runner \<Rightarrow> (file_system \<times> 's, unit) action) \<Rightarrow> (file_system \<times> 's, unit process) action" where
  "program parse dump make_strategy make_exchanges strategy_initialise run =
     and_then (in_state fst (\<lambda>fs s. (fs, snd s)) (create_runner parse dump)) (\<lambda>r.
     and_then (runner_initialise make_strategy make_exchanges strategy_initialise r) (runner_run run))"

definition ends_with :: "int \<Rightarrow> ('s, 'a process) action \<Rightarrow> bool" where
  "ends_with n m \<longleftrightarrow> (\<forall>s. case fst (m s) of Inr p \<Rightarrow> p = Exits n | Inl e \<Rightarrow> is_undefined e)"

definition goes_on_or_ends :: "int \<Rightarrow> ('a \<Rightarrow> bool) \<Rightarrow> ('s, 'a process) action \<Rightarrow> bool" where
  "goes_on_or_ends n P m \<longleftrightarrow> (\<forall>s. case fst (m s) of
     Inr (Continues a) \<Rightarrow> P a | Inr (Exits k) \<Rightarrow> k = n | Inl e \<Rightarrow> is_undefined e)"

lemma guarded_ends: "(\<And>s a t. m s = (Inr a, t) \<Longrightarrow> P a) \<Longrightarrow> goes_on_or_ends (- 1) P (guarded m)"
  by (auto simp: goes_on_or_ends_def guarded_def exit_on_key_def split: prod.split sum.split)

lemma guarded_ends_any: "goes_on_or_ends (- 1) (\<lambda>_. True) (guarded m)"
  by (rule guarded_ends) simp

lemma ends_with_bind:
  assumes m: "goes_on_or_ends n P m" and k: "\<And>a. P a \<Longrightarrow> ends_with n (k a)"
  shows "ends_with n (and_then m k)"
  unfolding ends_with_def
proof
  fix s
  obtain r t where mst: "m s = (r, t)" by (cases "m s")
  show "case fst (and_then m k s) of Inr p \<Rightarrow> p = Exits n | Inl e \<Rightarrow> is_undefined e"
  proof (cases r)
    case (Inl e)
    with m mst show ?thesis
      by (auto simp: goes_on_or_ends_def and_then_def act_bind_def dest: spec [of _ s])
  next
    case (Inr p)
    show ?thesis
    proof (cases p)
      case (Continues a)
      with m mst Inr have "P a" by (auto simp: goes_on_or_ends_def dest: spec [of _ s])
      from k [OF this] Continues mst Inr show ?thesis
        by (simp add: ends_with_def and_then_def act_bind_def)
    next
      case (Exits i)
      with m mst Inr show ?thesis
        by (auto simp: goes_on_or_ends_def and_then_def act_bind_def act_return_def dest: spec [of _ s])
    qed
  qed
qed

lemma goes_on_in_state:
  assumes "goes_on_or_ends n P m"
  shows "goes_on_or_ends n P (in_state rd wr m)"
  unfolding goes_on_or_ends_def
proof
  fix s
  have "fst (in_state rd wr m s) = fst (m (rd s))" by (simp add: in_state_def split: prod.split)
  with assms show "case fst (in_state rd wr m s) of Inr (Continues a) \<Rightarrow> P a | Inr (Exits k) \<Rightarrow> k = n | Inl e \<Rightarrow> is_undefined e"
    by (simp add: goes_on_or_ends_def)
qed

lemma runner_initialise_goes_on:
  "goes_on_or_ends (- 1) rn_initialised (runner_initialise make_strategy make_exchanges strategy_initialise r)"
  unfolding runner_initialise_def
  by (rule guarded_ends) (auto simp: act_bind_def act_return_def split: prod.splits sum.splits)

lemma runner_run_ends: "rn_initialised r \<Longrightarrow> ends_with (- 1) (runner_run run r)"
  unfolding runner_run_def
  by (simp, rule ends_with_bind [OF guarded_ends_any]) (simp add: ends_with_def act_return_def exit_on_key_def)

text \<open>
  However a program that sets up its runner and runs a strategy goes, whether its
  configuration, its exchanges or its strategy fail or the run succeeds, its process ends with
  the exit code -1, or without one where an execution has no meaning.
\<close>

lemma program_exits: "ends_with (- 1) (program parse dump make_strategy make_exchanges strategy_initialise run)"
  unfolding program_def create_runner_def
  by (rule ends_with_bind [OF goes_on_in_state [OF guarded_ends_any]])
    (rule ends_with_bind [OF runner_initialise_goes_on runner_run_ends])

end
