(* ===== verification/Handles.thy ===== *)
theory Handles
  imports Requests
begin

text \<open>
  \<^verbatim>\<open>networking/http/http_service.cpp\<close>: who owns the handles of the curl library. A
  handle is created with its service, and every service cleans up the handle it holds when it
  is destroyed. The services of a program are named by numbers.
\<close>

section \<open>Services and their handles\<close>

record service_store =
  st_easyHandle :: "nat \<rightharpoonup> nat option"
  st_liveHandles :: "nat set"
  st_created :: nat

definition no_services :: service_store where
  "no_services = \<lparr>st_easyHandle = Map.empty, st_liveHandles = {}, st_created = 0\<rparr>"

text \<open>Whether the library has a handle to give, and takes its options, is up to the library.\<close>

definition create_easy_handle :: "bool \<Rightarrow> (service_store, nat option) action" where
  "create_easy_handle available s =
     (if available
      then (Inr (Some (st_created s)),
            s\<lparr>st_liveHandles := insert (st_created s) (st_liveHandles s), st_created := st_created s + 1\<rparr>)
      else (Inr None, s))"

definition hold :: "nat \<Rightarrow> nat option \<Rightarrow> (service_store, unit) action" where
  "hold i h = act_modify (\<lambda>s. s\<lparr>st_easyHandle := (st_easyHandle s)(i \<mapsto> h)\<rparr>)"

definition held :: "nat \<Rightarrow> (service_store, nat option) action" where
  "held i s = (case st_easyHandle s i of
       None \<Rightarrow> (Inl (Undefined_behaviour ''no such object''), s)
     | Some h \<Rightarrow> (Inr h, s))"

text \<open>A constructor that throws leaves no object, and so nothing that cleans up its handle.\<close>

definition service_create :: "bool \<Rightarrow> string option \<Rightarrow> nat \<Rightarrow> (service_store, unit) action" where
  "service_create available rejected i =
     act_bind (create_easy_handle available) (\<lambda>easyHandle.
       if easyHandle = None then act_throw (http_error ''Could not create HTTP service'')
       else (case rejected of
           Some error \<Rightarrow> act_throw (http_error error)
         | None \<Rightarrow> hold i easyHandle))"

text \<open>The library lets a null handle be cleaned up.\<close>

definition easy_cleanup :: "nat option \<Rightarrow> (service_store, unit) action" where
  "easy_cleanup easyHandle s = (case easyHandle of
       None \<Rightarrow> (Inr (), s)
     | Some h \<Rightarrow> if h \<in> st_liveHandles s then (Inr (), s\<lparr>st_liveHandles := st_liveHandles s - {h}\<rparr>)
                else (Inl (Undefined_behaviour ''use after free''), s))"

definition service_destroy :: "nat \<Rightarrow> (service_store, unit) action" where
  "service_destroy i =
     act_bind (held i) (\<lambda>h.
     act_seq (easy_cleanup h)
       (act_modify (\<lambda>s. s\<lparr>st_easyHandle := (st_easyHandle s)(i := None)\<rparr>)))"

definition service_copy :: "nat \<Rightarrow> nat \<Rightarrow> (service_store, unit) action" where
  "service_copy i other = act_bind (held other) (hold i)"

definition service_move :: "nat \<Rightarrow> nat \<Rightarrow> (service_store, unit) action" where
  "service_move i other = act_bind (held other) (\<lambda>h. act_seq (hold i h) (hold other None))"

definition service_copy_assign :: "nat \<Rightarrow> nat \<Rightarrow> (service_store, unit) action" where
  "service_copy_assign i other = act_bind (held other) (hold i)"

text \<open>The handle held before is not cleaned up; a service moved into itself loses its own.\<close>

definition service_move_assign :: "nat \<Rightarrow> nat \<Rightarrow> (service_store, unit) action" where
  "service_move_assign i other = act_bind (held other) (\<lambda>h. act_seq (hold i h) (hold other None))"

text \<open>The library refuses the options of a null handle, with an error of its own.\<close>

definition service_use :: "string \<Rightarrow> nat \<Rightarrow> (service_store, unit) action" where
  "service_use refusal i = act_bind (held i) (\<lambda>h s. case h of
       None \<Rightarrow> (Inl (http_error refusal), s)
     | Some h \<Rightarrow> if h \<in> st_liveHandles s then (Inr (), s)
                else (Inl (Undefined_behaviour ''use after free''), s))"

section \<open>The life of the services\<close>

datatype service_step =
    Create bool "string option" nat
  | Destroy nat
  | Copy nat nat
  | Move nat nat
  | Copy_assign nat nat
  | Move_assign nat nat
  | Use string nat

fun perform :: "service_step \<Rightarrow> (service_store, unit) action" where
  "perform (Create available rejected i) = service_create available rejected i"
| "perform (Destroy i) = service_destroy i"
| "perform (Copy i other) = service_copy i other"
| "perform (Move i other) = service_move i other"
| "perform (Copy_assign i other) = service_copy_assign i other"
| "perform (Move_assign i other) = service_move_assign i other"
| "perform (Use refusal i) = service_use refusal i"

text \<open>
  The language's own rules: an object is constructed in a place that holds none, and only
  objects are used. A run in which no service is copied.
\<close>

fun proper_step :: "service_step \<Rightarrow> service_store \<Rightarrow> bool" where
  "proper_step (Create _ _ i) s = (st_easyHandle s i = None)"
| "proper_step (Destroy i) s = (st_easyHandle s i \<noteq> None)"
| "proper_step (Copy _ _) s = False"
| "proper_step (Move i other) s = (st_easyHandle s i = None \<and> st_easyHandle s other \<noteq> None)"
| "proper_step (Copy_assign _ _) s = False"
| "proper_step (Move_assign i other) s = (st_easyHandle s i \<noteq> None \<and> st_easyHandle s other \<noteq> None)"
| "proper_step (Use _ i) s = (st_easyHandle s i \<noteq> None)"

fun proper_run :: "service_step list \<Rightarrow> service_store \<Rightarrow> bool" where
  "proper_run [] s \<longleftrightarrow> True"
| "proper_run (x # xs) s \<longleftrightarrow> proper_step x s \<and> proper_run xs (snd (perform x s))"

text \<open>The operations of a run: one that throws is caught, and the run goes on.\<close>

fun run_services :: "service_step list \<Rightarrow> service_store \<Rightarrow> exn option list \<times> service_store" where
  "run_services [] s = ([], s)"
| "run_services (x # xs) s =
     (case perform x s of (r, t) \<Rightarrow>
      case run_services xs t of (rs, u) \<Rightarrow> ((case r of Inl e \<Rightarrow> Some e | Inr _ \<Rightarrow> None) # rs, u))"

section \<open>One owner for every handle\<close>

definition owned_once :: "service_store \<Rightarrow> bool" where
  "owned_once s \<longleftrightarrow>
     (\<forall>i h. st_easyHandle s i = Some (Some h) \<longrightarrow> h \<in> st_liveHandles s \<and>
       (\<forall>j. st_easyHandle s j = Some (Some h) \<longrightarrow> j = i)) \<and>
     (\<forall>h \<in> st_liveHandles s. h < st_created s)"

definition defined :: "'a res \<Rightarrow> bool" where
  "defined r \<longleftrightarrow> (case r of Inl e \<Rightarrow> \<not> is_undefined e | Inr _ \<Rightarrow> True)"

lemmas service_defs = service_create_def service_destroy_def service_move_def service_move_assign_def
  service_use_def create_easy_handle_def easy_cleanup_def hold_def held_def http_error_def

lemma owned_once_step:
  "owned_once s \<Longrightarrow> proper_step x s \<Longrightarrow> owned_once (snd (perform x s)) \<and> defined (fst (perform x s))"
  by (cases x)
    (auto simp: owned_once_def defined_def service_defs act_simps less_Suc_eq split: option.splits if_splits)

lemma owned_once_run:
  "owned_once s \<Longrightarrow> proper_run xs s \<Longrightarrow>
    owned_once (snd (run_services xs s)) \<and>
    list_all (\<lambda>r. case r of Some e \<Rightarrow> \<not> is_undefined e | None \<Rightarrow> True) (fst (run_services xs s))"
proof (induction xs arbitrary: s)
  case (Cons x xs)
  from Cons.prems have x: "owned_once (snd (perform x s))" "defined (fst (perform x s))"
    and xs: "proper_run xs (snd (perform x s))"
    using owned_once_step by auto
  from Cons.IH [OF x(1) xs] x(2) show ?case
    by (auto simp: defined_def split: prod.split sum.split)
qed simp

text \<open>A copy and its original both clean up the handle.\<close>

lemma copied_service_cleaned_up_twice:
  assumes "st_easyHandle s i = Some (Some h)" "h \<in> st_liveHandles s" "st_easyHandle s j = None"
  shows "fst (run_services [Copy j i, Destroy i, Destroy j] s) =
    [None, None, Some (Undefined_behaviour ''use after free'')]"
proof -
  from assms have "j \<noteq> i" by auto
  with assms show ?thesis by (simp add: service_copy_def service_defs act_simps)
qed

text \<open>
  C35: as long as the services are made, moved, assigned by moving, used and destroyed, but never
  copied, no handle is used or cleaned up after it has been cleaned up, whatever the library
  refuses; each live handle has at most one owner.
\<close>

theorem services_safe_without_copies:
  assumes "proper_run xs no_services"
  shows "list_all (\<lambda>r. case r of Some e \<Rightarrow> \<not> is_undefined e | None \<Rightarrow> True) (fst (run_services xs no_services)) \<and>
    owned_once (snd (run_services xs no_services))"
proof -
  have "owned_once no_services" by (simp add: owned_once_def no_services_def)
  from owned_once_run [OF this assms] show ?thesis by blast
qed

theorem services_safe_without_copies_witness:
  "list_all (\<lambda>r. case r of Some e \<Rightarrow> \<not> is_undefined e | None \<Rightarrow> True)
    (fst (run_services [Create True None 0, Move 1 0, Use ''bad handle'' 0, Use ''bad handle'' 1, Destroy 0, Destroy 1]
      no_services))"
  by (rule conjunct1 [OF services_safe_without_copies])
    (simp add: service_defs no_services_def act_simps)

end
