(* ===== verification/Formats.thy ===== *)
theory Formats
  imports Candles
begin

text \<open>
  The numbers of the program are values of the format: rounding gives a value that rounding does
  not change, so that every operation on doubles yields a double. The lemmas carry this through
  the formulas of \<^verbatim>\<open>financeutils.h\<close> and \<^verbatim>\<open>mathutils.h\<close>, the reading of rows and both
  candle builders.
\<close>

section \<open>Rounding once is enough\<close>

lemma lsb_bounds: "- 1074 \<le> lsb q" "q \<noteq> 0 \<Longrightarrow> \<bar>q\<bar> < pow2 (lsb q + 53)"
proof -
  show "- 1074 \<le> lsb q" by (simp add: lsb_def)
  assume "q \<noteq> 0"
  then have "\<bar>q\<bar> < pow2 (ilog2 \<bar>q\<bar> + 1)" using ilog2_bounds [of "\<bar>q\<bar>"] by simp
  also have "\<dots> \<le> pow2 (lsb q + 53)" by (rule pow2_mono) (simp add: lsb_def)
  finally show "\<bar>q\<bar> < pow2 (lsb q + 53)" .
qed

lemma rne_significand:
  assumes "q \<noteq> 0"
  shows "\<bar>rne (q / pow2 (lsb q))\<bar> \<le> 2 ^ 53"
proof -
  have "\<bar>q\<bar> < pow2 53 * pow2 (lsb q)" using lsb_bounds(2) [OF assms] by (simp add: pow2_add mult.commute)
  then have "\<bar>q / pow2 (lsb q)\<bar> \<le> pow2 53" by (simp add: abs_divide divide_le_eq)
  moreover have "pow2 53 = of_int (2 ^ 53)" by (simp add: pow2_def)
  ultimately have "q / pow2 (lsb q) \<le> of_int (2 ^ 53)" "of_int (- (2 ^ 53)) \<le> q / pow2 (lsb q)"
    by (simp_all only: of_int_minus abs_le_iff) linarith?
  then have "rne (q / pow2 (lsb q)) \<le> 2 ^ 53" "- (2 ^ 53) \<le> rne (q / pow2 (lsb q))"
    by (simp_all only: rne_bounds)
  then show ?thesis by simp
qed

lemma lsb_significand:
  assumes "\<bar>m\<bar> < 2 ^ 53" "- 1074 \<le> j" "m \<noteq> 0"
  shows "lsb (of_int m * pow2 j) \<le> j"
proof -
  have "(of_int \<bar>m\<bar> :: rat) < of_int (2 ^ 53)" using assms(1) by (simp only: of_int_less_iff)
  then have "\<bar>of_int m * pow2 j\<bar> < pow2 53 * pow2 j" by (simp add: abs_mult pow2_nat)
  then have "ilog2 \<bar>of_int m * pow2 j\<bar> < 53 + j" using assms(3) by (simp add: ilog2_less_abs pow2_add)
  with assms(2) show ?thesis by (simp add: lsb_def)
qed

lemma round_rat_idem: "round_rat (round_rat q) = round_rat q"
proof (cases "q = 0")
  case False
  define l m where "l = lsb q" and "m = rne (q / pow2 (lsb q))"
  have r: "round_rat q = of_int m * pow2 l" using False by (simp add: round_rat_def l_def m_def)
  have l: "- 1074 \<le> l" and m: "\<bar>m\<bar> \<le> 2 ^ 53"
    using lsb_bounds(1) rne_significand [OF False] by (simp_all add: l_def m_def)
  consider "m = 0" | "m \<noteq> 0" "\<bar>m\<bar> < 2 ^ 53" | "m \<noteq> 0" "\<bar>m\<bar> = 2 ^ 53" using m by linarith
  then show ?thesis
  proof cases
    case 2
    from round_rat_exact [OF lsb_significand [OF 2(2) l 2(1)]] show ?thesis by (simp only: r)
  next
    case 3
    define n where "n = sgn m * 2 ^ 52"
    have n: "m = n * 2" "\<bar>n\<bar> < 2 ^ 53" "n \<noteq> 0" using 3 by (auto simp: n_def sgn_if abs_if split: if_splits)
    have "of_int m * pow2 l = of_int n * pow2 (l + 1)" by (simp add: n(1) pow2_Suc)
    with round_rat_exact [OF lsb_significand [OF n(2) _ n(3), of "l + 1"]] l show ?thesis by (simp add: r)
  qed (simp add: r)
qed simp

section \<open>Operations\<close>

named_theorems formats "values of the format"

lemma wf_to_double [formats]: "wf_double (to_double q)"
  by (simp add: to_double_alt Let_def wf_double_def representable_def round_rat_idem)

lemma wf_simps [simp]: "wf_double NaN" "wf_double PInf" "wf_double NInf" "wf_double NZero" "wf_double (Fin 0)"
  by (simp_all add: wf_double_def representable_def)

lemma wf_literals [formats]: "wf_double (lit q)" "wf_double (of_int_d i)" "wf_double 0" "wf_double 1"
proof -
  have "to_double 1 = Fin 1" using to_double_of_int [of 1] by simp
  with wf_to_double [of 1] show "wf_double 1" by (simp add: one_double_def)
qed (simp_all add: lit_def of_int_d_def wf_to_double zero_double_def)

lemma wf_uminus [formats]: "wf_double x \<Longrightarrow> wf_double (- x)"
  by (cases x) (auto simp: uminus_double_def wf_double_def representable_def round_rat_uminus)

lemma wf_abs [formats]: "wf_double x \<Longrightarrow> wf_double (abs x)"
  by (simp add: abs_double_def formats)

lemma wf_plus [formats]: "wf_double x \<Longrightarrow> wf_double y \<Longrightarrow> wf_double (x + y)"
  by (simp add: plus_double_def formats)

lemma wf_minus [formats]: "wf_double x \<Longrightarrow> wf_double y \<Longrightarrow> wf_double (x - y)"
  by (simp add: minus_double_def formats)

lemma wf_times [formats]: "wf_double (x * y)"
  by (simp add: times_double_def formats)

lemma wf_divide [formats]: "wf_double (x / (y :: double))"
  by (simp add: divide_double_def formats)

lemma wf_dmax [formats]: "wf_double x \<Longrightarrow> wf_double y \<Longrightarrow> wf_double (dmax x y)" "wf_double x \<Longrightarrow> wf_double y \<Longrightarrow> wf_double (dmin x y)"
  by (simp_all add: dmax_def dmin_def)

lemma wf_std_round [formats]: "wf_double x \<Longrightarrow> wf_double (std_round x)"
  by (cases x) (simp_all add: std_round_def Let_def formats)

lemma wf_stod: "stod s = Inr x \<Longrightarrow> wf_double x"
  by (auto simp: stod_def Let_def formats split: option.splits if_splits prod.splits)

section \<open>Formulas\<close>

text \<open>A product and a quotient are rounded whatever their operands are.\<close>

lemma wf_formulas:
  "wf_double (calculate_percentage_diff x y)" "wf_double (calculate_percentage_proportion x y z)"
  "wf_double (round_dp x dp)" "wf_double (calculate_cost x y)" "wf_double (calculate_volume x y)"
  "wf_double (calculate_asset_price x y)" "wf_double (calculate_fee x y)" "wf_double (calculate_trade_gain x y z action)"
  by (simp_all add: calculate_percentage_diff_def calculate_percentage_proportion_def round_dp_def Let_def
      calculate_cost_def calculate_volume_def calculate_asset_price_def calculate_fee_def calculate_trade_gain_def
      formats)

lemma wf_add_value: "wf_double (mc_valueSum m) \<Longrightarrow> wf_double x \<Longrightarrow>
    wf_double (mc_valueSum (add_value m x)) \<and> wf_double (mc_mean (add_value m x))"
  by (simp add: add_value_def Let_def formats)

section \<open>Candles\<close>

definition wf_candle :: "ohlcv_data \<Rightarrow> bool" where
  "wf_candle d \<longleftrightarrow> list_all wf_double [oh_open d, oh_high d, oh_low d, oh_close d, oh_volume d]"

definition wf_trade :: "trade_update \<Rightarrow> bool" where
  "wf_trade t \<longleftrightarrow> wf_double (tu_price t) \<and> wf_double (tu_volume t)"

definition wf_builder :: "ohlcv_from_trades \<Rightarrow> bool" where
  "wf_builder s \<longleftrightarrow> list_all wf_double [ft_open s, ft_high s, ft_low s, ft_close s, ft_volume s]"

lemma wf_row: "ohlcv_from_csv_row row = Inr d \<Longrightarrow> wf_candle d"
  by (auto simp: ohlcv_from_csv_row_def res_bind_Inr_iff wf_candle_def intro: wf_stod)

lemma wf_roll: "roll_candle t s = Inr s' \<Longrightarrow> wf_builder s \<Longrightarrow> wf_builder s'"
  by (auto simp: roll_candle_def start_new_candle_def wf_builder_def formats split: if_splits)

lemma wf_add_trade: "add_trade t p v s = Inr s' \<Longrightarrow> wf_builder s \<Longrightarrow> wf_double p \<Longrightarrow> wf_double v \<Longrightarrow> wf_builder s'"
  unfolding add_trade_def
  by (auto simp: res_bind_Inr_iff Let_def wf_builder_def formats dest!: wf_roll split: if_splits)

lemma wf_ft_candle: "ft_get_ohlcv t s = Inr (d, s') \<Longrightarrow> wf_builder s \<Longrightarrow> wf_candle d \<and> wf_builder s'"
  unfolding ft_get_ohlcv_def
  by (auto simp: res_bind_Inr_iff wf_builder_def wf_candle_def dest!: wf_roll split: if_splits)

fun feed_trades :: "trade_update list \<Rightarrow> ohlcv_from_trades \<Rightarrow> ohlcv_from_trades res" where
  "feed_trades [] s = Inr s"
| "feed_trades (t # ts) s = res_bind (add_trade (tu_timeStamp t) (tu_price t) (tu_volume t) s) (feed_trades ts)"

lemma wf_feed: "feed_trades ts s = Inr s' \<Longrightarrow> wf_builder s \<Longrightarrow> list_all wf_trade ts \<Longrightarrow> wf_builder s'"
  by (induction ts arbitrary: s) (auto simp: res_bind_Inr_iff wf_trade_def dest!: wf_add_trade)

lemma wf_pop_old: "list_all wf_trade ts \<Longrightarrow> list_all wf_trade (pop_old st ts)"
  by (induction st ts rule: pop_old.induct) auto

lemma wf_update:
  assumes "update_values t s = Inr s'" "list_all wf_trade (mv_trades s)"
  shows "list_all wf_trade (mv_trades s')"
proof -
  let ?st = "if t - mv_offset s \<ge> mv_startTime s + mv_interval s then t - mv_interval s - mv_offset s else mv_startTime s"
  have p: "list_all wf_trade (pop_old ?st (mv_trades s))" using assms(2) by (rule wf_pop_old)
  show ?thesis
  proof (cases "pop_old ?st (mv_trades s)")
    case Nil
    with assms(1) show ?thesis by (simp add: update_values_def Let_def)
  next
    case (Cons front rest)
    with assms(1) p show ?thesis by (auto simp: update_values_def Let_def wf_trade_def formats)
  qed
qed

lemma wf_offset: "list_all wf_trade (mv_trades s) \<Longrightarrow> list_all wf_trade (get_offset_trades s)"
proof -
  have "list_all wf_trade ts \<Longrightarrow> list_all wf_trade (offset_loop limit ts)" for ts limit
    by (induction limit ts rule: offset_loop.induct) auto
  then show "list_all wf_trade (mv_trades s) \<Longrightarrow> list_all wf_trade (get_offset_trades s)"
    by (simp add: get_offset_trades_def)
qed

lemma wf_folds:
  assumes "list_all wf_trade ts" "wf_double x"
  shows "wf_double (foldl (\<lambda>high trade. dmax high (tu_price trade)) x ts)"
    "wf_double (foldl (\<lambda>low trade. dmin low (tu_price trade)) x ts)"
    "wf_double (foldl (\<lambda>volume trade. volume + tu_volume trade) x ts)"
  using assms by (induction ts arbitrary: x) (simp_all add: wf_trade_def formats)

lemma wf_of_trades: "ohlcv_of_trades stamp ts = Inr d \<Longrightarrow> list_all wf_trade ts \<Longrightarrow> wf_candle d"
proof (cases ts)
  case (Cons t rest)
  assume d: "ohlcv_of_trades stamp ts = Inr d" and ts: "list_all wf_trade ts"
  have "last ts \<in> set ts" using Cons by (intro last_in_set) simp
  with ts Cons have "wf_trade t" "wf_trade (last ts)" by (auto simp: list_all_iff simp del: last.simps)
  then have "wf_double (tu_price t)" "wf_double (tu_price (last ts))" by (simp_all add: wf_trade_def)
  moreover from d Cons have "d = \<lparr>oh_timeStamp = stamp, oh_open = tu_price t,
      oh_high = foldl (\<lambda>high trade. dmax high (tu_price trade)) (tu_price t) ts,
      oh_low = foldl (\<lambda>low trade. dmin low (tu_price trade)) (tu_price t) ts, oh_close = tu_price (last ts),
      oh_volume = foldl (\<lambda>volume trade. volume + tu_volume trade) 0 ts\<rparr>"
    by (simp add: ohlcv_of_trades_def)
  ultimately show "wf_candle d" using wf_folds [OF ts] by (simp add: wf_candle_def formats)
qed (simp add: ohlcv_of_trades_def)

lemma wf_empty: "wf_candle empty_ohlcv"
  by (simp add: wf_candle_def empty_ohlcv_def formats)

lemma wf_moving_candle:
  assumes "mv_get_ohlcv t s = Inr (d, s')" "list_all wf_trade (mv_trades s)"
  shows "wf_candle d \<and> list_all wf_trade (mv_trades s')"
proof -
  obtain u where u: "update_values t s = Inr u" using assms(1) by (auto simp: mv_get_ohlcv_def res_bind_Inr_iff)
  have "list_all wf_trade (mv_trades u)" by (rule wf_update [OF u assms(2)])
  with u assms(1) show ?thesis
    by (auto simp: mv_get_ohlcv_def res_bind_Inr_iff wf_empty dest!: wf_of_trades [OF _ wf_offset] split: if_splits)
qed

lemma wf_step:
  assumes "mv_step op s = Inr s'" "list_all wf_trade (mv_trades s)" "list_all wf_trade (pushed [op])"
  shows "list_all wf_trade (mv_trades s')"
proof (cases op)
  case (Push t)
  with assms show ?thesis by (auto simp: push_trade_def Let_def dest!: wf_update split: if_splits)
next
  case (Get_ohlcv t)
  with assms show ?thesis using wf_moving_candle [of t s] by (auto dest!: res_map_InrD)
next
  case (Quote_volume t)
  with assms show ?thesis using wf_update [of t s] by (auto simp: get_quote_volume_def res_bind_Inr_iff dest!: res_map_InrD)
qed

lemma wf_run: "mv_run ops s = Inr s' \<Longrightarrow> list_all wf_trade (mv_trades s) \<Longrightarrow> list_all wf_trade (pushed ops) \<Longrightarrow>
    list_all wf_trade (mv_trades s')"
proof (induction ops arbitrary: s)
  case (Cons op ops)
  then obtain u where u: "mv_step op s = Inr u" "mv_run ops u = Inr s'" by (auto simp: res_bind_Inr_iff)
  have "list_all wf_trade (pushed [op])" "list_all wf_trade (pushed ops)" using Cons.prems(3) by (cases op; simp)+
  with u Cons.IH Cons.prems(2) wf_step [OF u(1)] show ?case by simp
qed simp

text \<open>
  The numbers of a candle are values of the format: those read from a row, those of a candle
  built from it and from trades of the format, and those of a moving candle after any use. No
  operation on the way leaves a number that binary64 does not have, also when it overflows,
  underflows or is not a number.
\<close>

lemma candle_numbers_in_format:
  assumes "ohlcv_from_csv_row row = Inr start" "list_all wf_trade trades" "list_all wf_trade (pushed ops)"
  shows "wf_candle start \<and>
    (case res_bind (feed_trades trades (create_ohlcv_from_trades start interval)) (ft_get_ohlcv t) of
       Inr (d, _) \<Rightarrow> wf_candle d | Inl _ \<Rightarrow> True) \<and>
    (case res_bind (mv_run ops (create_moving_candle width offset)) (mv_get_ohlcv t) of
       Inr (d, _) \<Rightarrow> wf_candle d | Inl _ \<Rightarrow> True)"
proof -
  have start: "wf_candle start" using assms(1) by (rule wf_row)
  then have b: "wf_builder (create_ohlcv_from_trades start interval)"
    by (simp add: wf_candle_def wf_builder_def create_ohlcv_from_trades_def)
  have m: "list_all wf_trade (mv_trades (create_moving_candle width offset))" by (simp add: create_moving_candle_def)
  have "wf_candle d" if "feed_trades trades (create_ohlcv_from_trades start interval) = Inr s" "ft_get_ohlcv t s = Inr (d, s')"
    for d s s' using wf_ft_candle [OF that(2) wf_feed [OF that(1) b assms(2)]] ..
  moreover have "wf_candle d" if "mv_run ops (create_moving_candle width offset) = Inr s" "mv_get_ohlcv t s = Inr (d, s')"
    for d s s' using wf_moving_candle [OF that(2) wf_run [OF that(1) m assms(3)]] ..
  ultimately show ?thesis using start by (auto split: sum.split simp: res_bind_Inr_iff)
qed

lemma candle_numbers_in_format_example:
  "let start = \<lparr>oh_timeStamp = 60, oh_open = lit (1 / 10), oh_high = lit (3 / 10), oh_low = lit (1 / 10),
         oh_close = lit (2 / 10), oh_volume = Fin 4\<rparr>;
       trades = [\<lparr>tu_timeStamp = 90, tu_price = lit (2 / 3), tu_volume = PInf\<rparr>]
   in ohlcv_from_csv_row \<lparr>row_cells = [''60'', ''0.1'', ''0.3'', ''0.1'', ''0.2'', ''4'']\<rparr> = Inr start \<and>
     wf_candle start \<and>
     (case res_bind (feed_trades trades (create_ohlcv_from_trades start 60)) (ft_get_ohlcv 100) of
       Inr (d, _) \<Rightarrow> wf_candle d \<and> oh_high d = lit (2 / 3) \<and> oh_volume d = PInf | Inl _ \<Rightarrow> False)"
proof -
  let ?start = "\<lparr>oh_timeStamp = 60, oh_open = lit (1 / 10), oh_high = lit (3 / 10), oh_low = lit (1 / 10),
    oh_close = lit (2 / 10), oh_volume = Fin 4\<rparr>"
  let ?trades = "[\<lparr>tu_timeStamp = 90, tu_price = lit (2 / 3), tu_volume = PInf\<rparr>]"
  let ?row = "\<lparr>row_cells = [''60'', ''0.1'', ''0.3'', ''0.1'', ''0.2'', ''4'']\<rparr>"
  let ?run = "res_bind (feed_trades ?trades (create_ohlcv_from_trades ?start 60)) (ft_get_ohlcv 100)"
  have r: "ohlcv_from_csv_row ?row = Inr ?start" by code_simp
  have "list_all wf_trade ?trades" by (simp add: wf_trade_def formats)
  then have "wf_candle ?start \<and> (case ?run of Inr (d, _) \<Rightarrow> wf_candle d | Inl _ \<Rightarrow> True)"
    using candle_numbers_in_format [OF r, of ?trades "[]" 60 100 0 0] by simp
  moreover have "case ?run of Inr (d, _) \<Rightarrow> oh_high d = lit (2 / 3) \<and> oh_volume d = PInf | Inl _ \<Rightarrow> False"
    by code_simp
  ultimately show ?thesis using r by (cases ?run) (auto simp: Let_def)
qed

end
