(* ===== verification/Iterators.thy ===== *)
theory Iterators
  imports StringUtils
begin

text \<open>
  \<^verbatim>\<open>common/types/basic_iterator.h\<close>, the iterators of a document of rows
  (\<^verbatim>\<open>common/csv/csv.cpp\<close>) and \<^verbatim>\<open>common/types/partial_data_result.h\<close>. The lemma shows
  that a loop from the first to the last iterator visits the rows in order.
\<close>

text \<open>An iterator of a vector: the items, and the position it points to.\<close>

record 'a basic_iterator =
  bi_items :: "'a list"
  bi_position :: nat

definition iterator_increment :: "'a basic_iterator \<Rightarrow> 'a basic_iterator" where
  "iterator_increment i = i\<lparr>bi_position := bi_position i + 1\<rparr>"

definition iterator_not_equal :: "'a basic_iterator \<Rightarrow> 'a basic_iterator \<Rightarrow> bool" where
  "iterator_not_equal i j = (bi_position i \<noteq> bi_position j)"

definition iterator_item :: "'a basic_iterator \<Rightarrow> 'a res" where
  "iterator_item i = (if bi_position i < length (bi_items i) then Inr (bi_items i ! bi_position i)
     else Inl (Undefined_behaviour ''iterator past the end''))"

definition csv_begin :: "csv_document \<Rightarrow> csv_row basic_iterator" where
  "csv_begin doc = \<lparr>bi_items = doc_rows doc, bi_position = 0\<rparr>"

definition csv_end :: "csv_document \<Rightarrow> csv_row basic_iterator" where
  "csv_end doc = \<lparr>bi_items = doc_rows doc, bi_position = length (doc_rows doc)\<rparr>"

text \<open>A loop from one iterator to another, of at most \<open>n\<close> steps.\<close>

fun iterate_range :: "nat \<Rightarrow> 'a basic_iterator \<Rightarrow> 'a basic_iterator \<Rightarrow> 'a list res option" where
  "iterate_range 0 i end_iterator = None"
| "iterate_range (Suc n) i end_iterator =
     (if \<not> iterator_not_equal i end_iterator then Some (Inr [])
      else (case iterator_item i of
          Inl e \<Rightarrow> Some (Inl e)
        | Inr x \<Rightarrow> map_option (res_map ((#) x)) (iterate_range n (iterator_increment i) end_iterator)))"

lemma iterate_from:
  "k \<le> length xs \<Longrightarrow> length xs - k < n \<Longrightarrow>
    iterate_range n \<lparr>bi_items = xs, bi_position = k\<rparr> \<lparr>bi_items = xs, bi_position = length xs\<rparr> = Some (Inr (drop k xs))"
proof (induction n arbitrary: k)
  case (Suc n)
  show ?case
  proof (cases "k = length xs")
    case False
    with Suc.prems have "k < length xs" by simp
    with Suc.IH [of "k + 1"] Suc.prems show ?thesis
      by (simp add: iterator_not_equal_def iterator_item_def iterator_increment_def Cons_nth_drop_Suc)
  qed (simp add: iterator_not_equal_def)
qed simp

text \<open>The loop ends, and sees every row once.\<close>

lemma csv_range_rows:
  "row_count doc < n \<Longrightarrow> iterate_range n (csv_begin doc) (csv_end doc) = Some (Inr (doc_rows doc))"
  using iterate_from [of 0 "doc_rows doc" n] by (simp add: csv_begin_def csv_end_def row_count_def)

record ('d, 'i) partial_data_result =
  pd_data :: "'d list"
  pd_id :: 'i

end
