(* ===== verification/Files.thy ===== *)
theory Files
  imports Configs
begin

text \<open>
  \<^verbatim>\<open>common/file/file.cpp\<close>, \<^verbatim>\<open>common/file/file.h\<close> and the files of rows of
  \<^verbatim>\<open>common/csv/csv.h\<close> on a map from paths to contents. Which files the system lets the
  program open, and the text of an error, are parameters. The lemmas show what a file holds
  after it is written several times, and that a file that cannot be opened reads as an empty one.
\<close>

section \<open>Handlers\<close>

datatype open_mode = FOR_READING | FOR_APPENDING | FOR_BOTH

record file_handler =
  fh_path :: string
  fh_mode :: open_mode
  fh_open :: bool
  fh_good :: bool

text \<open>
  A stream opens a file that is there; only for appending it creates one that is not. A stream
  that could not be opened is not good.
\<close>

definition create_file_handler ::
    "(string \<Rightarrow> open_mode \<Rightarrow> bool) \<Rightarrow> string \<Rightarrow> open_mode \<Rightarrow> (file_system, file_handler) action" where
  "create_file_handler permits path openMode fs =
     (let opened = permits path openMode \<and> (openMode = FOR_APPENDING \<or> fs path \<noteq> None)
      in (Inr \<lparr>fh_path = path, fh_mode = openMode, fh_open = opened, fh_good = opened\<rparr>,
          if opened \<and> fs path = None then fs(path \<mapsto> []) else fs))"

definition file_handler_read :: "(string \<Rightarrow> open_mode \<Rightarrow> bool) \<Rightarrow> string \<Rightarrow> (file_system, file_handler) action" where
  "file_handler_read permits path = create_file_handler permits path FOR_READING"

definition file_handler_write :: "(string \<Rightarrow> open_mode \<Rightarrow> bool) \<Rightarrow> string \<Rightarrow> (file_system, file_handler) action" where
  "file_handler_write permits path = create_file_handler permits path FOR_APPENDING"

definition file_handler_read_write :: "(string \<Rightarrow> open_mode \<Rightarrow> bool) \<Rightarrow> string \<Rightarrow> (file_system, file_handler) action" where
  "file_handler_read_write permits path = create_file_handler permits path FOR_BOTH"

text \<open>The stream is closed; closing one that is not open only marks it as bad.\<close>

definition file_handler_destroy :: "file_handler \<Rightarrow> file_handler" where
  "file_handler_destroy h = (if fh_open h then h\<lparr>fh_open := False\<rparr> else h\<lparr>fh_good := False\<rparr>)"

text \<open>The stream moves to the new handler, and the old one has none.\<close>

definition file_handler_move :: "file_handler \<Rightarrow> file_handler \<times> file_handler" where
  "file_handler_move other = (other, other\<lparr>fh_open := False\<rparr>)"

text \<open>The stream held before is closed.\<close>

definition file_handler_move_assign :: "file_handler \<Rightarrow> file_handler \<Rightarrow> file_handler \<times> file_handler" where
  "file_handler_move_assign h other = (other, other\<lparr>fh_open := False\<rparr>)"

text \<open>Output of a stream opened to append, and all that is left to read of one opened to read.\<close>

definition put_text :: "string \<Rightarrow> file_handler \<Rightarrow> (file_system, file_handler) action" where
  "put_text content h fs =
     (if fh_open h \<and> fh_good h \<and> fh_mode h = FOR_APPENDING
      then (Inr h, fs(fh_path h \<mapsto> (case fs (fh_path h) of None \<Rightarrow> [] | Some old \<Rightarrow> old) @ content))
      else (Inr (h\<lparr>fh_good := False\<rparr>), fs))"

definition get_text :: "file_handler \<Rightarrow> file_system \<Rightarrow> string" where
  "get_text h fs = (if fh_open h then (case fs (fh_path h) of None \<Rightarrow> [] | Some content \<Rightarrow> content) else [])"

section \<open>Files\<close>

definition read_file ::
    "string \<Rightarrow> (string \<Rightarrow> open_mode \<Rightarrow> bool) \<Rightarrow> string \<Rightarrow> (file_system, string) action" where
  "read_file strerror permits path =
     act_bind (file_handler_read permits path) (\<lambda>handler.
     act_bind (act_read (get_text handler)) (\<lambda>contents.
     if fh_good handler then act_return contents else act_throw (Mb_exception strerror)))"

definition append_to_file ::
    "string \<Rightarrow> (string \<Rightarrow> open_mode \<Rightarrow> bool) \<Rightarrow> string \<Rightarrow> string \<Rightarrow> (file_system, unit) action" where
  "append_to_file strerror permits path content =
     act_bind (file_handler_write permits path) (\<lambda>handler.
     act_bind (put_text content handler) (\<lambda>handler.
     if fh_good handler then act_return () else act_throw (Mb_exception strerror)))"

text \<open>The callback is given the lines one after the other, and may throw.\<close>

definition stream_file ::
    "(string \<Rightarrow> open_mode \<Rightarrow> bool) \<Rightarrow> string \<Rightarrow> (string \<Rightarrow> 'a \<Rightarrow> 'a res) \<Rightarrow> 'a \<Rightarrow> (file_system, 'a) action" where
  "stream_file permits path onNewLine start =
     act_bind (file_handler_read permits path) (\<lambda>handler.
     act_res (\<lambda>fs. foldl (\<lambda>r line. res_bind r (onNewLine line)) (Inr start) (getline_segs (CHR 0x0A) (get_text handler fs))))"

definition read_csv_file ::
    "(csv_row \<Rightarrow> 'a res) \<Rightarrow> ('s \<Rightarrow> 'a \<Rightarrow> bool \<times> 's) \<Rightarrow> 's \<Rightarrow> (string \<Rightarrow> open_mode \<Rightarrow> bool) \<Rightarrow> string \<Rightarrow>
     (file_system, 'a list) action" where
  "read_csv_file from_row sel st permits path =
     act_bind (stream_file permits path (\<lambda>line (items, st).
         res_bind (from_row (parse_row line)) (\<lambda>item.
         let (keep, st) = sel st item in Inr (if keep then items @ [item] else items, st))) ([], st))
       (\<lambda>(items, st). act_return items)"

text \<open>Nobody looks whether the rows were written.\<close>

fun put_rows :: "('a \<Rightarrow> csv_row) \<Rightarrow> 'a list \<Rightarrow> file_handler \<Rightarrow> (file_system, unit) action" where
  "put_rows to_row [] handler = act_return ()"
| "put_rows to_row (datum # data) handler =
     act_bind (put_text (csv_to_string (to_row datum) @ [CHR 0x0A]) handler) (put_rows to_row data)"

definition write_to_csv_file ::
    "('a \<Rightarrow> csv_row) \<Rightarrow> (string \<Rightarrow> open_mode \<Rightarrow> bool) \<Rightarrow> string \<Rightarrow> 'a list \<Rightarrow> string list \<Rightarrow> (file_system, unit) action" where
  "write_to_csv_file to_row permits path data headers =
     act_bind (file_handler_write permits path) (\<lambda>handler.
     act_bind (if headers \<noteq> [] then put_text (csv_to_string \<lparr>row_cells = headers\<rparr> @ [CHR 0x0A]) handler
         else act_return handler)
       (put_rows to_row data))"

section \<open>What files hold\<close>

abbreviation content_of :: "file_system \<Rightarrow> string \<Rightarrow> string" where
  "content_of fs path \<equiv> (case fs path of None \<Rightarrow> [] | Some content \<Rightarrow> content)"

text \<open>What the configurations rely on: a file that may be opened is written to its end.\<close>

lemma append_to_file_writes:
  "permits path FOR_APPENDING \<Longrightarrow> append_to_file strerror permits path content fs = (Inr (), write_to_file path content fs)"
  by (auto simp: append_to_file_def file_handler_write_def create_file_handler_def put_text_def write_to_file_def
      act_simps Let_def split: option.split)

lemma append_to_file_fails:
  "\<not> permits path FOR_APPENDING \<Longrightarrow> append_to_file strerror permits path content fs = (Inl (Mb_exception strerror), fs)"
  by (simp add: append_to_file_def file_handler_write_def create_file_handler_def put_text_def act_simps Let_def)

lemma read_file_result:
  "read_file strerror permits path fs =
     (if permits path FOR_READING \<and> fs path \<noteq> None then Inr (content_of fs path) else Inl (Mb_exception strerror), fs)"
  by (auto simp: read_file_def file_handler_read_def create_file_handler_def get_text_def act_simps Let_def)

text \<open>A file that cannot be opened streams no line, and nothing is thrown.\<close>

lemma stream_unopened: "\<not> (permits path FOR_READING \<and> fs path \<noteq> None) \<Longrightarrow> stream_file permits path f a fs = (Inr a, fs)"
  by (auto simp: stream_file_def file_handler_read_def create_file_handler_def get_text_def act_simps Let_def)

lemma stream_opened:
  "permits path FOR_READING \<Longrightarrow> fs path = Some content \<Longrightarrow> stream_file permits path f a fs =
    (foldl (\<lambda>r line. res_bind r (f line)) (Inr a) (getline_segs (CHR 0x0A) content), fs)"
  by (simp add: stream_file_def file_handler_read_def create_file_handler_def get_text_def act_simps Let_def)

lemma foldl_Inl: "foldl (\<lambda>r line. res_bind r (f line)) (Inl e) lines = Inl e"
  by (induction lines) simp_all

lemma read_loop:
  "res_map fst (foldl (\<lambda>r line. res_bind r (\<lambda>(items, st). res_bind (from_row (parse_row line)) (\<lambda>item.
       let (keep, st) = sel st item in Inr (if keep then items @ [item] else items, st)))) (Inr (acc, st)) lines) =
   res_map ((@) acc) (read_csv_lines from_row sel st lines)"
proof (induction lines arbitrary: acc st)
  case (Cons line lines)
  show ?case
  proof (cases "from_row (parse_row line)")
    case (Inl e)
    then show ?thesis using foldl_Inl [of "\<lambda>line (items, st). res_bind (from_row (parse_row line)) (\<lambda>item.
        let (keep, st) = sel st item in Inr (if keep then items @ [item] else items, st))" e lines] by simp
  next
    case (Inr item)
    obtain keep st' where k: "sel st item = (keep, st')" by (cases "sel st item")
    show ?thesis using Inr k Cons.IH [of "if keep then acc @ [item] else acc" st']
      by (cases "read_csv_lines from_row sel st' lines") (simp_all split: if_splits)
  qed
qed simp

text \<open>Reading a file is reading its lines, those of a file that is not there being none.\<close>

lemma read_csv_file_lines:
  "read_csv_file from_row sel st permits path fs =
     (read_csv_lines from_row sel st (getline_segs (CHR 0x0A) (if permits path FOR_READING then content_of fs path else [])), fs)"
proof (cases "permits path FOR_READING \<and> fs path \<noteq> None")
  case True
  then obtain content where c: "permits path FOR_READING" "fs path = Some content" by auto
  let ?f = "\<lambda>line (items, st). res_bind (from_row (parse_row line)) (\<lambda>item.
    let (keep, st) = sel st item in Inr (if keep then items @ [item] else items, st))"
  have l: "res_map fst (foldl (\<lambda>r line. res_bind r (?f line)) (Inr ([], st)) (getline_segs (CHR 0x0A) content)) =
      read_csv_lines from_row sel st (getline_segs (CHR 0x0A) content)"
    unfolding read_loop by (cases "read_csv_lines from_row sel st (getline_segs (CHR 0x0A) content)") simp_all
  have "read_csv_file from_row sel st permits path fs =
      (res_map fst (foldl (\<lambda>r line. res_bind r (?f line)) (Inr ([], st)) (getline_segs (CHR 0x0A) content)), fs)"
    unfolding read_csv_file_def act_bind_def stream_opened [of permits path fs, OF c]
    by (auto simp: act_return_def split: sum.split)
  then show ?thesis unfolding l using c by simp
next
  case False
  then show ?thesis by (auto simp: read_csv_file_def stream_unopened act_simps)
qed

section \<open>Round trip\<close>

lemma put_rows_writes:
  "fh_open h \<Longrightarrow> fh_good h \<Longrightarrow> fh_mode h = FOR_APPENDING \<Longrightarrow> fs (fh_path h) \<noteq> None \<Longrightarrow>
    put_rows to_row data h fs = (Inr (), write_to_file (fh_path h) (write_csv_lines to_row data []) fs)"
  by (induction data arbitrary: fs)
    (auto simp: put_text_def write_to_file_def write_csv_lines_def act_simps fun_upd_idem split: option.split)

lemma write_to_csv_file_writes:
  assumes "permits path FOR_APPENDING"
  shows "write_to_csv_file to_row permits path data headers fs =
    (Inr (), write_to_file path (write_csv_lines to_row data headers) fs)"
proof -
  define h where "h = \<lparr>fh_path = path, fh_mode = FOR_APPENDING, fh_open = True, fh_good = True\<rparr>"
  define fs0 where "fs0 = (if fs path = None then fs(path \<mapsto> []) else fs)"
  have w: "file_handler_write permits path fs = (Inr h, fs0)"
    using assms by (simp add: file_handler_write_def create_file_handler_def h_def fs0_def Let_def)
  have "fs0 path \<noteq> None" by (simp add: fs0_def)
  then have p: "put_rows to_row data h g = (Inr (), write_to_file path (write_csv_lines to_row data []) g)"
    if "g path \<noteq> None" for g using put_rows_writes [of h g to_row data] that by (simp add: h_def)
  show ?thesis
    by (cases "headers = []"; cases "fs path")
      (simp_all add: write_to_csv_file_def act_bind_def act_return_def w put_text_def p fs0_def,
       simp_all add: h_def fs0_def p write_to_file_def write_csv_lines_def)
qed

text \<open>A row that is read as it was written, whatever stands in the cells.\<close>

definition readable :: "(csv_row \<Rightarrow> 'a res) \<Rightarrow> ('a \<Rightarrow> csv_row) \<Rightarrow> 'a \<Rightarrow> bool" where
  "readable from_row to_row x \<longleftrightarrow> from_row (to_row x) = Inr x \<and> row_cells (to_row x) \<noteq> [] \<and>
     list_all (\<lambda>c. {CHR '','', CHR 0x0A, CHR 0x00} \<inter> set c = {}) (row_cells (to_row x))"

lemma readable_line:
  assumes "readable from_row to_row x"
  shows "CHR 0x0A \<notin> set (csv_to_string (to_row x))" "from_row (parse_row (csv_to_string (to_row x))) = Inr x"
proof -
  obtain cells where c: "to_row x = \<lparr>row_cells = cells\<rparr>" by (metis csv_row.cases)
  show "CHR 0x0A \<notin> set (csv_to_string (to_row x))"
    using assms csv_to_string_chars [of "CHR 0x0A" cells] by (auto simp: readable_def c list_all_iff)
  have "parse_row (csv_to_string (to_row x)) = to_row x"
    unfolding c by (rule csv_row_roundtrip) (use assms in \<open>auto simp: readable_def c list_all_iff\<close>)
  with assms show "from_row (parse_row (csv_to_string (to_row x))) = Inr x" by (simp add: readable_def)
qed

lemma read_written:
  "list_all (readable from_row to_row) data \<Longrightarrow>
    read_csv_lines from_row (\<lambda>_ _. (True, ())) () (getline_segs (CHR 0x0A) (write_csv_lines to_row data [])) = Inr data"
proof (induction data)
  case (Cons x data)
  then have "getline_segs (CHR 0x0A) (write_csv_lines to_row (x # data) []) =
      csv_to_string (to_row x) # getline_segs (CHR 0x0A) (write_csv_lines to_row data [])"
    using readable_line(1) [of from_row to_row x] by (simp add: write_csv_lines_def getline_segs_step)
  with Cons readable_line(2) [of from_row to_row x] show ?case by simp
qed (simp add: write_csv_lines_def)

text \<open>
  C33: rows written to a new file, by one call and later by another, are read back as all that
  was written, in order: the second call adds to the file. This needs cells without separators,
  and rows that are read from what they are written as.
\<close>

theorem csv_file_roundtrip:
  assumes "permits path FOR_READING" "permits path FOR_APPENDING" "fs path = None"
    and "list_all (readable from_row to_row) (data @ later)"
    and "fs' = snd (write_to_csv_file to_row permits path later [] (snd (write_to_csv_file to_row permits path data [] fs)))"
  shows "fst (read_csv_file from_row (\<lambda>_ _. (True, ())) () permits path fs') = Inr (data @ later)"
proof -
  have "content_of fs' path = write_csv_lines to_row (data @ later) []"
    using assms(3,5) by (simp add: write_to_csv_file_writes [where permits = permits, OF assms(2)] write_to_file_def
        write_csv_lines_def)
  with assms(1,4) read_written show ?thesis by (simp only: read_csv_file_lines if_True fst_conv)
qed

theorem csv_file_roundtrip_witness:
  "let permits = (\<lambda>_ _. True); to_row = (\<lambda>s. \<lparr>row_cells = [s, ''x'']\<rparr>); from_row = (\<lambda>row. csv_get_cell row 0);
       fs' = snd (write_to_csv_file to_row permits ''log'' [''c''] []
         (snd (write_to_csv_file to_row permits ''log'' [''a'', ''b''] [] Map.empty)))
   in fst (read_csv_file from_row (\<lambda>_ _. (True, ())) () permits ''log'' fs') = Inr [''a'', ''b'', ''c'']"
proof -
  have "list_all (readable (\<lambda>row. csv_get_cell row 0) (\<lambda>s. \<lparr>row_cells = [s, ''x'']\<rparr>)) ([''a'', ''b''] @ [''c''])"
    by (simp add: readable_def csv_get_cell_def read_at_def)
  from csv_file_roundtrip [where permits = "\<lambda>_ _. True" and path = "''log''" and fs = Map.empty, OF _ _ _ this refl]
  show ?thesis by (simp add: Let_def)
qed

end
