(* ===== verification/Host.thy ===== *)
theory Host
  imports Requests
begin

text \<open>
  What the program asks of the machine: the hashes of \<^verbatim>\<open>common/security/hash.h\<close> and the
  encoder of \<^verbatim>\<open>common/security/encoding.h\<close>, the synchronisation of the clock
  (\<^verbatim>\<open>runner/system/time_synchronization.cpp\<close>), the directory of the program
  (\<^verbatim>\<open>common/file/local_directory.cpp\<close>), the formatting of times
  (\<^verbatim>\<open>common/utils/timeutils.cpp\<close>) and the sinks of the logger (\<^verbatim>\<open>logging\<close>). The
  libraries and the system calls are parameters.
\<close>

section \<open>Hashes\<close>

datatype hash_algorithm = EVP_sha256 | EVP_sha512

record openssl =
  os_context :: bool
  os_hmac :: "hash_algorithm \<Rightarrow> string \<Rightarrow> string \<Rightarrow> string"
  os_sha256 :: "string \<Rightarrow> string"
  os_sha512 :: "string \<Rightarrow> string"
  os_base64 :: "string \<Rightarrow> string"

text \<open>A digest is written into a vector of zeros that has to be long enough for it.\<close>

definition hash_vector :: "nat \<Rightarrow> string \<Rightarrow> string res" where
  "hash_vector len digest =
     (if len < length digest then Inl (Undefined_behaviour ''write past the end'')
      else Inr (digest @ replicate (len - length digest) (CHR 0x00)))"

definition hmac :: "openssl \<Rightarrow> string \<Rightarrow> string \<Rightarrow> hash_algorithm \<Rightarrow> nat \<Rightarrow> string res" where
  "hmac ssl source key hashAlgorithm len =
     (if \<not> os_context ssl then Inl (Runtime_error ''cannot create HMAC_CTX'')
      else hash_vector len (os_hmac ssl hashAlgorithm key source))"

definition sha256 :: "openssl \<Rightarrow> string \<Rightarrow> string res" where
  "sha256 ssl input = hash_vector 32 (os_sha256 ssl input)"

definition sha512 :: "openssl \<Rightarrow> string \<Rightarrow> string res" where
  "sha512 ssl input = hash_vector 64 (os_sha512 ssl input)"

definition hmac_sha512 :: "openssl \<Rightarrow> string \<Rightarrow> string \<Rightarrow> string res" where
  "hmac_sha512 ssl input key = hmac ssl input key EVP_sha512 (512 div 8)"

definition hmac_sha256 :: "openssl \<Rightarrow> string \<Rightarrow> string \<Rightarrow> string res" where
  "hmac_sha256 ssl input key = hmac ssl input key EVP_sha256 (256 div 8)"

definition b64_encode :: "openssl \<Rightarrow> string \<Rightarrow> string" where
  "b64_encode ssl input = os_base64 ssl input"

text \<open>The digests have the lengths their names say.\<close>

definition standard_lengths :: "openssl \<Rightarrow> bool" where
  "standard_lengths ssl \<longleftrightarrow> (\<forall>x. length (os_sha256 ssl x) = 32 \<and> length (os_sha512 ssl x) = 64) \<and>
     (\<forall>k x. length (os_hmac ssl EVP_sha256 k x) = 32 \<and> length (os_hmac ssl EVP_sha512 k x) = 64)"

lemma hashes_exact:
  "standard_lengths ssl \<Longrightarrow> os_context ssl \<Longrightarrow>
    hmac_sha256 ssl x k = Inr (os_hmac ssl EVP_sha256 k x) \<and> hmac_sha512 ssl x k = Inr (os_hmac ssl EVP_sha512 k x) \<and>
    sha256 ssl x = Inr (os_sha256 ssl x) \<and> sha512 ssl x = Inr (os_sha512 ssl x)"
  by (simp add: standard_lengths_def hmac_sha256_def hmac_sha512_def hmac_def sha256_def sha512_def hash_vector_def)

text \<open>Without a context the exception is one the runners do not catch.\<close>

lemma no_context_not_caught:
  "\<not> os_context ssl \<Longrightarrow> \<exists>e. hmac_sha256 ssl x k = Inl e \<and> \<not> is_mb_exception e \<and> \<not> is_undefined e"
  by (simp add: hmac_sha256_def hmac_def)

text \<open>The environment of a request takes its hashes from the library.\<close>

definition hashing_env :: "openssl \<Rightarrow> 'w http_env \<Rightarrow> bool" where
  "hashing_env ssl env \<longleftrightarrow>
     (\<forall>x k. hmac_sha256 ssl x k = Inr (he_hmac_sha256 env x k) \<and> hmac_sha512 ssl x k = Inr (he_hmac_sha512 env x k)) \<and>
     (\<forall>x. sha256 ssl x = Inr (he_sha256 env x) \<and> b64_encode ssl x = he_b64_encode env x)"

lemma hashing_env_exists:
  "standard_lengths ssl \<Longrightarrow> os_context ssl \<Longrightarrow> hashing_env ssl
    (env\<lparr>he_hmac_sha256 := \<lambda>x k. os_hmac ssl EVP_sha256 k x, he_hmac_sha512 := \<lambda>x k. os_hmac ssl EVP_sha512 k x,
      he_sha256 := os_sha256 ssl, he_b64_encode := os_base64 ssl\<rparr>)"
  using hashes_exact [of ssl] by (auto simp: hashing_env_def b64_encode_def)

section \<open>The log\<close>

text \<open>The console gets every message, the file, empty at the start, errors only.\<close>

datatype log_level = INFO_LEVEL | WARN_LEVEL | ERROR_LEVEL | CRITICAL_LEVEL

record logger =
  lg_console :: "(log_level \<times> string) list"
  lg_file :: "(log_level \<times> string) list"

definition init_logger :: logger where
  "init_logger = \<lparr>lg_console = [], lg_file = []\<rparr>"

definition log_message :: "log_level \<Rightarrow> string \<Rightarrow> logger \<Rightarrow> logger" where
  "log_message severity message l = l\<lparr>lg_console := lg_console l @ [(severity, message)],
     lg_file := lg_file l @ (if severity = ERROR_LEVEL \<or> severity = CRITICAL_LEVEL then [(severity, message)] else [])\<rparr>"

definition log_info :: "string \<Rightarrow> logger \<Rightarrow> logger" where
  "log_info = log_message INFO_LEVEL"

definition log_warning :: "string \<Rightarrow> logger \<Rightarrow> logger" where
  "log_warning = log_message WARN_LEVEL"

definition log_error :: "string \<Rightarrow> logger \<Rightarrow> logger" where
  "log_error = log_message ERROR_LEVEL"

definition log_critical :: "string \<Rightarrow> logger \<Rightarrow> logger" where
  "log_critical = log_message CRITICAL_LEVEL"

lemma log_file_errors:
  "lg_file (fold (\<lambda>(severity, message). log_message severity message) ms init_logger) =
    filter (\<lambda>m. fst m = ERROR_LEVEL \<or> fst m = CRITICAL_LEVEL) ms"
proof -
  have "lg_file (fold (\<lambda>(severity, message). log_message severity message) ms l) =
      lg_file l @ filter (\<lambda>m. fst m = ERROR_LEVEL \<or> fst m = CRITICAL_LEVEL) ms" for l
    by (induction ms arbitrary: l) (auto simp: log_message_def split: prod.split)
  then show ?thesis by (simp add: init_logger_def)
qed

section \<open>The clock\<close>

text \<open>
  On Windows the service is asked by a process of its own: whether it could be created, and the
  code it ended with. Elsewhere nothing is done.
\<close>

definition sync_time_windows :: "int option \<Rightarrow> bool" where
  "sync_time_windows process = (case process of None \<Rightarrow> False | Some error \<Rightarrow> error = 0)"

definition sync_time :: bool where
  "sync_time = False"

text \<open>The clock of the threads in seconds, the attempts made and the log.\<close>

record sync_state =
  sy_now :: int
  sy_attempts :: nat
  sy_log :: logger

definition run_on_interval :: "bool \<Rightarrow> sync_state \<Rightarrow> sync_state" where
  "run_on_interval synced s =
     s\<lparr>sy_log := (if synced then log_info ''Local machine time synced successfully''
          else log_warning ''Machine time could not be synchronized'') (log_info ''Syncing local machine time...'' (sy_log s)),
       sy_attempts := sy_attempts s + 1, sy_now := sy_now s + 1024\<rparr>"

text \<open>The thread of a synchronizer, started with it, and joined when it is destroyed at \<open>time\<close>.\<close>

definition create_time_synchronizer :: "bool \<Rightarrow> sync_state \<Rightarrow> sync_state" where
  "create_time_synchronizer synced s = run_on_interval synced s"

definition destroy_time_synchronizer :: "int \<Rightarrow> sync_state \<Rightarrow> int" where
  "destroy_time_synchronizer time syncThread = max time (sy_now syncThread)"

text \<open>
  However long the program runs the clock is synchronised once, and the destructor waits until
  1024 seconds after the start.
\<close>

lemma synchronised_once:
  "sy_attempts (create_time_synchronizer synced s) = sy_attempts s + 1 \<and>
    destroy_time_synchronizer time (create_time_synchronizer synced s) = max time (sy_now s + 1024)"
  by (simp add: create_time_synchronizer_def run_on_interval_def destroy_time_synchronizer_def)

text \<open>Seconds since the epoch; a time is formatted into fifty bytes.\<close>

definition time_since_epoch :: "int \<Rightarrow> int \<Rightarrow> int" where
  "time_since_epoch ticks duration = ticks sdiv duration"

definition now_t :: "int \<Rightarrow> time_t" where
  "now_t nanoseconds = nanoseconds sdiv 1000000000"

definition to_time_t :: "(string \<Rightarrow> string \<Rightarrow> 'tm) \<Rightarrow> ('tm \<Rightarrow> time_t) \<Rightarrow> string \<Rightarrow> string \<Rightarrow> time_t" where
  "to_time_t parse_time mktime dateTime fmt = mktime (parse_time (c_str dateTime) (c_str fmt))"

definition time_to_string :: "(string \<Rightarrow> 'tm \<Rightarrow> string) \<Rightarrow> (time_t \<Rightarrow> 'tm) \<Rightarrow> time_t \<Rightarrow> string \<Rightarrow> string res" where
  "time_to_string strftime localtime time fmt =
     (let buffer = strftime (c_str fmt) (localtime time)
      in if length buffer < 50 then Inr (c_str buffer) else Inl (Undefined_behaviour ''indeterminate buffer''))"

section \<open>The directory of the program\<close>

text \<open>On Windows it is empty; elsewhere the path of the executable up to its last separator.\<close>

definition get_local_directory_windows :: string where
  "get_local_directory_windows = []"

definition get_local_directory :: "string option \<Rightarrow> string" where
  "get_local_directory executablePath = (case executablePath of
       None \<Rightarrow> []
     | Some path \<Rightarrow> rev (dropWhile (\<lambda>c. c \<noteq> CHR ''/'') (rev path)))"

text \<open>\<^verbatim>\<open>path::append\<close> of a relative path.\<close>

definition path_append :: "string \<Rightarrow> string \<Rightarrow> string" where
  "path_append path name = path @ (if path = [] \<or> List.last path = CHR ''/'' then [] else ''/'') @ name"

definition get_config_directory :: "string \<Rightarrow> string" where
  "get_config_directory localDirectory = path_append localDirectory ''configs''"

definition create_config_directory_if_not_exist :: "string \<Rightarrow> string set \<Rightarrow> string set" where
  "create_config_directory_if_not_exist localDirectory directories =
     (let path = get_config_directory localDirectory
      in if path \<in> directories then directories else insert path directories)"

lemma local_directory_prefix:
  "\<exists>name. path = get_local_directory (Some path) @ name \<and> CHR ''/'' \<notin> set name"
proof -
  have "path = rev (dropWhile (\<lambda>c. c \<noteq> CHR ''/'') (rev path)) @ rev (takeWhile (\<lambda>c. c \<noteq> CHR ''/'') (rev path))"
    by (metis rev_append rev_rev_ident takeWhile_dropWhile_id)
  moreover have "CHR ''/'' \<notin> set (rev (takeWhile (\<lambda>c. c \<noteq> CHR ''/'') (rev path)))"
    by (auto dest: set_takeWhileD)
  ultimately show ?thesis by (auto simp: get_local_directory_def)
qed

text \<open>Beside the program, or in the working directory when the program does not know where it is.\<close>

lemma config_directory_beside:
  "get_config_directory (get_local_directory None) = ''configs''"
  "CHR ''/'' \<in> set path \<Longrightarrow> get_config_directory (get_local_directory (Some path)) = get_local_directory (Some path) @ ''configs''"
proof -
  show "get_config_directory (get_local_directory None) = ''configs''"
    by (simp add: get_config_directory_def path_append_def get_local_directory_def)
  assume "CHR ''/'' \<in> set path"
  then have n: "dropWhile (\<lambda>c. c \<noteq> CHR ''/'') (rev path) \<noteq> []" by (auto simp: dropWhile_eq_Nil_conv)
  then have "hd (dropWhile (\<lambda>c. c \<noteq> CHR ''/'') (rev path)) = CHR ''/''" using hd_dropWhile [OF n] by simp
  with n show "get_config_directory (get_local_directory (Some path)) = get_local_directory (Some path) @ ''configs''"
    by (simp add: get_config_directory_def path_append_def get_local_directory_def last_rev)
qed

end
