(* ===== verification/HttpTransfer.thy ===== *)
theory HttpTransfer
  imports Requests
begin

text \<open>
  \<^verbatim>\<open>http_service::send\<close> call by call: the options set on the handle, the list of headers the
  library allocates, the answer it delivers in pieces through \<^verbatim>\<open>write_callback\<close>, and the
  exception for each call that fails. The lemmas show that this implements \<open>http_send\<close>, that
  no freed list is used, and when a list is left behind.
\<close>

section \<open>The library\<close>

text \<open>
  What the curl library answers: whether it takes an option, whether it has memory for a header,
  and for a transfer the pieces it delivered, its error or none, and the code of the answer.
\<close>

datatype curl_option =
    OPT_WRITEFUNCTION | OPT_TIMEOUT_MS int | OPT_URL string | OPT_CUSTOMREQUEST string | OPT_WRITEDATA
  | OPT_POSTFIELDS string | OPT_HTTPHEADER "nat option"

record 'w curl_library =
  cl_setopt :: "curl_option \<Rightarrow> 'w \<Rightarrow> string option"
  cl_slist_append :: "string \<Rightarrow> 'w \<Rightarrow> bool"
  cl_perform :: "curl_request \<Rightarrow> 'w \<Rightarrow> (string list \<times> string option \<times> int) \<times> 'w"

text \<open>
  The handle keeps its options from one request to the next. The lists of headers are memory:
  the heads that are allocated, each with its lines.
\<close>

record 'w transfer =
  tr_url :: string
  tr_customRequest :: string
  tr_postFields :: string
  tr_headers :: "nat option"
  tr_timeout :: int
  tr_lists :: "nat \<rightharpoonup> string list"
  tr_nextList :: nat
  tr_readBuffer :: string
  tr_world :: 'w

definition apply_option :: "curl_option \<Rightarrow> 'w transfer \<Rightarrow> 'w transfer" where
  "apply_option opt s = (case opt of
       OPT_WRITEFUNCTION \<Rightarrow> s
     | OPT_TIMEOUT_MS timeout \<Rightarrow> s\<lparr>tr_timeout := timeout\<rparr>
     | OPT_URL url \<Rightarrow> s\<lparr>tr_url := url\<rparr>
     | OPT_CUSTOMREQUEST verb \<Rightarrow> s\<lparr>tr_customRequest := verb\<rparr>
     | OPT_WRITEDATA \<Rightarrow> s
     | OPT_POSTFIELDS body \<Rightarrow> s\<lparr>tr_postFields := body\<rparr>
     | OPT_HTTPHEADER chunk \<Rightarrow> s\<lparr>tr_headers := chunk\<rparr>)"

section \<open>The service\<close>

definition write_callback :: "string \<Rightarrow> string \<Rightarrow> nat \<times> string" where
  "write_callback piece readBuffer = (length piece, readBuffer @ piece)"

definition throw_if_error :: "string option \<Rightarrow> unit res" where
  "throw_if_error result = (case result of None \<Rightarrow> Inr () | Some error \<Rightarrow> Inl (http_error error))"

definition set_curl_option :: "'w curl_library \<Rightarrow> curl_option \<Rightarrow> ('w transfer, unit) action" where
  "set_curl_option lib opt =
     act_bind (act_res (\<lambda>s. throw_if_error (cl_setopt lib opt (tr_world s))))
       (\<lambda>_. act_modify (apply_option opt))"

text \<open>\<^verbatim>\<open>curl_slist_append\<close>: a null list is a new one; without memory the result is null.\<close>

definition slist_append :: "'w curl_library \<Rightarrow> nat option \<Rightarrow> string \<Rightarrow> ('w transfer, nat option) action" where
  "slist_append lib chunk line s =
     (if \<not> cl_slist_append lib line (tr_world s) then (Inr None, s)
      else case chunk of
          None \<Rightarrow> (Inr (Some (tr_nextList s)),
            s\<lparr>tr_lists := (tr_lists s)(tr_nextList s \<mapsto> [line]), tr_nextList := tr_nextList s + 1\<rparr>)
        | Some l \<Rightarrow> (case tr_lists s l of
              None \<Rightarrow> (Inl (Undefined_behaviour ''use after free''), s)
            | Some lines \<Rightarrow> (Inr (Some l), s\<lparr>tr_lists := (tr_lists s)(l \<mapsto> lines @ [line])\<rparr>)))"

fun append_headers ::
    "'w curl_library \<Rightarrow> nat option \<Rightarrow> http_header list \<Rightarrow> ('w transfer, nat option) action" where
  "append_headers lib chunk [] = act_return chunk"
| "append_headers lib chunk (header # headers) =
     act_bind (slist_append lib chunk (c_str (header_to_string header))) (\<lambda>chunk. append_headers lib chunk headers)"

text \<open>The library reads the list the option points to.\<close>

definition easy_perform :: "'w curl_library \<Rightarrow> ('w transfer, string option \<times> int) action" where
  "easy_perform lib s =
     (case (case tr_headers s of None \<Rightarrow> Some [] | Some l \<Rightarrow> tr_lists s l) of
        None \<Rightarrow> (Inl (Undefined_behaviour ''use after free''), s)
      | Some headers \<Rightarrow>
          (case cl_perform lib \<lparr>cq_verb = tr_customRequest s, cq_url = tr_url s, cq_fields = tr_postFields s,
               cq_headers = headers\<rparr> (tr_world s) of
             ((pieces, result), w) \<Rightarrow>
               (Inr result, s\<lparr>tr_readBuffer := foldl (\<lambda>buffer piece. snd (write_callback piece buffer)) (tr_readBuffer s) pieces,
                  tr_world := w\<rparr>)))"

definition slist_free_all :: "nat option \<Rightarrow> ('w transfer, unit) action" where
  "slist_free_all chunk s = (case chunk of
       None \<Rightarrow> (Inr (), s)
     | Some l \<Rightarrow> if tr_lists s l = None then (Inl (Undefined_behaviour ''double free''), s)
                else (Inr (), s\<lparr>tr_lists := (tr_lists s)(l := None)\<rparr>))"

definition service_init :: "'w curl_library \<Rightarrow> int \<Rightarrow> ('w transfer, unit) action" where
  "service_init lib timeout =
     act_seq (set_curl_option lib OPT_WRITEFUNCTION) (set_curl_option lib (OPT_TIMEOUT_MS timeout))"

definition service_send :: "'w curl_library \<Rightarrow> http_request \<Rightarrow> ('w transfer, http_response) action" where
  "service_send lib request =
     act_seq (act_modify (\<lambda>s. s\<lparr>tr_readBuffer := []\<rparr>))
    (act_seq (set_curl_option lib (OPT_URL (c_str (hq_url request))))
    (act_seq (set_curl_option lib (OPT_CUSTOMREQUEST (verb_to_string (hq_verb request))))
    (act_seq (set_curl_option lib OPT_WRITEDATA)
    (act_seq (set_curl_option lib (OPT_POSTFIELDS (c_str (hq_content request))))
    (act_bind (append_headers lib None (hq_headers request)) (\<lambda>chunk.
     act_seq (set_curl_option lib (OPT_HTTPHEADER chunk))
    (act_bind (easy_perform lib) (\<lambda>(result, responseCode).
     act_seq (slist_free_all chunk)
    (act_seq (act_res (\<lambda>_. throw_if_error result))
    (act_read (\<lambda>s. \<lparr>hr_responseCode = narrow32 responseCode, hr_message = tr_readBuffer s\<rparr>)))))))))))"

section \<open>What it implements\<close>

text \<open>The library as the environment of a request: an answer is its pieces put together.\<close>

definition perform_of :: "'w curl_library \<Rightarrow> curl_request \<Rightarrow> 'w \<Rightarrow> (string + int \<times> string) \<times> 'w" where
  "perform_of lib request w = (case cl_perform lib request w of
       ((pieces, Some error, code), w') \<Rightarrow> (Inl error, w')
     | ((pieces, None, code), w') \<Rightarrow> (Inr (code, concat pieces), w'))"

text \<open>The library takes every option and has memory.\<close>

definition accepting :: "'w curl_library \<Rightarrow> bool" where
  "accepting lib \<longleftrightarrow> (\<forall>opt w. cl_setopt lib opt w = None) \<and> (\<forall>line w. cl_slist_append lib line w)"

lemma pieces_concat: "foldl (\<lambda>buffer piece. snd (write_callback piece buffer)) b pieces = b @ concat pieces"
  by (induction pieces arbitrary: b) (simp_all add: write_callback_def)

lemma accepting_option: "accepting lib \<Longrightarrow> set_curl_option lib opt s = (Inr (), apply_option opt s)"
  by (simp add: set_curl_option_def accepting_def throw_if_error_def act_simps)

lemma append_headers_some:
  "accepting lib \<Longrightarrow> tr_lists s l = Some lines \<Longrightarrow> append_headers lib (Some l) headers s =
    (Inr (Some l), s\<lparr>tr_lists := (tr_lists s)(l \<mapsto> lines @ map (\<lambda>h. c_str (header_to_string h)) headers)\<rparr>)"
  by (induction headers arbitrary: s lines)
    (simp_all add: act_bind_def act_return_def slist_append_def accepting_def fun_upd_idem)

lemma append_headers_none:
  assumes "accepting lib"
  shows "append_headers lib None headers s = (if headers = [] then (Inr None, s)
    else (Inr (Some (tr_nextList s)), s\<lparr>tr_lists := (tr_lists s)(tr_nextList s \<mapsto> map (\<lambda>h. c_str (header_to_string h)) headers),
      tr_nextList := tr_nextList s + 1\<rparr>))"
  using assms append_headers_some [OF assms]
  by (cases headers) (simp_all add: act_bind_def act_return_def slist_append_def accepting_def)

text \<open>Lists are numbered in the order they are allocated.\<close>

definition lists_ok :: "'w transfer \<Rightarrow> bool" where
  "lists_ok s \<longleftrightarrow> (\<forall>l \<ge> tr_nextList s. tr_lists s l = None)"

text \<open>What is left on the handle by a request, when the list of its headers is freed.\<close>

definition after_send :: "http_request \<Rightarrow> string \<Rightarrow> 'w \<Rightarrow> 'w transfer \<Rightarrow> 'w transfer" where
  "after_send request buffer w s =
     (let some_headers = hq_headers request \<noteq> [] in
      s\<lparr>tr_readBuffer := buffer, tr_url := c_str (hq_url request),
        tr_customRequest := verb_to_string (hq_verb request), tr_postFields := c_str (hq_content request),
        tr_headers := (if some_headers then Some (tr_nextList s) else None),
        tr_nextList := (if some_headers then tr_nextList s + 1 else tr_nextList s), tr_world := w\<rparr>)"

lemma service_send_accepted:
  assumes "accepting lib" "lists_ok s"
    and "cl_perform lib (curl_of request) (tr_world s) = ((pieces, result, code), w)"
  shows "service_send lib request s =
    (case result of None \<Rightarrow> Inr \<lparr>hr_responseCode = narrow32 code, hr_message = concat pieces\<rparr>
       | Some error \<Rightarrow> Inl (http_error error), after_send request (concat pieces) w s)"
  using assms(2,3)
  by (cases "hq_headers request = []"; cases result)
    (simp_all add: service_send_def accepting_option [OF assms(1)] append_headers_none [OF assms(1)] apply_option_def
      easy_perform_def slist_free_all_def throw_if_error_def curl_of_def lists_ok_def after_send_def pieces_concat
      act_simps fun_upd_idem Let_def)

text \<open>
  C17: as long as the library takes the options and has memory, a request is sent as the model
  of the exchanges has it, however the library cuts the answer into pieces: the same bytes go
  out, the result is the same, the world ends up the same, and every list allocated for the
  headers is freed.
\<close>

theorem service_send_refines:
  assumes "accepting lib" "lists_ok s" "he_perform env = perform_of lib"
  shows "\<exists>t. service_send lib request s = (fst (http_send env request (tr_world s)), t) \<and>
    tr_world t = snd (http_send env request (tr_world s)) \<and> tr_lists t = tr_lists s \<and> lists_ok t"
proof -
  obtain pieces result code w where p: "cl_perform lib (curl_of request) (tr_world s) = ((pieces, result, code), w)"
    by (metis surj_pair)
  have "lists_ok (after_send request (concat pieces) w s)"
    using assms(2) by (simp add: after_send_def lists_ok_def Let_def)
  with service_send_accepted [OF assms(1,2) p] assms(3) p show ?thesis
    by (cases result) (simp_all add: http_send_def perform_of_def after_send_def Let_def)
qed

theorem service_send_refines_witness:
  "let lib = \<lparr>cl_setopt = \<lambda>_ _. None, cl_slist_append = \<lambda>_ _. True,
         cl_perform = \<lambda>request w. (([''{}'', [], cq_url request], None, 200), Suc w)\<rparr>;
       s = \<lparr>tr_url = [], tr_customRequest = [], tr_postFields = [], tr_headers = None, tr_timeout = 0,
         tr_lists = Map.empty, tr_nextList = 0, tr_readBuffer = ''old'', tr_world = 3\<rparr>
   in \<exists>t. service_send lib (add_header ''Accept'' ''json'' (new_request GET ''u'')) s =
        (Inr \<lparr>hr_responseCode = 200, hr_message = ''{}u''\<rparr>, t) \<and> tr_world t = 4 \<and> tr_lists t = Map.empty"
proof -
  let ?lib = "\<lparr>cl_setopt = \<lambda>_ _. None, cl_slist_append = \<lambda>_ _. True,
    cl_perform = \<lambda>request w. (([''{}'', [], cq_url request], None, 200), Suc w)\<rparr>"
  let ?s = "\<lparr>tr_url = [], tr_customRequest = [], tr_postFields = [], tr_headers = None, tr_timeout = 0,
    tr_lists = Map.empty, tr_nextList = 0, tr_readBuffer = ''old'', tr_world = 3 :: nat\<rparr>"
  let ?env = "\<lparr>he_perform = perform_of ?lib, he_now_ms = \<lambda>_. 0, he_sha256 = id, he_hmac_sha256 = \<lambda>d k. d,
    he_hmac_sha512 = \<lambda>d k. d, he_b64_encode = id\<rparr>"
  let ?request = "add_header ''Accept'' ''json'' (new_request GET ''u'')"
  have "http_send ?env ?request 3 = (Inr \<lparr>hr_responseCode = 200, hr_message = ''{}u''\<rparr>, 4)"
    by (simp add: http_send_def perform_of_def curl_of_def add_header_def new_request_def c_str_def narrow32_def)
  moreover have "accepting ?lib" "lists_ok ?s" by (simp_all add: accepting_def lists_ok_def)
  ultimately show ?thesis
    using service_send_refines [of ?lib ?s ?env ?request] by (auto simp: Let_def)
qed

section \<open>What goes wrong\<close>

definition fails_well :: "('s, 'a) action \<Rightarrow> 's \<Rightarrow> bool" where
  "fails_well m s \<longleftrightarrow> (case fst (m s) of Inl e \<Rightarrow> is_mb_exception e | Inr _ \<Rightarrow> True)"

lemma fails_well_error: "is_mb_exception e \<Longrightarrow> m s = (Inl e, t) \<Longrightarrow> fails_well m s"
  by (simp add: fails_well_def)

lemma fails_well_bind: "m s = (Inr a, t) \<Longrightarrow> fails_well (k a) t \<Longrightarrow> fails_well (act_bind m k) s"
  by (simp add: fails_well_def act_bind_def)

lemma fails_well_option:
  assumes "fails_well m (apply_option opt s)"
  shows "fails_well (act_seq (set_curl_option lib opt) m) s"
  using assms by (cases "cl_setopt lib opt (tr_world s)")
    (simp_all add: fails_well_def set_curl_option_def throw_if_error_def http_error_def act_simps)

text \<open>A list that is null or allocated.\<close>

definition chunk_ok :: "'w transfer \<Rightarrow> nat option \<Rightarrow> bool" where
  "chunk_ok s chunk \<longleftrightarrow> (case chunk of None \<Rightarrow> True | Some l \<Rightarrow> tr_lists s l \<noteq> None)"

lemma append_headers_ok:
  "lists_ok s \<Longrightarrow> chunk_ok s chunk \<Longrightarrow> \<exists>c t. append_headers lib chunk headers s = (Inr c, t) \<and> chunk_ok t c"
proof (induction headers arbitrary: s chunk)
  case (Cons h hs)
  let ?line = "c_str (header_to_string h)"
  have "\<exists>c t. slist_append lib chunk ?line s = (Inr c, t) \<and> lists_ok t \<and> chunk_ok t c"
    using Cons.prems by (cases chunk) (auto simp: slist_append_def chunk_ok_def lists_ok_def)
  then show ?case using Cons.IH by (auto simp: act_bind_def)
qed (simp add: act_simps)

text \<open>
  Whatever the library refuses, a request ends in an answer or in an exception of the service:
  no list is used after it is freed, or freed twice.
\<close>

lemma service_send_fails_well:
  assumes "lists_ok s"
  shows "fails_well (service_send lib request) s"
proof -
  define set where "set = (\<lambda>s :: 'a transfer. apply_option (OPT_POSTFIELDS (c_str (hq_content request)))
    (apply_option OPT_WRITEDATA (apply_option (OPT_CUSTOMREQUEST (verb_to_string (hq_verb request)))
      (apply_option (OPT_URL (c_str (hq_url request))) (s\<lparr>tr_readBuffer := []\<rparr>)))))"
  have "lists_ok (set s)" using assms by (simp add: set_def apply_option_def lists_ok_def)
  then obtain c t where c: "append_headers lib None (hq_headers request) (set s) = (Inr c, t)" and ok: "chunk_ok t c"
    using append_headers_ok [of "set s" None lib "hq_headers request"] by (auto simp: chunk_ok_def)
  define rest where "rest = (\<lambda>chunk. act_bind (easy_perform lib) (\<lambda>(result, responseCode).
    act_seq (slist_free_all chunk) (act_seq (act_res (\<lambda>_. throw_if_error result))
      (act_read (\<lambda>s :: 'a transfer. \<lparr>hr_responseCode = narrow32 responseCode, hr_message = tr_readBuffer s\<rparr>)))))"
  let ?t = "apply_option (OPT_HTTPHEADER c) t"
  obtain result code u where p: "easy_perform lib ?t = (Inr (result, code), u)" and u: "tr_lists u = tr_lists t"
  proof -
    obtain headers where h: "(case tr_headers ?t of None \<Rightarrow> Some [] | Some l \<Rightarrow> tr_lists ?t l) = Some headers"
      using ok by (cases c) (auto simp: apply_option_def chunk_ok_def)
    obtain pieces result code w where "cl_perform lib \<lparr>cq_verb = tr_customRequest ?t, cq_url = tr_url ?t,
        cq_fields = tr_postFields ?t, cq_headers = headers\<rparr> (tr_world ?t) = ((pieces, result, code), w)" by (metis surj_pair)
    then have "\<exists>u. easy_perform lib ?t = (Inr (result, code), u) \<and> tr_lists u = tr_lists t"
      by (simp add: easy_perform_def h) (simp add: apply_option_def)
    with that show ?thesis by blast
  qed
  obtain v where "slist_free_all c u = (Inr (), v)"
    using ok u by (cases c) (auto simp: slist_free_all_def chunk_ok_def)
  then have "fails_well (rest c) ?t"
    by (cases result) (simp_all add: rest_def fails_well_def act_simps p throw_if_error_def http_error_def)
  then have "fails_well (act_seq (set_curl_option lib (OPT_HTTPHEADER c)) (rest c)) t" by (rule fails_well_option)
  then have "fails_well (act_bind (append_headers lib None (hq_headers request))
      (\<lambda>chunk. act_seq (set_curl_option lib (OPT_HTTPHEADER chunk)) (rest chunk))) (set s)"
    using c by (simp add: fails_well_def act_bind_def)
  then show ?thesis unfolding service_send_def rest_def set_def
    by (intro fails_well_bind [where a = "()" and t = "s\<lparr>tr_readBuffer := []\<rparr>"] fails_well_option) (simp add: act_modify_def)
qed

text \<open>A header list the handle refuses is not freed.\<close>

lemma refused_headers_leak:
  assumes "cl_setopt lib = (\<lambda>opt w. case opt of OPT_HTTPHEADER _ \<Rightarrow> Some error | _ \<Rightarrow> None)"
    "\<And>line w. cl_slist_append lib line w" "hq_headers request = [h]" "lists_ok s"
  shows "fst (service_send lib request s) = Inl (http_error error) \<and>
    tr_lists (snd (service_send lib request s)) (tr_nextList s) = Some [c_str (header_to_string h)]"
  using assms(3,4)
  by (simp add: service_send_def set_curl_option_def assms(1,2) throw_if_error_def apply_option_def slist_append_def
      lists_ok_def act_simps)

text \<open>
  When memory runs out between two headers, the headers put together so far are lost and the
  request goes out with the rest of them only.
\<close>

lemma lost_headers_sent:
  assumes "\<And>opt w. cl_setopt lib opt w = None" "\<And>line w. cl_slist_append lib line w \<longleftrightarrow> line \<noteq> c_str (header_to_string h2)"
    and "c_str (header_to_string h1) \<noteq> c_str (header_to_string h2)"
    and "c_str (header_to_string h3) \<noteq> c_str (header_to_string h2)" "lists_ok s" "hq_headers request = [h1, h2, h3]"
    and "cl_perform lib (curl_of request\<lparr>cq_headers := [c_str (header_to_string h3)]\<rparr>) (tr_world s) = ((pieces, None, code), w)"
  shows "fst (service_send lib request s) = Inr \<lparr>hr_responseCode = narrow32 code, hr_message = concat pieces\<rparr>"
  using assms(3-)
  by (simp add: service_send_def set_curl_option_def assms(1,2) throw_if_error_def apply_option_def slist_append_def
      easy_perform_def curl_of_def lists_ok_def slist_free_all_def pieces_concat act_simps)

end
