(* ===== verification/Template.thy ===== *)
theory Template
  imports Exchanges
begin

text \<open>
  \<^verbatim>\<open>exchanges/template/\<close>, the skeleton a new exchange is copied from: readers that succeed
  with an empty value whatever the answer is, an interface that reads the empty answer and sends
  nothing, a configuration of two keys, and a stream that ignores its messages. The lemmas show
  that it keeps the contract of an exchange, and which exchange it says it is.
\<close>

section \<open>Answers\<close>

definition template_read_system_status :: "string \<Rightarrow> exchange_status result" where
  "template_read_system_status jsonResult = Success ONLINE"

definition template_read_tradable_pairs :: "string \<Rightarrow> tradable_pair list result" where
  "template_read_tradable_pairs jsonResult = Success []"

definition template_read_ohlcv :: "string \<Rightarrow> ohlcv_data list result" where
  "template_read_ohlcv jsonResult = Success []"

definition template_read_price :: "string \<Rightarrow> double result" where
  "template_read_price jsonResult = Success 0"

definition template_read_order_book :: "string \<Rightarrow> order_book_state result" where
  "template_read_order_book jsonResult = Success \<lparr>ob_timeStamp = 0, ob_asks = [], ob_bids = []\<rparr>"

definition template_read_balances :: "string \<Rightarrow> (string \<times> double) list result" where
  "template_read_balances jsonResult = Success []"

definition template_read_fee :: "string \<Rightarrow> double result" where
  "template_read_fee jsonResult = Success 0"

definition template_read_open_orders :: "string \<Rightarrow> order_description list result" where
  "template_read_open_orders jsonResult = Success []"

definition template_read_closed_orders :: "string \<Rightarrow> order_description list result" where
  "template_read_closed_orders jsonResult = Success []"

definition template_read_add_order :: "string \<Rightarrow> string result" where
  "template_read_add_order jsonResult = Success []"

definition template_read_cancel_order :: "string \<Rightarrow> unit result" where
  "template_read_cancel_order jsonResult = Success ()"

section \<open>The interface\<close>

text \<open>The identifier the exchange and its stream are created with.\<close>

definition template_exchange_id :: string where
  "template_exchange_id = ''bybit''"

definition template_get_status :: "exchange_status res" where
  "template_get_status = result_value (template_read_system_status [])"

definition template_get_tradable_pairs :: "tradable_pair list res" where
  "template_get_tradable_pairs = result_value (template_read_tradable_pairs [])"

definition template_get_ohlcv :: "tradable_pair \<Rightarrow> ohlcv_interval \<Rightarrow> int \<Rightarrow> ohlcv_data list res" where
  "template_get_ohlcv tradablePair interval count = result_value (template_read_ohlcv [])"

definition template_get_price :: "tradable_pair \<Rightarrow> double res" where
  "template_get_price tradablePair = result_value (template_read_price [])"

definition template_get_order_book :: "tradable_pair \<Rightarrow> int \<Rightarrow> order_book_state res" where
  "template_get_order_book tradablePair depth = result_value (template_read_order_book [])"

definition template_get_fee :: "tradable_pair \<Rightarrow> double res" where
  "template_get_fee tradablePair = result_value (template_read_fee [])"

definition template_get_balances :: "(string \<times> double) list res" where
  "template_get_balances = result_value (template_read_balances [])"

definition template_get_open_orders :: "order_description list res" where
  "template_get_open_orders = result_value (template_read_open_orders [])"

definition template_get_closed_orders :: "order_description list res" where
  "template_get_closed_orders = result_value (template_read_closed_orders [])"

definition template_add_order :: "order_request \<Rightarrow> string res" where
  "template_add_order description = result_value (template_read_add_order [])"

definition template_cancel_order :: "string \<Rightarrow> unit res" where
  "template_cancel_order orderId = result_value (template_read_cancel_order [])"

text \<open>Prices, books and confirmed orders are those of the interface.\<close>

definition template_exchange :: "'s exchange_ops" where
  "template_exchange = \<lparr>
     eo_status = act_res (\<lambda>_. template_get_status),
     eo_tradable_pairs = act_res (\<lambda>_. template_get_tradable_pairs),
     eo_ohlcv = \<lambda>pair interval count. act_res (\<lambda>_. template_get_ohlcv pair interval count),
     eo_price = \<lambda>pair. act_res (\<lambda>_. template_get_price pair),
     eo_prices = get_prices (\<lambda>pair. act_res (\<lambda>_. template_get_price pair)),
     eo_order_book = \<lambda>pair depth. act_res (\<lambda>_. template_get_order_book pair depth),
     eo_order_books = get_order_books (\<lambda>pair depth. act_res (\<lambda>_. template_get_order_book pair depth)),
     eo_balances = act_res (\<lambda>_. template_get_balances),
     eo_fee = \<lambda>pair. act_res (\<lambda>_. template_get_fee pair),
     eo_open_orders = act_res (\<lambda>_. template_get_open_orders),
     eo_closed_orders = act_res (\<lambda>_. template_get_closed_orders),
     eo_add_order = \<lambda>description. act_res (\<lambda>_. template_add_order description),
     eo_add_order_confirm = unconfirmed,
     eo_cancel_order = \<lambda>orderId. act_res (\<lambda>_. template_cancel_order orderId)\<rparr>"

section \<open>The configuration\<close>

record template_config =
  tc_publicKey :: string
  tc_privateKey :: string

definition default_template_config :: template_config where
  "default_template_config = \<lparr>tc_publicKey = [], tc_privateKey = []\<rparr>"

definition template_config_name :: string where
  "template_config_name = ''template''"

definition template_config_from_json :: "json \<Rightarrow> template_config res" where
  "template_config_from_json json =
     res_bind (member get_string json ''publicKey'') (\<lambda>publicKey.
     res_bind (member get_string json ''privateKey'') (\<lambda>privateKey.
     Inr \<lparr>tc_publicKey = publicKey, tc_privateKey = privateKey\<rparr>))"

definition template_config_to_json :: "template_config \<Rightarrow> json" where
  "template_config_to_json config = json_object
     [(''publicKey'', JString (tc_publicKey config)), (''privateKey'', JString (tc_privateKey config))]"

text \<open>The configuration is loaded, and not used.\<close>

definition create_template_exchange ::
    "(string \<Rightarrow> json res) \<Rightarrow> (json \<Rightarrow> string) \<Rightarrow> bool \<Rightarrow> (file_system, 's exchange_ops) action" where
  "create_template_exchange parse dump testing =
     act_bind (load_or_create_config parse dump template_config_from_json template_config_to_json
       default_template_config template_config_name) (\<lambda>config. act_return template_exchange)"

lemma template_config_written: "template_config_from_json (template_config_to_json c) = Inr c"
  by (simp add: template_config_from_json_def template_config_to_json_def json_simps)

interpretation template_file: config_kind template_config_from_json template_config_to_json "\<lambda>_. True"
  by unfold_locales (rule template_config_written)

section \<open>The stream\<close>

definition template_process_trade_message :: "json \<Rightarrow> ('h, 'c, 'w, unit) ws_action" where
  "template_process_trade_message json = act_return ()"

definition template_on_message :: "string \<Rightarrow> ('h, 'c, 'w, unit) ws_action" where
  "template_on_message message = act_return ()"

definition template_send_subscribe :: "websocket_subscription \<Rightarrow> ('h, 'c, 'w, unit) ws_action" where
  "template_send_subscribe subscription = act_return ()"

definition template_send_unsubscribe :: "websocket_subscription \<Rightarrow> ('h, 'c, 'w, unit) ws_action" where
  "template_send_unsubscribe subscription = act_return ()"

definition create_template_stream :: "'w \<Rightarrow> ('h, 'c, 'w) websocket_stream" where
  "create_template_stream client = create_websocket_stream ''wss://'' (CHR 0x00) client"

section \<open>The contract\<close>

lemmas template_defs = template_exchange_def template_get_status_def template_get_tradable_pairs_def
  template_get_ohlcv_def template_get_price_def template_get_order_book_def template_get_fee_def
  template_get_balances_def template_get_open_orders_def template_get_closed_orders_def template_add_order_def
  template_cancel_order_def template_read_system_status_def template_read_tradable_pairs_def template_read_ohlcv_def
  template_read_price_def template_read_order_book_def template_read_balances_def template_read_fee_def
  template_read_open_orders_def template_read_closed_orders_def template_read_add_order_def
  template_read_cancel_order_def

interpretation template_reads: exchange_reads template_exchange
  by unfold_locales (auto simp: template_defs get_order_books_def intro!: catchable_rules catchable_res)

lemma pairs_to_map_answers:
  "pairs_to_map (\<lambda>x. act_res (\<lambda>_. Inr (v x))) xs s = (Inr (to_unordered_map (map (\<lambda>x. (x, v x)) xs) fst snd), s)"
proof -
  have "act_traverse (\<lambda>x. act_bind (act_res (\<lambda>_. Inr (v x))) (\<lambda>y. act_return (x, y))) xs s =
      (Inr (map (\<lambda>x. (x, v x)) xs), s)"
    by (induction xs) (simp_all add: act_simps)
  then show ?thesis by (simp add: pairs_to_map_def act_bind_def act_return_def)
qed

text \<open>
  Unlike the other exchanges the skeleton answers every call but that for a confirmed order, and
  leaves the state as it is: a copy that forgets a function does not fail, it trades on prices of
  zero and reports orders with an empty number as sent.
\<close>

lemma template_answers:
  assumes "\<And>request. c \<noteq> Add_order_confirm request"
  shows "\<exists>a. ask template_exchange c s = (Inr a, s)"
  using assms
  by (cases c) (auto simp: template_defs get_prices_def get_order_books_def act_simps pairs_to_map_answers)

lemma template_runs_on_nothing:
  "fst (ask template_exchange (Get_price pair) s) = Inr (Number_is 0)"
  "fst (ask template_exchange (Add_order request) s) = Inr (Order_is [])"
  by (simp_all add: template_defs act_simps)

text \<open>A runner takes the skeleton for Bybit.\<close>

lemma template_is_bybit: "template_exchange_id \<in> set exchange_ids_all"
  by (simp add: template_exchange_id_def exchange_ids_all_def)

end
