(* ===== verification/Orders.thy ===== *)
theory Orders
  imports Exchanges
begin

text \<open>
  What the exchanges send. The environment of a request is run with a record of the requests it
  performed and of what was answered to each, so that an operation can be said to send an order
  once, and each request that needs the keys of the user to carry a signature of what it says.
\<close>

section \<open>A record of what was sent\<close>

type_synonym exchange_log = "(curl_request \<times> (string + int \<times> string)) list"

definition traced :: "'w http_env \<Rightarrow> (exchange_log \<times> 'w) http_env" where
  "traced env = \<lparr>he_perform = \<lambda>r (sent, w). (case he_perform env r w of (a, w') \<Rightarrow> (a, sent @ [(r, a)], w')),
     he_now_ms = \<lambda>(sent, w). he_now_ms env w, he_sha256 = he_sha256 env,
     he_hmac_sha256 = he_hmac_sha256 env, he_hmac_sha512 = he_hmac_sha512 env,
     he_b64_encode = he_b64_encode env\<rparr>"

lemma traced_simps [simp]:
  "he_sha256 (traced env) = he_sha256 env" "he_hmac_sha256 (traced env) = he_hmac_sha256 env"
  "he_hmac_sha512 (traced env) = he_hmac_sha512 env" "he_b64_encode (traced env) = he_b64_encode env"
  by (simp_all add: traced_def)

text \<open>
  Whatever the state is, the operation adds to the record only, and what it adds and returns are
  in the relation \<open>R\<close>.
\<close>

definition sends :: "('s \<Rightarrow> 'l list) \<Rightarrow> ('l list \<Rightarrow> 'a res \<Rightarrow> bool) \<Rightarrow> ('s, 'a) action \<Rightarrow> bool" where
  "sends record R m \<longleftrightarrow> (\<forall>s. \<exists>new. record (snd (m s)) = record s @ new \<and> R new (fst (m s)))"

lemma sendsI: "(\<And>s. \<exists>new. record (snd (m s)) = record s @ new \<and> R new (fst (m s))) \<Longrightarrow> sends record R m"
  by (simp add: sends_def)

lemma sendsE:
  assumes "sends record R m" "m s = (r, t)"
  obtains new where "record t = record s @ new" "R new r"
  using assms unfolding sends_def by (metis fst_conv snd_conv)

lemma sends_mono: "sends record P m \<Longrightarrow> (\<And>new r. P new r \<Longrightarrow> R new r) \<Longrightarrow> sends record R m"
  unfolding sends_def by blast

lemma sends_bind:
  assumes "sends record P m" "\<And>new e. P new (Inl e) \<Longrightarrow> R new (Inl e)"
    and "\<And>new a. P new (Inr a) \<Longrightarrow> sends record (\<lambda>more. R (new @ more)) (k a)"
  shows "sends record R (act_bind m k)"
proof (rule sendsI)
  fix s
  obtain r t where m: "m s = (r, t)" by (meson surj_pair)
  obtain new where new: "record t = record s @ new" "P new r" by (rule sendsE [OF assms(1) m])
  show "\<exists>new. record (snd (act_bind m k s)) = record s @ new \<and> R new (fst (act_bind m k s))"
  proof (cases r)
    case (Inl e)
    with m new assms(2) show ?thesis by (simp add: act_bind_def)
  next
    case (Inr a)
    obtain u v where k: "k a t = (u, v)" by (meson surj_pair)
    from assms(3) new(2) Inr have "sends record (\<lambda>more. R (new @ more)) (k a)" by simp
    then obtain more where "record v = record t @ more" "R (new @ more) u" using k by (rule sendsE)
    with m new Inr k show ?thesis by (simp add: act_bind_def)
  qed
qed

lemma sends_silent: "act_keeps record m \<Longrightarrow> (\<And>r. R [] r) \<Longrightarrow> sends record R m"
  by (rule sendsI) (auto simp: act_keeps_def)

lemma sends_in_state:
  "(\<And>s w. get (put w s) = w) \<Longrightarrow> sends record R m \<Longrightarrow> sends (record \<circ> get) R (in_state get put m)"
  unfolding sends_def in_state_def by (auto split: prod.split) (metis fst_conv snd_conv)

lemma sends_reading:
  "(\<And>e. R [] (Inl e)) \<Longrightarrow> (\<And>a. r = Inr a \<Longrightarrow> sends record R (f a)) \<Longrightarrow> sends record R (reading r f)"
  by (cases r) (auto intro!: sendsI)

text \<open>An operation that sends nothing, with what it leaves to be said of the rest.\<close>

lemma sends_after_silent:
  assumes "act_keeps record m" "\<And>e. R [] (Inl e)" "\<And>a. sends record R (k a)"
  shows "sends record R (act_bind m k)"
proof (rule sends_bind [where P = "\<lambda>new _. new = []"])
  show "sends record (\<lambda>new _. new = []) m" by (rule sends_silent [OF assms(1)]) simp
qed (use assms in simp_all)

lemma keeps_clock [keeps]: "act_keeps f (epoch_milliseconds env)" "act_keeps f (epoch_seconds env)"
  by (simp_all add: epoch_milliseconds_def epoch_seconds_def keeps)

lemma keeps_state_part [keeps]:
  "(\<And>s w. get (put w s) = w) \<Longrightarrow> act_keeps f m \<Longrightarrow> act_keeps (f \<circ> get) (in_state get put m)"
  by (auto simp: act_keeps_def in_state_def split: prod.split) (metis snd_conv)

section \<open>One request\<close>

text \<open>What a request says it was answered is what the service answered, and of code 200.\<close>

definition answered :: "(string \<Rightarrow> 'v result res) \<Rightarrow> string + int \<times> string \<Rightarrow> 'v res \<Rightarrow> bool" where
  "answered reader a r = (case r of Inl _ \<Rightarrow> True
     | Inr v \<Rightarrow> (\<exists>code body. a = Inr (code, body) \<and> narrow32 code = 200 \<and> reader body = Inr (Success v)))"

lemma answered_Inl [simp]: "answered reader a (Inl e)"
  by (simp add: answered_def)

lemma http_send_traced:
  "http_send (traced env) request (sent, w) =
     (case he_perform env (curl_of request) w of (a, w') \<Rightarrow>
        (case a of Inl error \<Rightarrow> Inl (http_error error)
           | Inr (code, body) \<Rightarrow> Inr \<lparr>hr_responseCode = narrow32 code, hr_message = body\<rparr>, sent @ [(curl_of request, a)], w'))"
  by (auto simp: http_send_def traced_def split: prod.splits sum.splits)

lemma answered_success:
  "send_http_request (Inr response) reader = Inr v \<Longrightarrow>
    hr_responseCode response = 200 \<and> reader (hr_message response) = Inr (Success v)"
  unfolding send_http_request_def
  by (cases "reader (hr_message response)"; cases "projr (reader (hr_message response))") (auto split: if_splits)

lemma sends_request_value:
  "sends fst (\<lambda>new r. \<exists>a. new = [(curl_of request, a)] \<and> answered reader a r) (request_value (traced env) request reader)"
proof (rule sendsI)
  fix s :: "exchange_log \<times> 'a"
  obtain sent w where s: "s = (sent, w)" by (cases s)
  obtain a w' where a: "he_perform env (curl_of request) w = (a, w')" by (meson surj_pair)
  show "\<exists>new. fst (snd (request_value (traced env) request reader s)) = fst s @ new \<and>
      (\<exists>a. new = [(curl_of request, a)] \<and> answered reader a (fst (request_value (traced env) request reader s)))"
  proof (cases a)
    case (Inl e)
    with s a show ?thesis by (simp add: request_value_def act_bind_def http_send_traced)
  next
    case (Inr response)
    then show ?thesis using s a
      by (cases response) (auto simp: request_value_def act_simps http_send_traced answered_def
          dest: answered_success split: sum.splits)
  qed
qed

section \<open>Orders\<close>

definition is_get :: "curl_request \<times> 'a \<Rightarrow> bool" where
  "is_get p \<longleftrightarrow> cq_verb (fst p) = ''GET''"

text \<open>
  The price of the moment may be asked for, then the order is posted once or the operation fails
  without it. A result that is returned is what the exchange answered to this order.
\<close>

definition order_outcome :: "(string \<Rightarrow> 'v result res) \<Rightarrow> exchange_log \<Rightarrow> 'v res \<Rightarrow> bool" where
  "order_outcome reader new r \<longleftrightarrow>
     (\<exists>asked. list_all is_get asked \<and>
       (new = asked \<and> (\<exists>e. r = Inl e) \<or>
        (\<exists>q a. new = asked @ [(q, a)] \<and> cq_verb q = ''POST'' \<and> answered reader a r)))"

lemma order_not_sent [simp]: "order_outcome reader [] (Inl e)"
  by (auto simp: order_outcome_def)

lemma order_outcome_after: "list_all is_get asked \<Longrightarrow> order_outcome reader new r \<Longrightarrow> order_outcome reader (asked @ new) r"
  unfolding order_outcome_def by (elim exE conjE disjE) (rule exI [of _ "asked @ _"], force)+

lemma sends_posted:
  assumes "hq_verb request = POST"
  shows "sends fst (order_outcome reader) (request_value (traced env) request reader)"
  by (rule sends_mono [OF sends_request_value]) (use assms in \<open>force simp: order_outcome_def curl_of_def\<close>)

lemma sends_asked:
  assumes "hq_verb request = GET"
  shows "sends fst (\<lambda>new _. list_all is_get new) (request_value (traced env) request reader)"
  by (rule sends_mono [OF sends_request_value]) (use assms in \<open>force simp: is_get_def curl_of_def\<close>)

lemma sends_order_after:
  assumes "sends record (\<lambda>new _. list_all is_get new) m" "\<And>a. sends record (order_outcome reader) (k a)"
  shows "sends record (order_outcome reader) (act_bind m k)"
proof (rule sends_bind [OF assms(1)])
  show "list_all is_get new \<Longrightarrow> order_outcome reader new (Inl e)" for new and e :: exn
    by (auto simp: order_outcome_def)
  show "list_all is_get new \<Longrightarrow> sends record (\<lambda>more. order_outcome reader (new @ more)) (k a)" for new a
    by (rule sends_mono [OF assms(2)]) (rule order_outcome_after)
qed

named_theorems sending "what an operation sends"

lemmas sending_intros [sending] = sends_posted sends_asked

lemma keeps_log_of [keeps]:
  "act_keeps f m \<Longrightarrow> act_keeps (f \<circ> na_world) (in_state na_world (\<lambda>w s. s\<lparr>na_world := w\<rparr>) m)"
  by (rule keeps_state_part) simp

lemma order_filters_keep [keeps]: "act_keeps (f \<circ> na_world) (order_filters_of pair)"
  unfolding order_filters_of_def by (intro keeps keeps_modify) simp

lemma kraken_private_posts: "sends fst (order_outcome reader) (kraken_private (traced env) api method reader query)"
  unfolding kraken_private_def Let_def
  by (intro sends_after_silent sends_reading sends_posted keeps order_not_sent)
    (simp add: kraken_private_request_def Let_def set_content_def add_header_def new_request_def)

lemma coinbase_private_posts:
  "sends fst (order_outcome reader) (coinbase_private (traced env) api POST path reader query content)"
  unfolding coinbase_private_def coinbase_send_request_def
  by (intro sends_after_silent sends_reading sends_posted keeps order_not_sent)
    (simp add: coinbase_private_request_def Let_def set_content_def add_header_def new_request_def)

lemma binance_private_posts:
  "sends (fst \<circ> na_world) (order_outcome reader) (binance_private (traced env) POST path reader query)"
  unfolding binance_private_def
  by (intro sends_after_silent sends_reading sends_in_state sends_posted keeps order_not_sent)
    (simp_all add: add_header_def new_request_def)

lemma bybit_request_verb: "bybit_private_request api verb path query = Inr request \<Longrightarrow> hq_verb request = verb"
  by (cases "build_url (ya_baseUrl api) path (if verb = POST then [] else query)")
    (auto simp: bybit_private_request_def set_content_def new_request_def split: if_splits)

lemma bybit_private_posts:
  "sends fst (order_outcome reader) (bybit_private (traced env) api POST path reader params)"
  unfolding bybit_private_def Let_def
  by (intro sends_after_silent sends_reading sends_posted keeps order_not_sent) (rule bybit_request_verb)

lemma digifinex_private_posts:
  "sends fst (order_outcome reader) (digifinex_private (traced env) api POST path reader query)"
  unfolding digifinex_private_def
  by (intro sends_after_silent sends_reading sends_posted keeps order_not_sent)
    (simp add: add_header_def new_request_def)

lemma sends_asking:
  assumes "sends record (\<lambda>new _. list_all P new) m"
  shows "sends record (\<lambda>new _. list_all P new) (act_bind m (\<lambda>a. act_return (f a)))"
  by (rule sends_bind [OF assms]) (auto intro!: sends_silent keeps)

lemma bybit_price_asks: "sends fst (\<lambda>new _. list_all is_get new) (bybit_get_price parse (traced env) api pair)"
  unfolding bybit_get_price_def bybit_public_def
  by (intro sends_reading sends_asked) (simp_all add: new_request_def)

lemma digifinex_price_asks: "sends fst (\<lambda>new _. list_all is_get new) (digifinex_get_price parse (traced env) pair)"
  unfolding digifinex_get_price_def digifinex_public_def
  by (intro sends_reading sends_asked) (simp_all add: new_request_def)

lemma bybit_quantity_asks:
  "sends fst (\<lambda>new _. list_all is_get new)
    (bybit_order_quantity request (bybit_get_price parse (traced env) api pair))"
  unfolding bybit_order_quantity_def Let_def
  by (auto intro!: sends_asking bybit_price_asks sends_silent keeps)

lemma digifinex_amount_asks:
  "sends fst (\<lambda>new _. list_all is_get new) (digifinex_amount request (digifinex_get_price parse (traced env) pair))"
  unfolding digifinex_amount_def Let_def
  by (auto intro!: sends_asking digifinex_price_asks sends_silent keeps)

text \<open>
  C7: whatever the service answers, an order is posted to an exchange at most once. Before it
  only GET requests are sent; when nothing was posted the operation fails; an order number or a
  confirmation that is returned is what the exchange answered, with code 200, to the order that
  was posted.
\<close>

theorem orders_posted_once:
  "sends fst (order_outcome (kraken_read_add_order parse)) (kraken_add_order parse (traced env) kraken request) \<and>
   sends fst (order_outcome (coinbase_read_add_order parse))
     (coinbase_add_order dump parse (traced env) coinbase request) \<and>
   sends (fst \<circ> na_world) (order_outcome (binance_read_add_order parse))
     (binance_add_order parse (traced env) request) \<and>
   sends (fst \<circ> na_world) (order_outcome (binance_read_add_order_confirm parse))
     (binance_add_order_confirm parse (traced env) request) \<and>
   sends fst (order_outcome (bybit_read_add_order parse)) (bybit_add_order parse (traced env) bybit request) \<and>
   sends fst (order_outcome (digifinex_read_add_order parse))
     (digifinex_add_order parse (traced env) digifinex request)"
  unfolding kraken_add_order_def coinbase_add_order_def binance_add_order_def binance_add_order_confirm_def
    binance_order_request_def bybit_add_order_def digifinex_add_order_def
  by (intro conjI sends_reading sends_after_silent sends_order_after order_filters_keep order_not_sent
      bybit_quantity_asks digifinex_amount_asks kraken_private_posts coinbase_private_posts binance_private_posts
      bybit_private_posts digifinex_private_posts)

end
