(* ===== verification/Signatures.thy ===== *)
theory Signatures
  imports Orders
begin

text \<open>
  The requests that need the keys of the user. Each exchange documents what the signature of a
  request is of; the predicates below check a request as the exchange does, on the bytes that
  were sent. Every private call of the five exchanges sends requests that pass.
\<close>

section \<open>What an exchange checks\<close>

definition has_header :: "curl_request \<Rightarrow> string \<Rightarrow> string \<Rightarrow> bool" where
  "has_header q name value \<longleftrightarrow> name @ '': '' @ value \<in> set (cq_headers q)"

text \<open>
  Kraken: base64 of HMAC-SHA512 of the path and the SHA256 of nonce and posted fields, the nonce
  being the first field.
\<close>

definition kraken_verifies :: "'w http_env \<Rightarrow> string \<Rightarrow> string \<Rightarrow> curl_request \<Rightarrow> bool" where
  "kraken_verifies env publicKey secret q \<longleftrightarrow>
     (\<exists>path nonce rest. cq_url q = ''https://api.kraken.com'' @ path \<and>
       cq_fields q = ''nonce='' @ nonce @ rest \<and> (rest = [] \<or> hd rest = CHR ''&'') \<and> CHR ''&'' \<notin> set nonce \<and>
       has_header q ''API-Key'' publicKey \<and>
       has_header q ''API-Sign''
         (he_b64_encode env (he_hmac_sha512 env (path @ he_sha256 env (nonce @ cq_fields q)) secret)))"

text \<open>
  Coinbase: base64 of HMAC-SHA256 of timestamp, verb, path with query, and body.
\<close>

definition coinbase_verifies :: "'w http_env \<Rightarrow> string \<Rightarrow> string \<Rightarrow> string \<Rightarrow> curl_request \<Rightarrow> bool" where
  "coinbase_verifies env baseUrl key secret q \<longleftrightarrow>
     (\<exists>timestamp target. cq_url q = baseUrl @ target \<and>
       has_header q ''CB-ACCESS-KEY'' key \<and> has_header q ''CB-ACCESS-TIMESTAMP'' timestamp \<and>
       has_header q ''CB-ACCESS-SIGN''
         (he_b64_encode env (he_hmac_sha256 env (timestamp @ cq_verb q @ target @ cq_fields q) secret)))"

text \<open>
  Binance: the last parameter is the hexadecimal HMAC-SHA256 of those before it. Bybit: the same,
  in the body of a request that posts. Digifinex: of the whole query, in a header.
\<close>

definition signed_parameters :: "'w http_env \<Rightarrow> string \<Rightarrow> string \<Rightarrow> string \<Rightarrow> bool" where
  "signed_parameters env key secret parameters \<longleftrightarrow>
     (\<exists>data. data \<noteq> [] \<and> parameters = data @ ''&'' @ key @ ''='' @ hex_encode (he_hmac_sha256 env data secret))"

definition binance_verifies :: "'w http_env \<Rightarrow> string \<Rightarrow> string \<Rightarrow> string \<Rightarrow> curl_request \<Rightarrow> bool" where
  "binance_verifies env address key secret q \<longleftrightarrow>
     has_header q ''X-MBX-APIKEY'' key \<and>
     (\<exists>parameters. cq_url q = address @ ''?'' @ parameters \<and> signed_parameters env ''signature'' secret parameters)"

definition bybit_verifies :: "'w http_env \<Rightarrow> string \<Rightarrow> string \<Rightarrow> curl_request \<Rightarrow> bool" where
  "bybit_verifies env address secret q \<longleftrightarrow>
     (if cq_verb q = ''POST'' then cq_url q = address \<and> signed_parameters env ''sign'' secret (cq_fields q)
      else \<exists>parameters. cq_url q = address @ ''?'' @ parameters \<and> signed_parameters env ''sign'' secret parameters)"

definition digifinex_verifies :: "'w http_env \<Rightarrow> string \<Rightarrow> string \<Rightarrow> string \<Rightarrow> curl_request \<Rightarrow> bool" where
  "digifinex_verifies env address key secret q \<longleftrightarrow>
     (\<exists>query. cq_url q = append_query address query \<and> has_header q ''ACCESS-KEY'' key \<and>
       has_header q ''ACCESS-SIGN'' (hex_encode (he_hmac_sha256 env query secret)))"

section \<open>Text without a null character\<close>

text \<open>The curl library is given C strings, which end at the first null character.\<close>

definition no_nul :: "string \<Rightarrow> bool" where
  "no_nul s \<longleftrightarrow> CHR 0x00 \<notin> set s"

lemma no_nul_simps [simp]:
  "no_nul []" "no_nul (c # s) \<longleftrightarrow> c \<noteq> CHR 0x00 \<and> no_nul s" "no_nul (s @ t) \<longleftrightarrow> no_nul s \<and> no_nul t"
  by (auto simp: no_nul_def)

lemma no_nul_c_str [simp]: "no_nul s \<Longrightarrow> c_str s = s"
  by (simp add: no_nul_def c_str_id)

lemma no_nul_number [simp]: "no_nul (show_int i)"
  using show_int_chars [of "CHR 0x00" i] by (auto simp: no_nul_def is_digit_def)

lemma no_nul_verb [simp]: "no_nul (verb_to_string verb)"
  by (cases verb) simp_all

lemma hex_digit_not_nul: "n < 16 \<Longrightarrow> hex_digit n \<noteq> CHR 0x00"
proof
  assume n: "n < 16" and "hex_digit n = CHR 0x00"
  then have "of_char (hex_digit n) = (0 :: nat)" by simp
  with n show False by (auto simp: hex_digit_def split: if_splits)
qed

lemma no_nul_hex [simp]: "no_nul (hex_encode s)"
proof -
  have "(of_char c :: nat) div 16 < 16" "(of_char c :: nat) mod 16 < 16" for c :: char
    using nat_of_char_less_256 [of c] by (simp_all add: div_less_iff_less_mult)
  then have "hex_digit (of_char c div 16) \<noteq> CHR 0x00" "hex_digit (of_char c mod 16) \<noteq> CHR 0x00" for c :: char
    using hex_digit_not_nul by blast+
  then show ?thesis by (auto simp: hex_encode_def no_nul_def) metis+
qed

lemma number_no_separator: "CHR ''&'' \<notin> set (show_int i)"
  using show_int_chars [of "CHR ''&''" i] by (auto simp: is_digit_def)

lemma no_nul_query: "add_parameters ps b = Inr b' \<Longrightarrow> no_nul (qb_query b) \<Longrightarrow>
    list_all (\<lambda>(k, v). no_nul k \<and> no_nul v) ps \<Longrightarrow> no_nul (qb_query b')"
  by (induction ps b arbitrary: b' rule: add_parameters.induct)
    (auto simp: add_parameter_def res_bind_Inr_iff split: if_splits)

section \<open>What the private calls send\<close>

lemma sends_checked:
  assumes "P (curl_of request)"
  shows "sends fst (\<lambda>new _. list_all (P \<circ> fst) new) (request_value (traced env) request reader)"
  by (rule sends_mono [OF sends_request_value]) (use assms in auto)

lemma build_url_slash: "baseUrl \<noteq> [] \<Longrightarrow>
    build_url baseUrl (CHR ''/'' # rest) query = Inr (append_query (baseUrl @ CHR ''/'' # rest) query)"
  by (simp add: build_url_def append_path_def)

lemma no_nul_append_query [simp]: "no_nul (append_query url query) \<longleftrightarrow> no_nul url \<and> no_nul query"
  by (auto simp: append_query_def)

lemma sends_clock:
  "(\<And>i. sends record R (k (show_int i))) \<Longrightarrow> sends record R (act_bind (epoch_milliseconds env) k)"
  "(\<And>i. sends record R (k (show_int i))) \<Longrightarrow> sends record R (act_bind (epoch_seconds env) k)"
  by (auto simp: epoch_milliseconds_def epoch_seconds_def sends_def act_simps)

lemma curl_of_plain:
  "no_nul (hq_url request) \<Longrightarrow> no_nul (hq_content request) \<Longrightarrow>
    list_all (\<lambda>h. no_nul (hh_key h) \<and> no_nul (hh_value h)) (hq_headers request) \<Longrightarrow>
    curl_of request = \<lparr>cq_verb = verb_to_string (hq_verb request), cq_url = hq_url request,
      cq_fields = hq_content request, cq_headers = map header_to_string (hq_headers request)\<rparr>"
  by (simp add: curl_of_def header_to_string_def list_all_iff)

lemmas request_defs = set_content_def add_header_def new_request_def header_to_string_def has_header_def

lemma kraken_request_verifies:
  assumes "\<And>x. no_nul (he_b64_encode env x)" "no_nul (ka_publicKey api)" "no_nul path" "no_nul query"
  shows "kraken_verifies env (ka_publicKey api) (ka_decodedPrivateKey api)
    (curl_of (kraken_private_request (traced env) api path (kraken_base_url @ path) (show_int i) query))"
  using assms unfolding kraken_verifies_def
  by (intro exI [of _ path] exI [of _ "show_int i"] exI [of _ "if query = [] then [] else CHR ''&'' # query"])
    (simp add: curl_of_plain kraken_private_request_def Let_def kraken_post_data_def kraken_sign_def
      kraken_base_url_def number_no_separator request_defs)

lemma kraken_private_verifies:
  assumes "\<And>x. no_nul (he_b64_encode env x)" "no_nul (ka_publicKey api)" "no_nul method" "no_nul query"
  shows "sends fst (\<lambda>new _. list_all (kraken_verifies env (ka_publicKey api) (ka_decodedPrivateKey api) \<circ> fst) new)
    (kraken_private (traced env) api method reader query)"
proof -
  have "build_url kraken_base_url (kraken_path ''private'' method) [] = Inr (kraken_base_url @ kraken_path ''private'' method)"
    by (simp add: kraken_path_def build_url_slash append_query_def kraken_base_url_def)
  moreover have "no_nul (kraken_path ''private'' method)" using assms(3) by (simp add: kraken_path_def)
  ultimately show ?thesis unfolding kraken_private_def Let_def
    using assms by (auto intro!: sends_clock sends_checked kraken_request_verifies)
qed

lemma coinbase_request_verifies:
  assumes "\<And>x. no_nul (he_b64_encode env x)" "no_nul (ca_apiKey api)" "no_nul (ca_apiPassphrase api)"
    "no_nul (ca_userAgentId api)" "no_nul (ca_baseUrl api)" "no_nul path" "no_nul query" "no_nul content"
  shows "coinbase_verifies env (ca_baseUrl api) (ca_apiKey api) (ca_decodedApiSecret api)
    (curl_of (add_header ''Accept'' ''application/json'' (add_header ''User-Agent'' (ca_userAgentId api)
      (coinbase_private_request (traced env) api verb (append_query (ca_baseUrl api @ path) query) (show_int i)
        path query content))))"
  using assms unfolding coinbase_verifies_def
  by (intro exI [of _ "show_int i"] exI [of _ "append_query path query"])
    (simp add: curl_of_plain coinbase_private_request_def Let_def append_query_def coinbase_sign_def request_defs)

lemma coinbase_private_verifies:
  assumes "\<And>x. no_nul (he_b64_encode env x)" "no_nul (ca_apiKey api)" "no_nul (ca_apiPassphrase api)"
    "no_nul (ca_userAgentId api)" "no_nul (ca_baseUrl api)" "ca_baseUrl api \<noteq> []"
    "no_nul rest" "no_nul query" "no_nul content"
  shows "sends fst (\<lambda>new _. list_all
      (coinbase_verifies env (ca_baseUrl api) (ca_apiKey api) (ca_decodedApiSecret api) \<circ> fst) new)
    (coinbase_private (traced env) api verb (CHR ''/'' # rest) reader query content)"
  unfolding coinbase_private_def coinbase_send_request_def
  by (use assms in \<open>auto simp: build_url_slash intro!: sends_clock sends_checked
      coinbase_request_verifies [where path = "CHR ''/'' # rest", simplified]\<close>)

text \<open>The address of an operation, and a query with its signature.\<close>

definition endpoint :: "string \<Rightarrow> string \<Rightarrow> string" where
  "endpoint baseUrl path =
     baseUrl @ (if path = [] \<or> List.last baseUrl = CHR ''/'' \<or> hd path = CHR ''/'' then [] else ''/'') @ path"

lemma build_url_endpoint:
  "baseUrl \<noteq> [] \<Longrightarrow> build_url baseUrl path query = Inr (append_query (endpoint baseUrl path) query)"
  by (simp add: build_url_def append_path_def endpoint_def)

lemma no_nul_endpoint [simp]: "no_nul baseUrl \<Longrightarrow> no_nul path \<Longrightarrow> no_nul (endpoint baseUrl path)"
  by (simp add: endpoint_def)

lemma add_parameter_signs:
  assumes "add_parameter key (hex_encode (he_hmac_sha256 env (qb_query b) secret)) b = Inr b'" "qb_started b" "qb_query b \<noteq> []"
  shows "signed_parameters env key secret (qb_query b') \<and> qb_query b' \<noteq> []"
  using assms by (auto simp: add_parameter_def signed_parameters_def split: if_splits)

lemma add_parameter_no_nul:
  "add_parameter key v b = Inr b' \<Longrightarrow> no_nul key \<Longrightarrow> no_nul v \<Longrightarrow> no_nul (qb_query b) \<Longrightarrow> no_nul (qb_query b')"
  by (auto simp: add_parameter_def split: if_splits)

lemma add_parameter_starts: "add_parameter key v b = Inr b' \<Longrightarrow> qb_started b' \<and> qb_query b' \<noteq> []"
  by (auto simp: add_parameter_def split: if_splits)

lemma add_parameters_starts:
  "add_parameters ps b = Inr b' \<Longrightarrow> ps \<noteq> [] \<or> qb_started b \<and> qb_query b \<noteq> [] \<Longrightarrow> qb_started b' \<and> qb_query b' \<noteq> []"
  by (induction ps b rule: add_parameters.induct)
    (auto simp: res_bind_Inr_iff dest: add_parameter_starts)

lemma digifinex_private_verifies:
  assumes "no_nul (da_apiKey api)" "no_nul path" "no_nul query"
  shows "sends fst (\<lambda>new _. list_all
      (digifinex_verifies env (endpoint digifinex_base_url path) (da_apiKey api) (da_apiSecret api) \<circ> fst) new)
    (digifinex_private (traced env) api verb path reader query)"
proof -
  have "digifinex_base_url \<noteq> []" and n: "no_nul digifinex_base_url" by (simp_all add: digifinex_base_url_def)
  then have u: "build_url digifinex_base_url path query = Inr (append_query (endpoint digifinex_base_url path) query)"
    by (simp add: build_url_endpoint)
  have "digifinex_verifies env (endpoint digifinex_base_url path) (da_apiKey api) (da_apiSecret api)
      (curl_of (add_header ''ACCESS-SIGN'' (digifinex_sign (traced env) api query)
        (add_header ''ACCESS-TIMESTAMP'' (show_int i) (add_header ''ACCESS-KEY'' (da_apiKey api)
          (new_request verb (append_query (endpoint digifinex_base_url path) query))))))" for i
    using assms n unfolding digifinex_verifies_def
    by (intro exI [of _ query]) (simp add: curl_of_plain digifinex_sign_def request_defs)
  then show ?thesis unfolding digifinex_private_def u by (auto intro!: sends_clock sends_checked)
qed

lemma sorted_emplace_all: "list_all P m \<Longrightarrow> P (key, v) \<Longrightarrow> list_all P (sorted_emplace key v m)"
  by (auto simp: sorted_emplace_def list_all_iff set_insort_key)

lemma fold_emplace_all:
  "list_all P ps \<Longrightarrow> list_all P m \<Longrightarrow> list_all P (fold (\<lambda>(k, v). sorted_emplace k v) ps m)"
  by (induction ps arbitrary: m) (auto simp: sorted_emplace_all split: prod.split)

lemma sorted_emplace_not_empty: "sorted_emplace key v m \<noteq> []"
  by (cases m) (auto simp: sorted_emplace_def)

lemma bybit_request_verifies:
  assumes "bybit_private_request api verb path query = Inr request" "ya_baseUrl api \<noteq> []"
    "no_nul (ya_baseUrl api)" "no_nul path" "no_nul query" "query \<noteq> []" "signed_parameters env ''sign'' (ya_apiSecret api) query"
  shows "bybit_verifies env (endpoint (ya_baseUrl api) path) (ya_apiSecret api) (curl_of request)"
  using assms by (cases verb) (auto simp: bybit_private_request_def build_url_endpoint bybit_verifies_def curl_of_plain
      request_defs append_query_def)

lemma bybit_private_verifies:
  assumes "ya_baseUrl api \<noteq> []" "no_nul (ya_baseUrl api)" "no_nul (ya_apiKey api)" "no_nul path"
    "list_all (\<lambda>(k, v). no_nul k \<and> no_nul v) params"
  shows "sends fst (\<lambda>new _. list_all (bybit_verifies env (endpoint (ya_baseUrl api) path) (ya_apiSecret api) \<circ> fst) new)
    (bybit_private (traced env) api verb path reader params)"
  unfolding bybit_private_def Let_def
proof (intro sends_clock sends_reading sends_checked)
  fix i b b' request
  let ?ps = "sorted_emplace ''timestamp'' (show_int i) (sorted_emplace ''api_key'' (ya_apiKey api)
    (fold (\<lambda>(k, v). sorted_emplace k v) params []))"
  assume b: "add_parameters ?ps new_query = Inr b"
    and b': "add_parameter ''sign'' (bybit_sign (traced env) api (qb_query b)) b = Inr b'"
    and r: "bybit_private_request api verb path (qb_query b') = Inr request"
  have "list_all (\<lambda>(k, v). no_nul k \<and> no_nul v) ?ps"
    using assms(3,5) by (intro sorted_emplace_all fold_emplace_all) simp_all
  then have n: "no_nul (qb_query b)" by (rule no_nul_query [OF b, rotated]) (simp add: new_query_def)
  have s: "qb_started b" "qb_query b \<noteq> []" using add_parameters_starts [OF b] sorted_emplace_not_empty by blast+
  from b' have b': "add_parameter ''sign'' (hex_encode (he_hmac_sha256 env (qb_query b) (ya_apiSecret api))) b = Inr b'"
    by (simp add: bybit_sign_def)
  have "no_nul (qb_query b')" by (rule add_parameter_no_nul [OF b']) (simp_all add: n)
  with r assms add_parameter_signs [OF b' s]
  show "bybit_verifies env (endpoint (ya_baseUrl api) path) (ya_apiSecret api) (curl_of request)"
    by (intro bybit_request_verifies [OF r]) simp_all
qed simp_all

text \<open>The keys of the interface stay what they are, so a private call is one on the world alone.\<close>

definition binance_private_with ::
    "'w http_env \<Rightarrow> 'w binance_api \<Rightarrow> http_verb \<Rightarrow> string \<Rightarrow> (string \<Rightarrow> 'v result res) \<Rightarrow> url_query_builder \<Rightarrow> ('w, 'v) action" where
  "binance_private_with env api verb path reader b =
     act_bind (epoch_milliseconds env) (\<lambda>timeStamp.
     reading (add_parameter ''timestamp'' timeStamp b) (\<lambda>b.
     reading (add_parameter ''signature'' (binance_sign env api (qb_query b)) b) (\<lambda>b.
     reading (build_url (na_baseUrl api) path (qb_query b)) (\<lambda>url.
     request_value env (add_header ''X-MBX-APIKEY'' (na_apiKey api) (new_request verb url)) reader))))"

lemma binance_private_on_world:
  "binance_private env verb path reader b s = on_world (binance_private_with env s verb path reader b) s"
proof -
  have "binance_sign env (s\<lparr>na_world := w\<rparr>) q = binance_sign env s q" for w q by (simp add: binance_sign_def)
  then show ?thesis
    by (simp add: binance_private_def binance_private_with_def in_state_def act_simps reading_def epoch_milliseconds_def
        split: sum.split prod.split)
qed

lemma binance_private_verifies:
  assumes "na_baseUrl s \<noteq> []" "no_nul (na_baseUrl s)" "no_nul (na_apiKey s)" "no_nul path" "no_nul (qb_query b)"
  shows "sends fst (\<lambda>new _. list_all
      (binance_verifies env (endpoint (na_baseUrl s) path) (na_apiKey s) (na_secretKey s) \<circ> fst) new)
    (binance_private_with (traced env) s verb path reader b)"
  unfolding binance_private_with_def
proof (intro sends_clock sends_reading sends_checked)
  fix i b' b'' url
  assume b': "add_parameter ''timestamp'' (show_int i) b = Inr b'"
    and b'': "add_parameter ''signature'' (binance_sign (traced env) s (qb_query b')) b' = Inr b''"
    and u: "build_url (na_baseUrl s) path (qb_query b'') = Inr url"
  from b'' have b'': "add_parameter ''signature'' (hex_encode (he_hmac_sha256 env (qb_query b') (na_secretKey s))) b' = Inr b''"
    by (simp add: binance_sign_def)
  have q: "signed_parameters env ''signature'' (na_secretKey s) (qb_query b'') \<and> qb_query b'' \<noteq> []"
    using add_parameter_starts [OF b'] by (intro add_parameter_signs [OF b'']) simp_all
  have "no_nul (qb_query b')" by (rule add_parameter_no_nul [OF b']) (simp_all add: assms)
  then have "no_nul (qb_query b'')" by (intro add_parameter_no_nul [OF b'']) simp_all
  with u q assms show "binance_verifies env (endpoint (na_baseUrl s) path) (na_apiKey s) (na_secretKey s)
      (curl_of (add_header ''X-MBX-APIKEY'' (na_apiKey s) (new_request verb url)))"
    by (auto simp: build_url_endpoint binance_verifies_def curl_of_plain request_defs append_query_def)
qed simp_all

definition sends_from :: "('s \<Rightarrow> 'l list) \<Rightarrow> ('l list \<Rightarrow> bool) \<Rightarrow> ('s, 'a) action \<Rightarrow> 's \<Rightarrow> bool" where
  "sends_from record R m s \<longleftrightarrow> (\<exists>new. record (snd (m s)) = record s @ new \<and> R new)"

lemma sends_from_world:
  "sends fst (\<lambda>new _. R new) m \<Longrightarrow> sends_from (fst \<circ> na_world) R (on_world m) s"
  unfolding sends_def sends_from_def
  by (drule spec [of _ "na_world s"]) (auto simp: in_state_def split: prod.split)

text \<open>
  C16: every request that a private call sends carries the signature that the exchange computes
  from the bytes it receives: of the path, the nonce and the posted fields on Kraken, of the
  timestamp, the verb, the path with the query and the body on Coinbase, of the parameters on
  the others. The texts a user supplies hold no null character and the addresses are not empty.
\<close>

theorem private_requests_verify:
  assumes "\<And>x. no_nul (he_b64_encode env x)"
    and "list_all no_nul [method, path, query, content, ka_publicKey kraken, ca_apiKey coinbase, ca_apiPassphrase coinbase,
      ca_userAgentId coinbase, ca_baseUrl coinbase, na_baseUrl s, na_apiKey s, qb_query b, ya_baseUrl bybit,
      ya_apiKey bybit, da_apiKey digifinex]"
    and "list_all (\<lambda>(k, v). no_nul k \<and> no_nul v) params"
    and "ca_baseUrl coinbase \<noteq> []" "na_baseUrl s \<noteq> []" "ya_baseUrl bybit \<noteq> []"
  shows "sends fst (\<lambda>new _. list_all (kraken_verifies env (ka_publicKey kraken) (ka_decodedPrivateKey kraken) \<circ> fst) new)
      (kraken_private (traced env) kraken method reader query) \<and>
    sends fst (\<lambda>new _. list_all
        (coinbase_verifies env (ca_baseUrl coinbase) (ca_apiKey coinbase) (ca_decodedApiSecret coinbase) \<circ> fst) new)
      (coinbase_private (traced env) coinbase verb (CHR ''/'' # path) reader query content) \<and>
    sends_from (fst \<circ> na_world) (list_all
        (binance_verifies env (endpoint (na_baseUrl s) path) (na_apiKey s) (na_secretKey s) \<circ> fst))
      (binance_private (traced env) verb path reader b) s \<and>
    sends fst (\<lambda>new _. list_all (bybit_verifies env (endpoint (ya_baseUrl bybit) path) (ya_apiSecret bybit) \<circ> fst) new)
      (bybit_private (traced env) bybit verb path reader params) \<and>
    sends fst (\<lambda>new _. list_all
        (digifinex_verifies env (endpoint digifinex_base_url path) (da_apiKey digifinex) (da_apiSecret digifinex) \<circ> fst) new)
      (digifinex_private (traced env) digifinex verb path reader query)"
proof -
  have "sends_from (fst \<circ> na_world) (list_all
        (binance_verifies env (endpoint (na_baseUrl s) path) (na_apiKey s) (na_secretKey s) \<circ> fst))
      (on_world (binance_private_with (traced env) s verb path reader b)) s"
    by (rule sends_from_world [OF binance_private_verifies]) (use assms in simp_all)
  moreover have "sends_from (fst \<circ> na_world) R (binance_private (traced env) verb path reader b) s \<longleftrightarrow>
      sends_from (fst \<circ> na_world) R (on_world (binance_private_with (traced env) s verb path reader b)) s" for R
    by (simp add: sends_from_def binance_private_on_world)
  ultimately show ?thesis using assms
    by (auto intro!: kraken_private_verifies coinbase_private_verifies bybit_private_verifies digifinex_private_verifies)
qed

theorem private_requests_verify_witness:
  "let env = \<lparr>he_perform = \<lambda>r w. (Inr (200, ''{}''), Suc w), he_now_ms = \<lambda>_. 9, he_sha256 = id,
         he_hmac_sha256 = \<lambda>d k. k @ d, he_hmac_sha512 = \<lambda>d k. k @ d, he_b64_encode = filter (\<lambda>c. c \<noteq> CHR 0x00)\<rparr>;
       s = \<lparr>na_baseUrl = ''https://api.binance.com'', na_apiKey = ''key'', na_secretKey = ''s'', na_orderFilters = [],
         na_world = ([], 0)\<rparr>;
       sent = fst (na_world (snd (binance_private (traced env) POST ''/api/v3/order''
         (\<lambda>_. Inr (Success ())) \<lparr>qb_query = ''symbol=BTCGBP'', qb_started = True\<rparr> s)))
   in list_all (binance_verifies env ''https://api.binance.com/api/v3/order'' ''key'' ''s'' \<circ> fst) sent \<and> length sent = 1"
proof -
  let ?env = "\<lparr>he_perform = \<lambda>r w. (Inr (200, ''{}''), Suc w), he_now_ms = \<lambda>_. 9, he_sha256 = id,
    he_hmac_sha256 = \<lambda>d k. k @ d, he_hmac_sha512 = \<lambda>d k. k @ d, he_b64_encode = filter (\<lambda>c. c \<noteq> CHR 0x00)\<rparr>"
  let ?s = "\<lparr>na_baseUrl = ''https://api.binance.com'', na_apiKey = ''key'', na_secretKey = ''s'', na_orderFilters = [],
    na_world = ([], 0 :: nat)\<rparr>"
  let ?b = "\<lparr>qb_query = ''symbol=BTCGBP'', qb_started = True\<rparr>"
  let ?sent = "fst (na_world (snd (binance_private (traced ?env) POST ''/api/v3/order'' (\<lambda>_. Inr (Success ())) ?b ?s)))"
  have "sends_from (fst \<circ> na_world) (list_all (binance_verifies ?env (endpoint (na_baseUrl ?s) ''/api/v3/order'')
      (na_apiKey ?s) (na_secretKey ?s) \<circ> fst))
      (binance_private (traced ?env) POST ''/api/v3/order'' (\<lambda>_. Inr (Success ())) ?b) ?s"
    using private_requests_verify [of ?env "''Balance''" "''/api/v3/order''" "''a=1''" "[]"
        "\<lparr>ka_publicKey = ''k'', ka_decodedPrivateKey = ''p''\<rparr>"
        "\<lparr>ca_baseUrl = ''https://c'', ca_userAgentId = ''9'', ca_apiKey = ''k'', ca_decodedApiSecret = ''p'', ca_apiPassphrase = ''q''\<rparr>"
        ?s ?b "\<lparr>ya_baseUrl = ''https://b'', ya_apiKey = ''k'', ya_apiSecret = ''p'', ya_fee = 0\<rparr>"
        "\<lparr>da_apiKey = ''k'', da_apiSecret = ''p''\<rparr>" "[(''a'', ''1'')]" "\<lambda>_. Inr (Success ())" POST]
    by (simp add: no_nul_def)
  moreover have "length ?sent = 1" by code_simp
  ultimately show ?thesis by (simp add: Let_def sends_from_def endpoint_def)
qed

end
