(* ===== verification/Schedules.thy ===== *)
theory Schedules
  imports Configs
begin

text \<open>
  The documents of a fee schedule (\<^verbatim>\<open>trading/fee_schedule.cpp\<close>): its tiers are a
  \<^verbatim>\<open>std::map\<close> from doubles, which the JSON library writes as an array of pairs. The lemmas
  show that a schedule is read as it was written, and that a document in any order gives the
  tiers in ascending order.
\<close>

text \<open>\<^verbatim>\<open>std::map::emplace\<close>: by the order of the keys, and an equal key stays.\<close>

fun tier_emplace :: "double \<Rightarrow> double \<Rightarrow> (double \<times> double) list \<Rightarrow> (double \<times> double) list" where
  "tier_emplace k v [] = [(k, v)]"
| "tier_emplace k v ((x, y) # m) =
     (if x < k then (x, y) # tier_emplace k v m else if k < x then (k, v) # (x, y) # m else (x, y) # m)"

definition get_tier :: "json \<Rightarrow> (double \<times> double) res" where
  "get_tier p = (case p of
       JArray (a # b # _) \<Rightarrow> res_bind (get_double a) (\<lambda>k. res_map (Pair k) (get_double b))
     | JArray _ \<Rightarrow> Inl (Json_exception ''array index is out of range'')
     | _ \<Rightarrow> type_error)"

definition get_tiers :: "json \<Rightarrow> (double \<times> double) list res" where
  "get_tiers json = (case json of
       JArray ps \<Rightarrow> res_map (\<lambda>tiers. fold (\<lambda>(k, v). tier_emplace k v) tiers []) (res_traverse get_tier ps)
     | _ \<Rightarrow> type_error)"

definition fee_schedule_from_json :: "json \<Rightarrow> fee_schedule res" where
  "fee_schedule_from_json json = res_map (\<lambda>tiers. \<lparr>fs_fees = tiers\<rparr>) (member get_tiers json ''fees'')"

definition fee_schedule_to_json :: "fee_schedule \<Rightarrow> json" where
  "fee_schedule_to_json config = json_object
     [(''fees'', JArray (map (\<lambda>(tierLimit, fee). JArray [JDouble tierLimit, JDouble fee]) (fs_fees config)))]"

lemma tier_emplace_last: "sorted_wrt (<) (map fst m @ [k]) \<Longrightarrow> tier_emplace k v m = m @ [(k, v)]"
  by (induction k v m rule: tier_emplace.induct) auto

lemma tiers_in_order:
  "sorted_wrt (<) (map fst (m @ ts)) \<Longrightarrow> fold (\<lambda>(k, v). tier_emplace k v) ts m = m @ ts"
proof (induction ts arbitrary: m)
  case (Cons t ts)
  obtain k v where t: "t = (k, v)" by (cases t)
  have "sorted_wrt (<) (map fst m @ [k])" using Cons.prems by (auto simp: t sorted_wrt_append)
  moreover have "sorted_wrt (<) (map fst ((m @ [(k, v)]) @ ts))" using Cons.prems by (simp add: t)
  ultimately show ?case using Cons.IH [of "m @ [(k, v)]"] by (simp add: t tier_emplace_last)
qed simp

lemma tiers_read: "res_traverse get_tier (map (\<lambda>(tierLimit, fee). JArray [JDouble tierLimit, JDouble fee]) ts) = Inr ts"
  by (induction ts) (auto simp: get_tier_def)

lemma fee_schedule_written:
  "fee_schedule_ok fs \<Longrightarrow> fee_schedule_from_json (fee_schedule_to_json fs) = Inr fs"
  using tiers_in_order [of "[]" "fs_fees fs"]
  by (simp add: fee_schedule_from_json_def fee_schedule_to_json_def json_simps get_tiers_def tiers_read fee_schedule_ok_def)

interpretation fee_schedule_file: config_kind fee_schedule_from_json fee_schedule_to_json fee_schedule_ok
  by unfold_locales (rule fee_schedule_written)

text \<open>Whatever the order of the document, the tiers that are read can be searched from the front.\<close>

lemma tier_emplace_keys: "t \<in> set (tier_emplace k v m) \<Longrightarrow> t = (k, v) \<or> t \<in> set m"
  by (induction k v m rule: tier_emplace.induct) (auto split: if_splits)

lemma tier_emplace_sorted:
  "sorted_wrt (<) (map fst m) \<Longrightarrow> list_all (\<lambda>t. \<not> isnan (fst t)) m \<Longrightarrow> \<not> isnan k \<Longrightarrow>
    sorted_wrt (<) (map fst (tier_emplace k v m)) \<and> list_all (\<lambda>t. \<not> isnan (fst t)) (tier_emplace k v m)"
proof (induction k v m rule: tier_emplace.induct)
  case (2 k v x y m)
  then show ?case
    by (auto simp: list_all_iff dest!: tier_emplace_keys intro: double_less_trans)
qed simp

lemma tiers_fold_sorted:
  "sorted_wrt (<) (map fst m) \<Longrightarrow> list_all (\<lambda>t. \<not> isnan (fst t)) m \<Longrightarrow> list_all (\<lambda>t. \<not> isnan (fst t)) ts \<Longrightarrow>
    sorted_wrt (<) (map fst (fold (\<lambda>(k, v). tier_emplace k v) ts m))"
proof (induction ts arbitrary: m)
  case (Cons t ts)
  then show ?case using tier_emplace_sorted [of m "fst t" "snd t"] Cons.IH [of "tier_emplace (fst t) (snd t) m"]
    by (simp add: case_prod_unfold)
qed simp

lemma tiers_sorted:
  assumes "get_tiers json = Inr tiers" "\<And>ps. json = JArray ps \<Longrightarrow> list_all (\<lambda>p. \<forall>k v. get_tier p = Inr (k, v) \<longrightarrow> \<not> isnan k) ps"
  shows "fee_schedule_ok \<lparr>fs_fees = tiers\<rparr>"
proof -
  obtain ps ts where ps: "json = JArray ps" "res_traverse get_tier ps = Inr ts"
    and tiers: "tiers = fold (\<lambda>(k, v). tier_emplace k v) ts []"
    using assms(1) by (auto simp: get_tiers_def split: json.splits dest!: res_map_InrD)
  have n: "list_all (\<lambda>t. \<not> isnan (fst t)) ts"
    using res_traverse_Inr [OF ps(2)] assms(2) [OF ps(1)]
    by (induction ps ts rule: list_all2_induct) (auto split: prod.splits)
  from tiers_fold_sorted [OF _ _ n, of "[]"] show ?thesis by (simp add: tiers fee_schedule_ok_def)
qed

end
