(* ===== verification/ReportFiles.thy ===== *)
theory ReportFiles
  imports Reporting Files Host
begin

text \<open>
  The files of a test (\<^verbatim>\<open>testing/reporting/test_logger.cpp\<close>): where the results go, and
  the report that is written and logged at the end. The lemmas show that a report that cannot be
  written is not lost and ends nothing.
\<close>

definition get_output_path :: "string \<Rightarrow> string \<Rightarrow> string" where
  "get_output_path localDirectory resultsFolderName =
     path_append (path_append localDirectory ''test_results'') resultsFolderName"

text \<open>Any exception of the write is logged and not passed on. The state is the files and the log.\<close>

definition create_report_file ::
    "string \<Rightarrow> (string \<Rightarrow> open_mode \<Rightarrow> bool) \<Rightarrow> string \<Rightarrow> string \<Rightarrow> (file_system \<times> logger, unit) action" where
  "create_report_file strerror permits report path s =
     (case append_to_file strerror permits (path_append path ''report.txt'') report (fst s) of
        (Inr _, fs) \<Rightarrow> (Inr (), (fs, snd s))
      | (Inl e, fs) \<Rightarrow> if is_undefined e then (Inl e, (fs, snd s))
          else (Inr (), (fs, log_error (''An error occurred whilst saving back test results: '' @ what e) (snd s))))"

definition log_test_report ::
    "string \<Rightarrow> (string \<Rightarrow> open_mode \<Rightarrow> bool) \<Rightarrow> string \<Rightarrow> test_report \<Rightarrow> (file_system \<times> logger, unit) action" where
  "log_test_report strerror permits outputDirectory report =
     (let reportString = generate_report_string report in
      act_seq (create_report_file strerror permits reportString outputDirectory)
        (act_modify (\<lambda>(fs, l). (fs, log_info (CHR 0x0A # reportString) l))))"

text \<open>The report is always on the console, and in its file unless the log says why it is not.\<close>

lemma log_test_report_result:
  "log_test_report strerror permits dir report (fs, l) =
    (let text = generate_report_string report; path = path_append dir ''report.txt'' in
     if permits path FOR_APPENDING
     then (Inr (), (write_to_file path text fs, log_info (CHR 0x0A # text) l))
     else (Inr (), (fs, log_info (CHR 0x0A # text)
       (log_error (''An error occurred whilst saving back test results: '' @ strerror) l))))"
  by (simp add: log_test_report_def create_report_file_def append_to_file_writes append_to_file_fails act_simps Let_def)

lemma report_logged:
  "fst (log_test_report strerror permits dir report s) = Inr () \<and>
    List.last (lg_console (snd (snd (log_test_report strerror permits dir report s)))) =
      (INFO_LEVEL, CHR 0x0A # generate_report_string report)"
  by (cases s) (simp add: log_test_report_result Let_def log_info_def log_message_def)

text \<open>The folder is named after the second: two tests of the same second share their report.\<close>

lemma reports_of_one_second:
  assumes "permits (path_append dir ''report.txt'') FOR_APPENDING" "fs (path_append dir ''report.txt'') = None"
  shows "fst (snd (log_test_report strerror permits dir second (snd (log_test_report strerror permits dir first (fs, l)))))
      (path_append dir ''report.txt'') = Some (generate_report_string first @ generate_report_string second)"
  using assms by (simp add: log_test_report_result Let_def write_to_file_def)

end
