(* ===== verification/Spec2Isabelle.thy ===== *)
theory Spec2Isabelle
  imports BackTestRun SetQueue Locks Connections FrontEnd Handles Formats Iterators Files Host HttpTransfer Template Signatures Schedules ReportFiles
begin

text \<open>
  A verification development for marketblocks, a C++ framework in which a user writes a trading
  strategy once and runs it live, on live markets with simulated money, or on historical data.

  The parts and how they interact. A strategy sees exchanges (\<^verbatim>\<open>exchanges/exchange.h\<close>): a
  market to read, an account to trade on, and a stream of market updates. The five exchanges
  put requests together, have them sent over HTTP and read the answers
  (\<^verbatim>\<open>exchanges/*/*.cpp\<close>, \<^verbatim>\<open>*_results.cpp\<close>), and read the messages of a websocket
  connection into the stream they share (\<^verbatim>\<open>*_websocket.cpp\<close>,
  \<^verbatim>\<open>exchanges/websockets\<close>). In a test the account is a paper account
  (\<^verbatim>\<open>testing/paper_trading\<close>) that listens to the stream and fills orders at its trades;
  in a back test the stream replays candles from files (\<^verbatim>\<open>testing/back_testing\<close>). The
  runners (\<^verbatim>\<open>runner\<close>) call the strategy in a loop, catch what it throws, and log and
  report what the accounts did (\<^verbatim>\<open>testing/reporting\<close>).

  The theories, from the bottom. All paths are below \<^verbatim>\<open>src/src\<close>.
    \<^item> Prelude: exceptions as the sum type \<open>res\<close>, operations on a state as \<open>action\<close>s that return
      the state they reach also when they throw, integer conversions, containers
      (\<^verbatim>\<open>common/utils/containerutils.h\<close>). Undefined behaviour is an error of its own that
      nothing catches.
    \<^item> Doubles, MathUtils, StringUtils: IEEE binary64 with one rounding for each operation,
      \<^verbatim>\<open>mathutils\<close>, \<^verbatim>\<open>financeutils\<close>, \<^verbatim>\<open>stringutils\<close>, \<^verbatim>\<open>common/csv\<close>, and
      reading and printing numbers.
    \<^item> Trading, Candles, Formats: the data of \<^verbatim>\<open>trading\<close> and its two candle builders; a
      moving candle is refined from the window of the trades it stands for, and every number on
      the way is a value of the format.
    \<^item> OrderBookCache, WebsocketStream: the levels of a streamed book, refined from a map from
      prices to volumes; subscriptions, stored updates and handlers of a stream.
    \<^item> Locks: the locks the stream and the account take and the shared data they access under
      them, as an interleaving of threads; that no two accesses race, when every run ends, and the
      two operations that can wait for each other.
    \<^item> PaperTrading, Ledger: the paper account and its abstract specification, a ledger of fills.
    \<^item> BackTestData, BackTesting: historical candles at a moving time, the replayed stream, and
      the loading of the files.
    \<^item> Json, Configs, Schedules: the JSON wrapper over the data model of JSON, the configuration
      files, and the documents of a fee schedule.
    \<^item> Reporting, ReportFiles, Runner: the trade log, the reports and their files; the back test,
      the live test and the live run, and the helpers of \<^verbatim>\<open>exchange_common.h\<close> and
      \<^verbatim>\<open>retry.h\<close>.
    \<^item> BackTestRun: a whole back test, with any strategy that is a client of the account and the
      stream, its ledger and the data time of each of its iterations.
    \<^item> ExchangeResults, Requests, and Kraken, Coinbase, Binance, Bybit, Digifinex: answers, requests
      and stream messages of each exchange.
    \<^item> HttpTransfer, Handles, Connections: sending a request call by call, which implements the one
      step the exchanges are modelled with; who owns a curl handle; the life of a websocket
      connection and of its client.
    \<^item> Files, Iterators, SetQueue, Host: the file handlers and files of rows
      (\<^verbatim>\<open>common/file\<close>), the iterators of rows, the queue without repetitions of
      \<^verbatim>\<open>common/types/set_queue.h\<close>, and what is asked of the machine: hashes, log, clock and
      directories (\<^verbatim>\<open>common/security\<close>, \<^verbatim>\<open>logging\<close>,
      \<^verbatim>\<open>runner/system\<close>, \<^verbatim>\<open>common/utils/timeutils\<close>).
    \<^item> Exchanges: the interface of an exchange, the five behind it and the one put together from
      two; what a live run makes of their failures. Template: the skeleton of a new exchange.
    \<^item> Orders, Signatures: what the exchanges send, on a record of the requests performed: an order
      is posted once at most, and private requests carry the signature the exchange computes.
    \<^item> FrontEnd: \<^verbatim>\<open>runner/runner.h\<close>, from the configuration to the end of the process.

  Classes are records whose fields have the names of the members, with the prefix of the record;
  member functions have their own names, with the prefix of the class where two clash. Every
  exception, early return and failed assertion of the code is a branch of the model.

  The interfaces. \<open>ordered_side\<close> (the comparators of the book), \<open>channel_store\<close> (the stored
  updates of a stream), \<open>price_feed\<close> (what the account needs of a stream), \<open>candle_source\<close> (what
  a back test needs of its data), \<open>config_kind\<close> (a configuration that can be written and read),
  \<open>answer_reader\<close> (what a request needs of a reader) and \<open>exchange_reads\<close> with its extensions
  \<open>exchange_closed_orders\<close> and \<open>exchange_prices\<close> (what a strategy that places no orders may rely on)
  are locales; each is interpreted on the definitions of the code that provide it.

  What the lemmas show. For the accounts: ids, queues and closed orders stay consistent, the
  balances are those of the ledger, fills happen at the rule's price, a trade message tries
  each queued order once, and an order that is triggered and cannot be paid blocks those behind it. For the markets: books, candles and back test data are what
  their abstract specifications say, and a strategy sees no candle before its time except where
  a lemma says so. For the exchanges: the book messages of Kraken, Binance and Bybit are applied
  one by one as they are listed, and the answers are read level by level. For the runs: every
  iteration has its data time, every closed order of a live test is logged once, a call that
  fails ends its iteration only and the run goes through all of them, and every end of the program has the same exit code. For what is
  sent: an order goes out once at most and its number is the answer to it, a private request
  is signed over the bytes that are sent, and the calls to the curl library amount to one step.
  Where the code differs from what it means to do, a theorem states what it does.

  Bounds and fuel. Integers are kept at their width where they can wrap: volumes are 64-bit
  words, narrowing to \<^verbatim>\<open>int\<close> is explicit; times and counters are unbounded integers.
  Loops are structural or have a measure; the two loops that wait for a connection are partial
  functions, and returning is proved from the library leaving a state. \<open>live_run\<close> and
  \<open>live_test_run\<close> take the number of iterations, which the code does not bound; \<open>iteration\<close> takes
  the number of calls, for any number. Rounding to a double is a function of the exact rational,
  so it needs no fuel.

  Not modelled: the JSON parser and printer, curl, websocketpp, OpenSSL, spdlog, the clock, the
  formatting of local times, the operating system's file permissions and its processes are
  parameters, on which the code that calls them is modelled. The set-up of the logger's threads
  and of the event loop of the websockets is left out, as are the templates that only report a
  missing specialisation (\<^verbatim>\<open>from_json\<close>, \<^verbatim>\<open>to_json\<close>,
  \<^verbatim>\<open>from_csv_row\<close>) and declarations that are repeated by their definitions.
  The files of the configurations and the trade log are taken to open and to be written. Data races are
  looked at for the wrapped maps of a stream and the members of an account, not for the handlers and
  the connection of a stream; the fee of an account is never written.
  Memory that is full is a case of HttpTransfer only. The iteration order of hash tables, which the
  language leaves open, is the order of insertion.
\<close>

section \<open>Orders as the exchanges see them\<close>

lemma small_magnitude:
  assumes "0 \<le> q" "q \<le> 1 / 2000000"
  shows "fixed_magnitude 6 q = ''0.000000''"
proof -
  have "\<lfloor>q * 1000000\<rfloor> = 0" using assms by (simp add: floor_eq_iff)
  then have "rne (\<bar>q\<bar> * 10 ^ 6) = 0" using assms by (simp add: rne_def)
  moreover have "''0'' @ CHR ''.'' # pad_left 6 (digits_of 0) = ''0.000000''" by code_simp
  moreover have "digits_of 0 = ''0''" by code_simp
  ultimately show ?thesis by (simp add: fixed_magnitude_def)
qed

lemma show_small: "0 \<le> q \<Longrightarrow> q \<le> 1 / 2000000 \<Longrightarrow> show_double (Fin q) = ''0.000000''"
  by (simp add: show_double_def to_string_fixed_def small_magnitude signbit_def)

text \<open>
  Numbers are sent with six decimals, whatever the pair: an order for half a millionth or
  less, a few cents of bitcoin, is sent to Kraken and Coinbase with a volume of zero.
\<close>

lemma small_orders_sent_as_zero:
  assumes "0 \<le> q" "q \<le> 1 / 2000000"
  shows "(\<exists>ps. kraken_order_parameters (create_limit_order pair action price (Fin q)) = Inr ps \<and>
      map_of ps ''volume'' = Some ''0.000000'') \<and>
    (\<exists>m. coinbase_order_json (create_limit_order pair action price (Fin q)) = Inr (JObject m) \<and>
      map_of m ''size'' = Some (JString ''0.000000''))"
  using assms
  by (auto simp: kraken_order_parameters_def kraken_order_type_string_def coinbase_order_json_def
      coinbase_order_type_string_def create_limit_order_def rq_get_def find_or_default_def show_small json_object_def)

lemma small_orders_sent_as_zero_example:
  "\<exists>ps. kraken_order_parameters (create_limit_order \<lparr>tp_asset = ''XBT'', tp_priceUnit = ''GBP''\<rparr> BUY (lit 60000)
      (Fin (1 / 2 ^ 22))) = Inr ps \<and> map_of ps ''volume'' = Some ''0.000000''"
  using small_orders_sent_as_zero [of "1 / 2 ^ 22" "\<lparr>tp_asset = ''XBT'', tp_priceUnit = ''GBP''\<rparr>" BUY "lit 60000"] by simp

end
